(* ===== verification/Prelude.thy ===== *)
theory Prelude
  imports Complex_Main "HOL-Library.Sublist"
begin

text \<open>
  Shared vocabulary of the development: the JavaScript built-ins the TypeScript sources
  rely on, written out with their JavaScript meaning (the \<open>||\<close> and \<open>??\<close> defaulting
  of option objects, string truthiness, \<open>Array.prototype.slice\<close>), the chunking
  function that is the reference for every batching loop of the sources, and list lemmas
  the component theories share.  JavaScript numbers used as counters, sizes and indices
  are modelled as \<open>int\<close> where the sources accept any number (so that zero and negative
  options keep their JavaScript meaning) and as \<open>nat\<close> where they only count.
\<close>

named_theorems js_simps "evaluation rules of the JavaScript built-ins of the model"

subsection \<open>Option defaulting and truthiness\<close>

text \<open>\<open>x || d\<close> on an optional number: \<open>undefined\<close> and \<open>0\<close> are falsy.\<close>

definition js_or :: "int option \<Rightarrow> int \<Rightarrow> int" where
  "js_or x d = (case x of None \<Rightarrow> d | Some v \<Rightarrow> if v = 0 then d else v)"

text \<open>\<open>x ?? d\<close>: only \<open>undefined\<close> (and \<open>null\<close>) is replaced.\<close>

definition js_nullish :: "'a option \<Rightarrow> 'a \<Rightarrow> 'a" where
  "js_nullish x d = (case x of None \<Rightarrow> d | Some v \<Rightarrow> v)"

text \<open>Truthiness of an optional string: \<open>undefined\<close> and \<open>''''\<close> are falsy.\<close>

definition js_truthy_str :: "string option \<Rightarrow> bool" where
  "js_truthy_str x = (case x of None \<Rightarrow> False | Some m \<Rightarrow> m \<noteq> [])"

lemma js_or_simps [simp, js_simps]:
  "js_or None d = d"
  "js_or (Some v) d = (if v = 0 then d else v)"
  by (simp_all add: js_or_def)

lemma js_nullish_simps [simp, js_simps]:
  "js_nullish None d = d"
  "js_nullish (Some v) d = v"
  by (simp_all add: js_nullish_def)

lemma js_truthy_str_simps [simp, js_simps]:
  "js_truthy_str None = False"
  "js_truthy_str (Some m) = (m \<noteq> [])"
  by (simp_all add: js_truthy_str_def)

subsection \<open>Array.prototype.slice\<close>

text \<open>
  \<open>xs.slice(s, e)\<close>: a negative bound counts from the end, both bounds are clamped to
  \<open>[0, length]\<close>, and the result is empty when the end is not after the start.
\<close>

definition js_rel_index :: "int \<Rightarrow> nat \<Rightarrow> nat" where
  "js_rel_index i len = (if i < 0 then nat (max (int len + i) 0) else nat (min i (int len)))"

definition js_slice :: "'a list \<Rightarrow> int \<Rightarrow> int \<Rightarrow> 'a list" where
  "js_slice xs s e =
     (let k = js_rel_index s (length xs); f = js_rel_index e (length xs)
      in take (f - k) (drop k xs))"

lemma js_slice_nat [js_simps]:
  "js_slice xs (int i) (int i + int n) = take n (drop i xs)"
proof (cases "i \<le> length xs")
  case True
  then show ?thesis
    by (auto simp: js_slice_def js_rel_index_def nat_int_add min_def nat_le_iff)
next
  case False
  then show ?thesis
    by (simp add: js_slice_def js_rel_index_def min_def)
qed

subsection \<open>Chunking, the reference for the batching loops\<close>

fun chunks :: "nat \<Rightarrow> 'a list \<Rightarrow> 'a list list" where
  "chunks n xs = (if n = 0 \<or> xs = [] then [] else take n xs # chunks n (drop n xs))"

declare chunks.simps [simp del]

lemma chunks_Nil [simp]: "chunks n [] = []"
  by (simp add: chunks.simps)

lemma chunks_zero [simp]: "chunks 0 xs = []"
  by (simp add: chunks.simps)

lemma chunks_step:
  "0 < n \<Longrightarrow> xs \<noteq> [] \<Longrightarrow> chunks n xs = take n xs # chunks n (drop n xs)"
  by (simp add: chunks.simps)

lemma concat_chunks [simp]: "0 < n \<Longrightarrow> concat (chunks n xs) = xs"
proof (induction n xs rule: chunks.induct)
  case (1 n xs)
  then show ?case
    by (cases "xs = []") (simp_all add: chunks_step)
qed

lemma chunks_members:
  "ys \<in> set (chunks n xs) \<Longrightarrow> ys \<noteq> [] \<and> length ys \<le> n"
proof (induction n xs rule: chunks.induct)
  case (1 n xs)
  then show ?case
    by (cases "n = 0 \<or> xs = []") (auto simp: chunks.simps [of n xs])
qed

lemma length_chunks:
  "0 < n \<Longrightarrow> length (chunks n xs) = (length xs + (n - 1)) div n"
proof (induction n xs rule: chunks.induct)
  case (1 n xs)
  show ?case
  proof (cases "xs = []")
    case True
    with "1.prems" show ?thesis by simp
  next
    case False
    with "1.prems" "1.IH" have eq: "length (chunks n xs) = Suc ((length xs - n + (n - 1)) div n)"
      by (simp add: chunks_step)
    show ?thesis
    proof (cases "n \<le> length xs")
      case True
      then obtain m where m: "length xs = m + n" by (metis le_add_diff_inverse2)
      have "(length xs + (n - 1)) div n = (m + (n - 1) + n) div n"
        using m by (simp add: ac_simps)
      also have "\<dots> = Suc ((m + (n - 1)) div n)"
        using "1.prems" by (subst div_add_self2) auto
      finally show ?thesis using m eq by simp
    next
      case False
      from \<open>xs \<noteq> []\<close> have "0 < length xs" by simp
      then have lo: "n * 1 \<le> length xs + (n - 1)" by linarith
      from False have hi: "length xs + (n - 1) < n * Suc 1" by simp
      from div_nat_eqI [OF lo hi] have "(length xs + (n - 1)) div n = 1" .
      with False eq show ?thesis by simp
    qed
  qed
qed

subsection \<open>The slicing loop\<close>

text \<open>
  \<open>for (let i = 0; i < xs.length; i += n) out.push(xs.slice(i, i + n))\<close>, the loop
  both batch processors use to cut a list into batches.  It does not end when
  \<open>n \<le> 0\<close>, so it takes fuel: \<open>None\<close> is a loop that has not ended.
\<close>

fun slice_loop :: "nat \<Rightarrow> int \<Rightarrow> 'a list \<Rightarrow> int \<Rightarrow> 'a list list option" where
  "slice_loop 0 n items i = None"
| "slice_loop (Suc fuel) n items i =
     (if i < int (length items)
      then map_option (Cons (js_slice items i (i + n))) (slice_loop fuel n items (i + n))
      else Some [])"

lemma slice_loop_chunks:
  "0 < n \<Longrightarrow> length items - i < fuel \<Longrightarrow>
     slice_loop fuel (int n) items (int i) = Some (chunks n (drop i items))"
proof (induction fuel arbitrary: i)
  case 0
  then show ?case by simp
next
  case (Suc fuel)
  show ?case
  proof (cases "i < length items")
    case True
    with Suc.prems have "length items - (i + n) < fuel" by linarith
    from Suc.IH [OF Suc.prems(1) this] have
      "slice_loop fuel (int n) items (int (i + n)) = Some (chunks n (drop (i + n) items))" .
    with True Suc.prems(1) show ?thesis
      by (simp add: js_slice_nat chunks_step add.commute)
  next
    case False
    then show ?thesis by simp
  qed
qed

lemma slice_loop_nonpos:
  "n \<le> 0 \<Longrightarrow> i < int (length items) \<Longrightarrow> slice_loop fuel n items i = None"
  by (induction fuel arbitrary: i) simp_all

lemma slice_loop_concat:
  "slice_loop fuel n items i = Some bs \<Longrightarrow> 0 \<le> i \<Longrightarrow> concat bs = drop (nat i) items"
proof (induction fuel arbitrary: i bs)
  case 0
  then show ?case by simp
next
  case (Suc fuel)
  show ?case
  proof (cases "i < int (length items)")
    case True
    show ?thesis
    proof (cases "n \<le> 0")
      case True
      with \<open>i < int (length items)\<close> Suc.prems(1) show ?thesis
        by (simp add: slice_loop_nonpos)
    next
      case False
      then obtain n' where n': "n = int n'" "0 < n'" by (metis not_le pos_int_cases)
      from Suc.prems obtain i' where i': "i = int i'" by (metis nonneg_int_cases)
      from Suc.prems(1) True obtain rest where
        rest: "slice_loop fuel n items (i + n) = Some rest"
        and bs: "bs = js_slice items i (i + n) # rest" by auto
      from Suc.IH [OF rest] i' n' have "concat rest = drop n' (drop i' items)"
        by (simp add: nat_int_add add.commute)
      with bs i' n' have "concat bs = take n' (drop i' items) @ drop n' (drop i' items)"
        by (simp add: js_slice_nat del: drop_drop)
      with i' show ?thesis by (simp del: drop_drop)
    qed
  next
    case False
    with Suc.prems show ?thesis by simp
  qed
qed

lemma slice_loop_Some_chunks:
  "slice_loop fuel (int n) items (int i) = Some bs \<Longrightarrow> 0 < n \<Longrightarrow> bs = chunks n (drop i items)"
proof (induction fuel arbitrary: i bs)
  case 0
  then show ?case by simp
next
  case (Suc fuel)
  show ?case
  proof (cases "i < length items")
    case True
    with Suc.prems(1) obtain rest where
      rest: "slice_loop fuel (int n) items (int (i + n)) = Some rest"
      and bs: "bs = js_slice items (int i) (int (i + n)) # rest" by auto
    from Suc.IH [OF rest Suc.prems(2)] bs True Suc.prems(2) show ?thesis
      by (simp add: js_slice_nat chunks_step add.commute)
  next
    case False
    with Suc.prems show ?thesis by simp
  qed
qed

lemma nth_chunks:
  "b < length (chunks n xs) \<Longrightarrow> k < length (chunks n xs ! b) \<Longrightarrow>
     b * n + k < length xs \<and> chunks n xs ! b ! k = xs ! (b * n + k)"
proof (induction n xs arbitrary: b rule: chunks.induct)
  case (1 n xs)
  then have ne: "0 < n" "xs \<noteq> []" by (auto simp: chunks.simps [of n xs] split: if_splits)
  show ?case
  proof (cases b)
    case 0
    with "1.prems" ne show ?thesis by (simp add: chunks_step)
  next
    case (Suc b')
    with "1.prems" ne have "b' < length (chunks n (drop n xs))" "k < length (chunks n (drop n xs) ! b')"
      by (simp_all add: chunks_step)
    from "1.IH" [of b'] ne this have
      "b' * n + k < length (drop n xs) \<and> chunks n (drop n xs) ! b' ! k = drop n xs ! (b' * n + k)"
      by simp
    with Suc ne show ?thesis by (auto simp: chunks_step nth_drop ac_simps)
  qed
qed

subsection \<open>Reference outcome of a retried item\<close>

text \<open>
  What a retrying wrapper (\<open>processWithRetry\<close>, \<open>processChunkWithRetry\<close>) decides for
  one item, without its counters: whether the item finally succeeds and how many retries
  it takes.  Attempts \<open>k, k+1, \<dots>\<close> are made until one succeeds (the oracle \<open>ok x k\<close>)
  or the attempt number reaches the retry limit \<open>mr\<close>.
\<close>

function retry_outcome :: "int \<Rightarrow> ('a \<Rightarrow> nat \<Rightarrow> bool) \<Rightarrow> 'a \<Rightarrow> nat \<Rightarrow> bool \<times> nat" where
  "retry_outcome mr ok x k =
     (if ok x k then (True, 0)
      else if int k < mr then (case retry_outcome mr ok x (Suc k) of (r, n) \<Rightarrow> (r, Suc n))
      else (False, 0))"
  by pat_completeness auto
termination
  by (relation "measure (\<lambda>(mr, ok, x, k). nat (mr - int k))") auto

declare retry_outcome.simps [simp del]

subsection \<open>JavaScript Map and Object entries\<close>

text \<open>
  A \<open>Map\<close> (or an object used as a dictionary) as an association list in insertion
  order, the order \<open>keys()\<close> and \<open>Object.keys\<close> enumerate.
\<close>

text \<open>\<open>Map.prototype.set\<close>: overwrite in place, or append a new key.\<close>

fun map_set :: "'k \<Rightarrow> 'a \<Rightarrow> ('k \<times> 'a) list \<Rightarrow> ('k \<times> 'a) list" where
  "map_set k v [] = [(k, v)]"
| "map_set k v ((k', v') # xs) = (if k' = k then (k, v) # xs else (k', v') # map_set k v xs)"

text \<open>\<open>Map.prototype.delete\<close>.\<close>

definition map_delete :: "'k \<Rightarrow> ('k \<times> 'a) list \<Rightarrow> ('k \<times> 'a) list" where
  "map_delete k xs = filter (\<lambda>(k', _). k' \<noteq> k) xs"

lemma map_of_map_set [simp]: "map_of (map_set k v xs) = (map_of xs)(k \<mapsto> v)"
  by (induction xs) (auto simp: fun_eq_iff)

lemma keys_map_set [simp]: "fst ` set (map_set k v xs) = insert k (fst ` set xs)"
proof (induction xs)
  case (Cons p xs)
  then show ?case by (cases p) (auto intro: rev_image_eqI)
qed simp

lemma distinct_map_set [simp]:
  "distinct (map fst (map_set k v xs)) = distinct (map fst xs)"
proof (induction xs)
  case (Cons p xs)
  then show ?case by (cases p) auto
qed simp

lemma length_map_set:
  "length (map_set k v xs) = (if k \<in> fst ` set xs then length xs else Suc (length xs))"
proof (induction xs)
  case (Cons p xs)
  then show ?case by (cases p) auto
qed simp

lemma map_of_map_delete [simp]:
  "map_of (map_delete k xs) = (map_of xs)(k := None)"
  by (induction xs) (auto simp: map_delete_def fun_eq_iff)

lemma distinct_map_delete [simp]:
  "distinct (map fst xs) \<Longrightarrow> distinct (map fst (map_delete k xs))"
  by (simp add: map_delete_def distinct_map_filter)

lemma length_map_delete_le: "length (map_delete k xs) \<le> length xs"
  by (simp add: map_delete_def)

lemma apsnd_eq_Pair: "(apsnd f x = (a, b)) = (fst x = a \<and> f (snd x) = b)"
  by (cases x) auto

lemma map_set_not_Nil [simp]: "map_set k v xs \<noteq> []"
  by (cases xs) (auto split: if_splits)

lemma map_delete_map_set [simp]: "map_delete k (map_set k v xs) = map_delete k xs"
  by (induction xs) (auto simp: map_delete_def)

lemma map_set_new: "map_of xs k = None \<Longrightarrow> map_set k v xs = xs @ [(k, v)]"
  by (induction xs) auto

lemma map_delete_absent: "map_of xs k = None \<Longrightarrow> map_delete k xs = xs"
  by (induction xs) (auto simp: map_delete_def)

lemma map_delete_Nil [simp]: "map_delete k [] = []"
  by (simp add: map_delete_def)

subsection \<open>Strings\<close>

text \<open>
  \<open>String(n)\<close> of a number in a template literal, \<open>Array.prototype.join\<close>, and the
  newline character.
\<close>

fun nat_str :: "nat \<Rightarrow> string" where
  "nat_str n = (if n < 10 then [''0123456789'' ! n] else nat_str (n div 10) @ [''0123456789'' ! (n mod 10)])"

declare nat_str.simps [simp del]

definition js_int_str :: "int \<Rightarrow> string" where
  "js_int_str i = (if i < 0 then CHR ''-'' # nat_str (nat (- i)) else nat_str (nat i))"

fun js_join :: "string \<Rightarrow> string list \<Rightarrow> string" where
  "js_join sep [] = []"
| "js_join sep [x] = x"
| "js_join sep (x # xs) = x @ sep @ js_join sep xs"

definition js_newline :: string where
  "js_newline = [CHR 0x0A]"

subsection \<open>JavaScript strings\<close>

text \<open>
  Characters are HOL's 8-bit \<open>char\<close>: the model covers texts whose UTF-16 code units are
  below 256.  \<open>js_space\<close> is \<open>\\s\<close> (and the characters \<open>trim\<close> strips) on that range;
  \<open>js_split_runs P\<close> is \<open>split\<close> on a regular expression matching a run of \<open>P\<close>
  characters (\<open>split(/\\s+/)\<close>, \<open>split(/[.!?]+/)\<close>): a leading or trailing run gives an
  empty piece and the empty string gives one empty piece; \<open>js_lower\<close> is
  \<open>toLowerCase\<close> on Latin-1; \<open>js_includes\<close> is \<open>String.prototype.includes\<close>.
\<close>

definition js_space :: "char \<Rightarrow> bool" where
  "js_space c = (c \<in> set [CHR 0x09, CHR 0x0A, CHR 0x0B, CHR 0x0C, CHR 0x0D, CHR 0x20, CHR 0xA0])"

function (sequential) js_split_runs :: "(char \<Rightarrow> bool) \<Rightarrow> string \<Rightarrow> string list" where
  "js_split_runs P [] = [[]]"
| "js_split_runs P (c # cs) =
     (if P c then [] # js_split_runs P (dropWhile P cs)
      else (case js_split_runs P cs of w # ws \<Rightarrow> (c # w) # ws | [] \<Rightarrow> [[c]]))"
  by pat_completeness auto
termination
  by (relation "measure (\<lambda>(P, s). length s)") (auto simp: le_imp_less_Suc length_dropWhile_le)

definition js_trim :: "string \<Rightarrow> string" where
  "js_trim s = rev (dropWhile js_space (rev (dropWhile js_space s)))"

definition js_lower_char :: "char \<Rightarrow> char" where
  "js_lower_char c =
     (let n = of_char c :: nat
      in if (65 \<le> n \<and> n \<le> 90) \<or> (192 \<le> n \<and> n \<le> 222 \<and> n \<noteq> 215)
         then (case c of Char b0 b1 b2 b3 b4 b5 b6 b7 \<Rightarrow> Char b0 b1 b2 b3 b4 True b6 b7) else c)"

definition js_lower :: "string \<Rightarrow> string" where
  "js_lower s = map js_lower_char s"

definition js_includes :: "string \<Rightarrow> string \<Rightarrow> bool" where
  "js_includes s p = list_ex (\<lambda>i. take (length p) (drop i s) = p) [0..<Suc (length s)]"

lemma js_split_runs_not_Nil [simp]: "js_split_runs P s \<noteq> []"
  by (induction P s rule: js_split_runs.induct) (auto split: list.splits)

lemma js_split_runs_pieces: "w \<in> set (js_split_runs P s) \<Longrightarrow> x \<in> set w \<Longrightarrow> \<not> P x"
proof (induction P s arbitrary: w rule: js_split_runs.induct)
  case (2 P c cs)
  then show ?case by (fastforce split: if_splits list.splits)
qed simp

lemma js_includes_sublist: "js_includes s p = sublist p s"
proof
  assume "js_includes s p"
  then obtain i where "take (length p) (drop i s) = p"
    by (auto simp: js_includes_def list_ex_iff)
  then show "sublist p s"
    by (metis append_take_drop_id sublist_appendI)
next
  assume "sublist p s"
  then obtain a b where s: "s = a @ p @ b" by (auto simp: sublist_def)
  then have "take (length p) (drop (length a) s) = p" by simp
  moreover have "length a \<in> set [0..<Suc (length s)]" using s by simp
  ultimately show "js_includes s p" unfolding js_includes_def list_ex_iff by blast
qed

subsection \<open>Division of JavaScript numbers\<close>

text \<open>
  \<open>a / b\<close> on numbers: a finite quotient, or \<open>NaN\<close> for \<open>0 / 0\<close> and an infinity for a
  non-zero numerator over zero.  The operands the sources divide are counters and sums of
  durations, so rationals stand for the finite values.
\<close>

datatype js_number = JNum rat | JNaN | JInf | JNegInf

definition js_div :: "rat \<Rightarrow> rat \<Rightarrow> js_number" where
  "js_div a b = (if b \<noteq> 0 then JNum (a / b) else if a = 0 then JNaN else if 0 < a then JInf else JNegInf)"

text \<open>\<open>Math.max(...xs)\<close> of counters (\<open>-Infinity\<close> for no argument), a division of any
  number by a rational, and \<open>x > 0\<close>.\<close>

definition js_max_nat :: "nat list \<Rightarrow> js_number" where
  "js_max_nat xs = (case xs of [] \<Rightarrow> JNegInf | x # ys \<Rightarrow> JNum (of_nat (fold max ys x)))"

fun js_num_div :: "js_number \<Rightarrow> rat \<Rightarrow> js_number" where
  "js_num_div (JNum a) b = js_div a b"
| "js_num_div JNaN b = JNaN"
| "js_num_div JInf b = (if b < 0 then JNegInf else JInf)"
| "js_num_div JNegInf b = (if b < 0 then JInf else JNegInf)"

fun js_pos :: "js_number \<Rightarrow> bool" where
  "js_pos (JNum a) = (0 < a)"
| "js_pos JInf = True"
| "js_pos JNaN = False"
| "js_pos JNegInf = False"

subsection \<open>Lists\<close>

lemma length_remove1_le [simp]: "length (remove1 x xs) \<le> length xs"
  by (induction xs) auto

lemma find_Some_in_set: "find P xs = Some y \<Longrightarrow> y \<in> set xs \<and> P y"
  by (induction xs) (auto split: if_splits)

lemma find_None_iff': "(find P xs = None) = (\<forall>x \<in> set xs. \<not> P x)"
  by (induction xs) auto

lemma length_remove1_butlast_less:
  "xs \<noteq> [] \<Longrightarrow> length (remove1 x (butlast xs)) < length xs"
proof (cases xs rule: rev_cases)
  case (snoc ys y)
  have "length (remove1 x ys) \<le> length ys" by (rule length_remove1_le)
  from le_imp_less_Suc [OF this] snoc show ?thesis by simp
qed simp

lemma last_notin_butlast:
  "distinct xs \<Longrightarrow> xs \<noteq> [] \<Longrightarrow> last xs \<notin> set (butlast xs)"
  by (cases xs rule: rev_cases) auto

lemma distinct_map_remove1:
  "distinct (map f xs) \<Longrightarrow> distinct (map f (remove1 x xs))"
proof (induction xs)
  case (Cons y ys)
  show ?case
  proof (cases "y = x")
    case True
    with Cons.prems show ?thesis by simp
  next
    case False
    from Cons.prems have notin: "f y \<notin> f ` set ys" and dist: "distinct (map f ys)" by simp_all
    have "set (remove1 x ys) \<subseteq> set ys" by (rule set_remove1_subset)
    with notin have "f y \<notin> f ` set (remove1 x ys)" by blast
    with False Cons.IH [OF dist] show ?thesis by simp
  qed
qed simp

lemma key_notin_remove1:
  "distinct (map f xs) \<Longrightarrow> x \<in> set xs \<Longrightarrow> f x \<notin> f ` set (remove1 x xs)"
proof (induction xs)
  case (Cons y ys)
  show ?case
  proof (cases "y = x")
    case True
    with Cons.prems show ?thesis by simp
  next
    case False
    with Cons.prems have "x \<in> set ys" and "f y \<noteq> f x" by (auto simp: image_iff)
    with False Cons.IH Cons.prems show ?thesis by simp
  qed
qed simp

lemma length_filter_key:
  "distinct (map f xs) \<Longrightarrow> x \<in> set xs \<Longrightarrow>
     Suc (length (filter (\<lambda>y. f y \<noteq> f x) xs)) = length xs"
proof (induction xs)
  case (Cons y ys)
  show ?case
  proof (cases "y = x")
    case True
    with Cons.prems have "\<forall>z \<in> set ys. f z \<noteq> f x" by (auto simp: image_iff)
    with True show ?thesis by (simp add: filter_id_conv)
  next
    case False
    with Cons.prems have "f y \<noteq> f x" by (auto simp: image_iff)
    with False Cons show ?thesis by simp
  qed
qed simp

lemma length_remove1_mem: "x \<in> set xs \<Longrightarrow> Suc (length (remove1 x xs)) = length xs"
  by (induction xs) auto

lemma length_filter_split:
  "length (filter P xs) + length (filter (\<lambda>x. \<not> P x) xs) = length xs"
  by (induction xs) simp_all

lemma length_chunks_le: "length (chunks n xs) \<le> length xs"
proof (induction n xs rule: chunks.induct)
  case (1 n xs)
  show ?case
  proof (cases "n = 0 \<or> xs = []")
    case True
    then show ?thesis by auto
  next
    case False
    with "1.IH" have ih: "length (chunks n (drop n xs)) \<le> length xs - n" by simp
    from False have "0 < n" and "0 < length xs" by auto
    with ih have "Suc (length (chunks n (drop n xs))) \<le> length xs" by linarith
    with False show ?thesis by (simp add: chunks_step)
  qed
qed

end
