(* ===== verification/WorkerPool.thy ===== *)
theory WorkerPool
  imports Prelude
begin

text \<open>
  The worker pool of \<open>src/src/utils/workerPool.ts\<close> (class \<open>WorkerPool\<close>, lines 31--235)
  together with the part of its environment it talks to: the worker threads, the messages
  posted to them, the armed \<open>setTimeout\<close> callbacks and the promises handed back by
  \<open>executeTask\<close>.  Every handler of the class is one definition; the pool and its
  environment move by one event at a time (\<open>pool_step\<close>), and the reachable states are
  the runs of events from the constructed pool.  Worker and task identities are counters;
  the payload and result values, which the pool never inspects, are left out.
\<close>

type_synonym wid = nat
type_synonym tid = nat

subsection \<open>Data\<close>

text \<open>\<open>WorkerPoolOptions\<close>, as passed to the constructor (every field optional).\<close>

record WorkerPoolOptions =
  opt_minWorkers :: "int option"
  opt_maxWorkers :: "int option"
  opt_idleTimeout :: "int option"
  opt_taskTimeout :: "int option"

text \<open>The options after the constructor's defaulting with \<open>||\<close>.\<close>

record pool_options =
  minWorkers :: int
  maxWorkers :: int
  idleTimeout :: int
  taskTimeout :: int

text \<open>\<open>WorkerTask\<close>: its id and type; \<open>resolve\<close>/\<open>reject\<close> are the promise in \<open>settled\<close>.\<close>

record WorkerTask =
  task_id :: tid
  task_type :: string

datatype task_error =
    NoScript string
  | TaskTimeout
  | HandlerError string

datatype outcome = Resolved | Rejected task_error

text \<open>
  The pool's fields (\<open>workers\<close>, \<open>idleWorkers\<close>, \<open>taskQueue\<close>, \<open>workerScripts\<close>,
  \<open>metrics\<close>) and the environment: \<open>alive\<close> worker threads, \<open>jobs\<close> posted to a worker
  and not yet answered (a worker answers them in order), armed task \<open>timers\<close>, workers
  whose \<open>exit\<close> event is pending after \<open>terminate()\<close>, the \<open>settled\<close> promises, and
  the counters that make fresh worker and task identities.
\<close>

record pool =
  opts :: pool_options
  workers :: "wid list"
  idleWorkers :: "wid list"
  taskQueue :: "WorkerTask list"
  workerScripts :: "string \<rightharpoonup> string"
  completedTasks :: nat
  failedTasks :: nat
  alive :: "wid list"
  jobs :: "(wid \<times> tid) list"
  timers :: "(tid \<times> wid) list"
  exiting :: "wid list"
  settled :: "tid \<rightharpoonup> outcome"
  next_wid :: wid
  next_tid :: tid

text \<open>A promise settles once: later \<open>resolve\<close>/\<open>reject\<close> calls are ignored.\<close>

definition settle :: "tid \<Rightarrow> outcome \<Rightarrow> pool \<Rightarrow> pool" where
  "settle t r s = (if settled s t = None then s\<lparr>settled := (settled s)(t \<mapsto> r)\<rparr> else s)"

subsection \<open>Construction\<close>

definition normalize_options :: "WorkerPoolOptions \<Rightarrow> pool_options" where
  "normalize_options cfg =
     \<lparr>minWorkers = js_or (opt_minWorkers cfg) 2, maxWorkers = js_or (opt_maxWorkers cfg) 4,
      idleTimeout = js_or (opt_idleTimeout cfg) 60000, taskTimeout = js_or (opt_taskTimeout cfg) 30000\<rparr>"

text \<open>
  \<open>createWorker\<close>: a new thread with its listeners, pushed on \<open>idleWorkers\<close>.  The source
  never adds it to \<open>workers\<close>.
\<close>

definition createWorker :: "pool \<Rightarrow> pool" where
  "createWorker s =
     s\<lparr>alive := alive s @ [next_wid s], idleWorkers := idleWorkers s @ [next_wid s],
       next_wid := Suc (next_wid s)\<rparr>"

text \<open>The loop of \<open>initialize\<close>: \<open>for (i = 0; i < minWorkers; i++) createWorker()\<close>.\<close>

function initialize_loop :: "int \<Rightarrow> pool \<Rightarrow> pool" where
  "initialize_loop i s =
     (if i < minWorkers (opts s) then initialize_loop (i + 1) (createWorker s) else s)"
  by pat_completeness auto
termination
  by (relation "measure (\<lambda>(i, s). nat (minWorkers (opts s) - i))")
    (simp_all add: createWorker_def)

declare initialize_loop.simps [simp del]

definition empty_pool :: "pool_options \<Rightarrow> pool" where
  "empty_pool cfg =
     \<lparr>opts = cfg, workers = [], idleWorkers = [], taskQueue = [], workerScripts = Map.empty,
      completedTasks = 0, failedTasks = 0, alive = [], jobs = [], timers = [], exiting = [],
      settled = Map.empty, next_wid = 0, next_tid = 0\<rparr>"

text \<open>
  \<open>new WorkerPool(options)\<close>: the options defaulted, then \<open>initialize\<close>.  The loop of
  \<open>initialize\<close> awaits each \<open>createWorker\<close>; the model runs it to the end before
  the first event, which is what happens when the constructor's caller yields before using
  the pool.  The \<open>setInterval\<close> of \<open>initialize\<close> is the \<open>Cleanup\<close> event.
\<close>

definition pool_init :: "WorkerPoolOptions \<Rightarrow> pool" where
  "pool_init cfg = initialize_loop 0 (empty_pool (normalize_options cfg))"

subsection \<open>Operations\<close>

text \<open>\<open>registerWorkerScript(type, scriptPath)\<close>.\<close>

definition registerWorkerScript :: "string \<Rightarrow> string \<Rightarrow> pool \<Rightarrow> pool" where
  "registerWorkerScript ty p s = s\<lparr>workerScripts := (workerScripts s)(ty \<mapsto> p)\<rparr>"

text \<open>
  \<open>processNextTask\<close>: the head of the queue is read, not removed; the last idle worker is
  popped.  Without a (truthy) script path the task is rejected and the popped worker is
  neither used nor given back.  Otherwise the task is posted to the worker and its
  timeout armed.
\<close>

definition processNextTask :: "pool \<Rightarrow> pool" where
  "processNextTask s =
     (if taskQueue s = [] \<or> idleWorkers s = [] then s
      else
        let task = hd (taskQueue s); w = last (idleWorkers s);
            s1 = s\<lparr>idleWorkers := butlast (idleWorkers s)\<rparr>
        in if \<not> js_truthy_str (workerScripts s (task_type task))
           then settle (task_id task) (Rejected (NoScript (task_type task))) s1
           else s1\<lparr>jobs := jobs s1 @ [(w, task_id task)],
                   timers := timers s1 @ [(task_id task, w)]\<rparr>)"

text \<open>\<open>removeWorker\<close>: \<open>indexOf\<close> and \<open>splice\<close> drop the first occurrence.\<close>

definition removeWorker :: "wid \<Rightarrow> pool \<Rightarrow> pool" where
  "removeWorker w s =
     s\<lparr>workers := remove1 w (workers s), idleWorkers := remove1 w (idleWorkers s)\<rparr>"

definition handleWorkerError :: "wid \<Rightarrow> pool \<Rightarrow> pool" where
  "handleWorkerError w s = createWorker (removeWorker w s)"

definition handleWorkerExit :: "wid \<Rightarrow> pool \<Rightarrow> pool" where
  "handleWorkerExit w s =
     (let s1 = removeWorker w s
      in if int (length (workers s1)) < minWorkers (opts s1) then createWorker s1 else s1)"

text \<open>\<open>worker.terminate()\<close>: the thread stops; its \<open>exit\<close> event comes later.\<close>

definition terminate :: "wid \<Rightarrow> pool \<Rightarrow> pool" where
  "terminate w s =
     s\<lparr>alive := remove1 w (alive s), jobs := filter (\<lambda>j. fst j \<noteq> w) (jobs s),
       exiting := exiting s @ [w]\<rparr>"

text \<open>\<open>cleanupIdleWorkers\<close>: pop and terminate idle workers while the pool is above its minimum.\<close>

function cleanupIdleWorkers :: "pool \<Rightarrow> pool" where
  "cleanupIdleWorkers s =
     (if minWorkers (opts s) < int (length (workers s)) \<and> idleWorkers s \<noteq> []
      then
        let w = last (idleWorkers s); s1 = s\<lparr>idleWorkers := butlast (idleWorkers s)\<rparr>
        in cleanupIdleWorkers (removeWorker w (terminate w s1))
      else s)"
  by pat_completeness auto
termination
  by (relation "measure (\<lambda>s. length (idleWorkers s))")
    (simp_all add: removeWorker_def terminate_def length_remove1_butlast_less)

declare cleanupIdleWorkers.simps [simp del]

text \<open>
  \<open>executeTask(type, data)\<close>: a fresh task is queued; a worker is created when none is idle
  and \<open>workers.length < maxWorkers\<close>; then \<open>processNextTask\<close>.
\<close>

definition executeTask :: "string \<Rightarrow> pool \<Rightarrow> pool" where
  "executeTask ty s =
     (let t = \<lparr>task_id = next_tid s, task_type = ty\<rparr>;
          s1 = s\<lparr>taskQueue := taskQueue s @ [t], next_tid := Suc (next_tid s)\<rparr>;
          s2 = (if idleWorkers s1 = [] \<and> int (length (workers s1)) < maxWorkers (opts s1)
                then createWorker s1 else s1)
      in processNextTask s2)"

text \<open>
  The \<open>message\<close> listener of a worker \<open>w\<close> for \<open>{taskId, result, error}\<close>: if the task is
  still queued it is settled (a falsy \<open>error\<close>, \<open>undefined\<close> or the empty string, counts
  as success), removed from the queue, \<open>w\<close> is pushed back on \<open>idleWorkers\<close> and the next
  task is dispatched; otherwise the message is ignored and \<open>w\<close> is not given back.
\<close>

definition onMessage :: "wid \<Rightarrow> tid \<Rightarrow> string option \<Rightarrow> pool \<Rightarrow> pool" where
  "onMessage w t err s =
     (case find (\<lambda>x. task_id x = t) (taskQueue s) of
        None \<Rightarrow> s
      | Some task \<Rightarrow>
          let s1 = (if js_truthy_str err
                    then settle t (Rejected (HandlerError (the err)))
                           (s\<lparr>failedTasks := Suc (failedTasks s)\<rparr>)
                    else settle t Resolved (s\<lparr>completedTasks := Suc (completedTasks s)\<rparr>));
              s2 = s1\<lparr>taskQueue := filter (\<lambda>x. task_id x \<noteq> t) (taskQueue s1),
                      idleWorkers := idleWorkers s1 @ [w]\<rparr>
          in processNextTask s2)"

text \<open>
  The \<open>setTimeout\<close> callback armed by \<open>processNextTask\<close> for task \<open>t\<close> on worker \<open>w\<close>:
  if \<open>t\<close> is still queued it is removed, counted as failed, rejected with a timeout, and
  \<open>handleWorkerError w\<close> runs (the worker thread itself is not terminated).
\<close>

definition onTimeout :: "tid \<Rightarrow> wid \<Rightarrow> pool \<Rightarrow> pool" where
  "onTimeout t w s =
     (case find (\<lambda>x. task_id x = t) (taskQueue s) of
        None \<Rightarrow> s
      | Some task \<Rightarrow>
          handleWorkerError w
            (settle t (Rejected TaskTimeout)
              (s\<lparr>taskQueue := remove1 task (taskQueue s), failedTasks := Suc (failedTasks s)\<rparr>)))"

text \<open>
  A worker thread that throws outside a task dies: its \<open>error\<close> listener runs
  \<open>handleWorkerError\<close>, then its \<open>exit\<close> listener (non-zero code) \<open>handleWorkerExit\<close>.
\<close>

definition onCrash :: "wid \<Rightarrow> pool \<Rightarrow> pool" where
  "onCrash w s =
     handleWorkerExit w
       (handleWorkerError w
         (s\<lparr>alive := remove1 w (alive s), jobs := filter (\<lambda>j. fst j \<noteq> w) (jobs s)\<rparr>))"

text \<open>
  \<open>shutdown()\<close> after its polling loop has seen an empty queue: every worker of
  \<open>workers\<close> is terminated, then both lists are cleared.
\<close>

definition shutdown :: "pool \<Rightarrow> pool" where
  "shutdown s = (fold terminate (workers s) s)\<lparr>workers := [], idleWorkers := []\<rparr>"

subsection \<open>Events and runs\<close>

datatype pool_event =
    Register string string
  | Submit string
  | Reply wid "string option"
  | Fire tid wid
  | Crash wid
  | Exited wid
  | Cleanup
  | Shutdown

text \<open>
  One step of the pool and its environment.  An event whose precondition does not hold
  (a reply from a worker with no job, a timer that is not armed, a crash of a dead
  worker, an exit that is not pending, a shutdown while tasks are queued) changes nothing.
\<close>

fun pool_step :: "pool \<Rightarrow> pool_event \<Rightarrow> pool" where
  "pool_step s (Register ty p) = registerWorkerScript ty p s"
| "pool_step s (Submit ty) = executeTask ty s"
| "pool_step s (Reply w err) =
     (case find (\<lambda>j. fst j = w) (jobs s) of
        None \<Rightarrow> s
      | Some j \<Rightarrow> onMessage w (snd j) err (s\<lparr>jobs := remove1 j (jobs s)\<rparr>))"
| "pool_step s (Fire t w) =
     (if (t, w) \<in> set (timers s) then onTimeout t w (s\<lparr>timers := remove1 (t, w) (timers s)\<rparr>)
      else s)"
| "pool_step s (Crash w) = (if w \<in> set (alive s) then onCrash w s else s)"
| "pool_step s (Exited w) =
     (if w \<in> set (exiting s) then handleWorkerExit w (s\<lparr>exiting := remove1 w (exiting s)\<rparr>)
      else s)"
| "pool_step s Cleanup = cleanupIdleWorkers s"
| "pool_step s Shutdown = (if taskQueue s = [] then shutdown s else s)"

fun pool_run :: "pool \<Rightarrow> pool_event list \<Rightarrow> pool" where
  "pool_run s [] = s"
| "pool_run s (e # es) = pool_run (pool_step s e) es"

inductive pool_reachable :: "WorkerPoolOptions \<Rightarrow> pool \<Rightarrow> bool" for cfg where
  init: "pool_reachable cfg (pool_init cfg)"
| step: "pool_reachable cfg s \<Longrightarrow> pool_reachable cfg (pool_step s e)"

text \<open>Workers currently executing a task, and the workers a task has been posted to.\<close>

definition busy :: "pool \<Rightarrow> wid set" where
  "busy s = fst ` set (jobs s)"

definition running_on :: "pool \<Rightarrow> tid \<Rightarrow> wid list" where
  "running_on s t = map fst (filter (\<lambda>j. snd j = t) (jobs s))"

text \<open>
  \<open>getMetrics()\<close> without its two timing fields (the model keeps no clock):
  \<open>activeWorkers = workers.length - idleWorkers.length\<close>.
\<close>

record WorkerMetrics =
  wm_activeWorkers :: int
  wm_idleWorkers :: int
  wm_completedTasks :: nat
  wm_failedTasks :: nat

definition getMetrics :: "pool \<Rightarrow> WorkerMetrics" where
  "getMetrics s =
     \<lparr>wm_activeWorkers = int (length (workers s)) - int (length (idleWorkers s)),
      wm_idleWorkers = int (length (idleWorkers s)), wm_completedTasks = completedTasks s,
      wm_failedTasks = failedTasks s\<rparr>"

subsection \<open>Well-formedness of the pool and its environment\<close>

text \<open>
  What every reachable state satisfies: \<open>workers\<close> is empty (no operation of the source
  ever adds to it); worker identities are fresh and distinct; idle workers are alive and
  have no job; a worker has at most one job; queued task identities are fresh and distinct;
  and every task ever submitted is either still queued or counted as completed or failed.
\<close>

definition pool_wf :: "pool \<Rightarrow> bool" where
  "pool_wf s \<longleftrightarrow>
     workers s = [] \<and>
     distinct (alive s) \<and> (\<forall>w \<in> set (alive s). w < next_wid s) \<and>
     distinct (idleWorkers s) \<and> set (idleWorkers s) \<subseteq> set (alive s) \<and>
     distinct (map fst (jobs s)) \<and> busy s \<subseteq> set (alive s) \<and>
     set (idleWorkers s) \<inter> busy s = {} \<and>
     distinct (map task_id (taskQueue s)) \<and> (\<forall>x \<in> set (taskQueue s). task_id x < next_tid s) \<and>
     completedTasks s + failedTasks s + length (taskQueue s) = next_tid s"

text \<open>The options object \<open>{}\<close>: every field left to its default.\<close>

definition default_options :: WorkerPoolOptions where
  "default_options =
     \<lparr>opt_minWorkers = None, opt_maxWorkers = None, opt_idleTimeout = None,
      opt_taskTimeout = None\<rparr>"

subsection \<open>Preservation of well-formedness\<close>

lemma opts_createWorker [simp]: "opts (createWorker s) = opts s"
  by (simp add: createWorker_def)

lemma idleWorkers_removeWorker [simp]:
  "idleWorkers (removeWorker w s) = remove1 w (idleWorkers s)"
  by (simp add: removeWorker_def)

lemma idleWorkers_terminate [simp]: "idleWorkers (terminate w s) = idleWorkers s"
  by (simp add: terminate_def)

lemmas pool_defs = settle_def createWorker_def removeWorker_def terminate_def
  registerWorkerScript_def handleWorkerError_def handleWorkerExit_def

lemma wf_untracked [simp]:
  "pool_wf (s\<lparr>timers := ts\<rparr>) = pool_wf s"
  "pool_wf (s\<lparr>exiting := xs\<rparr>) = pool_wf s"
  by (simp_all add: pool_wf_def busy_def)

lemma wf_settle [simp]: "pool_wf (settle t r s) = pool_wf s"
  by (simp add: pool_wf_def settle_def busy_def)

lemma wf_registerWorkerScript: "pool_wf s \<Longrightarrow> pool_wf (registerWorkerScript ty p s)"
  by (simp add: pool_wf_def registerWorkerScript_def busy_def)

lemma wf_createWorker: "pool_wf s \<Longrightarrow> pool_wf (createWorker s)"
  by (fastforce simp: pool_wf_def createWorker_def busy_def)

lemma wf_removeWorker: "pool_wf s \<Longrightarrow> pool_wf (removeWorker w s)"
  by (auto simp: pool_wf_def removeWorker_def busy_def dest: in_set_remove1 [THEN iffD1])

lemma wf_handleWorkerError: "pool_wf s \<Longrightarrow> pool_wf (handleWorkerError w s)"
  by (simp add: handleWorkerError_def wf_createWorker wf_removeWorker)

lemma wf_handleWorkerExit: "pool_wf s \<Longrightarrow> pool_wf (handleWorkerExit w s)"
  by (simp add: handleWorkerExit_def Let_def wf_createWorker wf_removeWorker)

lemma wf_processNextTask:
  assumes wf: "pool_wf s"
  shows "pool_wf (processNextTask s)"
proof (cases "taskQueue s = [] \<or> idleWorkers s = []")
  case True
  with wf show ?thesis by (simp add: processNextTask_def)
next
  case False
  let ?w = "last (idleWorkers s)"
  from False wf have w_notin: "?w \<notin> set (butlast (idleWorkers s))"
    by (simp add: pool_wf_def last_notin_butlast)
  from False have w_idle: "?w \<in> set (idleWorkers s)" by simp
  with wf have w_alive: "?w \<in> set (alive s)" and w_free: "?w \<notin> busy s"
    by (auto simp: pool_wf_def)
  have sub: "set (butlast (idleWorkers s)) \<subseteq> set (idleWorkers s)"
    by (rule in_set_butlastD [THEN subsetI])
  from wf sub have base: "pool_wf (s\<lparr>idleWorkers := butlast (idleWorkers s)\<rparr>)"
    by (auto simp: pool_wf_def busy_def distinct_butlast)
  show ?thesis
  proof (cases "js_truthy_str (workerScripts s (task_type (hd (taskQueue s))))")
    case False
    with \<open>\<not> (taskQueue s = [] \<or> idleWorkers s = [])\<close> base show ?thesis
      by (simp add: processNextTask_def Let_def)
  next
    case True
    from wf sub w_notin w_alive w_free
    have "pool_wf (s\<lparr>idleWorkers := butlast (idleWorkers s),
        jobs := jobs s @ [(?w, task_id (hd (taskQueue s)))],
        timers := timers s @ [(task_id (hd (taskQueue s)), ?w)]\<rparr>)"
      by (auto simp: pool_wf_def busy_def distinct_butlast image_iff)
    with True \<open>\<not> (taskQueue s = [] \<or> idleWorkers s = [])\<close> show ?thesis
      by (simp add: processNextTask_def Let_def)
  qed
qed

lemma wf_executeTask: "pool_wf s \<Longrightarrow> pool_wf (executeTask ty s)"
proof -
  assume wf: "pool_wf s"
  let ?s1 = "s\<lparr>taskQueue := taskQueue s @ [\<lparr>task_id = next_tid s, task_type = ty\<rparr>],
                next_tid := Suc (next_tid s)\<rparr>"
  from wf have "pool_wf ?s1"
    by (fastforce simp: pool_wf_def busy_def)
  then show ?thesis
    by (simp add: executeTask_def Let_def wf_createWorker wf_processNextTask)
qed

text \<open>
  The queue part of \<open>pool_wf\<close> when a queued task leaves the queue and is counted: the
  step the message listener (by \<open>filter\<close>) and the timeout callback (by \<open>splice\<close>)
  share.
\<close>

lemma wf_dequeue:
  assumes wf: "pool_wf s"
    and cnt: "completedTasks s' + failedTasks s' = Suc (completedTasks s + failedTasks s)"
    and q: "Suc (length (taskQueue s')) = length (taskQueue s)"
      "set (taskQueue s') \<subseteq> set (taskQueue s)" "distinct (map task_id (taskQueue s'))"
    and same: "workers s' = workers s" "alive s' = alive s" "next_wid s' = next_wid s"
      "idleWorkers s' = idleWorkers s" "jobs s' = jobs s" "next_tid s' = next_tid s"
  shows "pool_wf s'"
  using wf cnt q same by (auto simp: pool_wf_def busy_def)

lemma dequeue_filter:
  assumes "pool_wf s" and "task \<in> set (taskQueue s)"
  shows "Suc (length (filter (\<lambda>x. task_id x \<noteq> task_id task) (taskQueue s))) = length (taskQueue s)"
    and "distinct (map task_id (filter (\<lambda>x. task_id x \<noteq> task_id task) (taskQueue s)))"
  using assms length_filter_key [of task_id "taskQueue s" task]
  by (simp_all add: pool_wf_def distinct_map_filter)

lemma dequeue_remove1:
  assumes "pool_wf s" and "task \<in> set (taskQueue s)"
  shows "Suc (length (remove1 task (taskQueue s))) = length (taskQueue s)"
    and "distinct (map task_id (remove1 task (taskQueue s)))"
  using assms by (simp_all add: pool_wf_def length_remove1_mem distinct_map_remove1)

lemma wf_onMessage:
  assumes wf: "pool_wf s" and w: "w \<in> set (alive s)" "w \<notin> set (idleWorkers s)" "w \<notin> busy s"
  shows "pool_wf (onMessage w t err s)"
proof (cases "find (\<lambda>x. task_id x = t) (taskQueue s)")
  case None
  with wf show ?thesis by (simp add: onMessage_def)
next
  case (Some task)
  from find_Some_in_set [OF Some] have task: "task \<in> set (taskQueue s)" and tid: "task_id task = t"
    by simp_all
  define s1 where "s1 = (if js_truthy_str err
                    then settle t (Rejected (HandlerError (the err)))
                           (s\<lparr>failedTasks := Suc (failedTasks s)\<rparr>)
                    else settle t Resolved (s\<lparr>completedTasks := Suc (completedTasks s)\<rparr>))"
  define s2 where "s2 = s1\<lparr>taskQueue := filter (\<lambda>x. task_id x \<noteq> t) (taskQueue s1)\<rparr>"
  have "pool_wf s2"
    by (rule wf_dequeue [OF wf])
      (use dequeue_filter [OF wf task] in \<open>auto simp: s1_def s2_def settle_def tid\<close>)
  with w have "pool_wf (s2\<lparr>idleWorkers := idleWorkers s2 @ [w]\<rparr>)"
    by (auto simp: pool_wf_def busy_def s2_def s1_def settle_def)
  then have "pool_wf (processNextTask (s2\<lparr>idleWorkers := idleWorkers s2 @ [w]\<rparr>))"
    by (rule wf_processNextTask)
  with Some show ?thesis
    by (simp add: onMessage_def s1_def s2_def Let_def)
qed

lemma wf_onTimeout:
  assumes wf: "pool_wf s"
  shows "pool_wf (onTimeout t w s)"
proof (cases "find (\<lambda>x. task_id x = t) (taskQueue s)")
  case None
  with wf show ?thesis by (simp add: onTimeout_def)
next
  case (Some task)
  from find_Some_in_set [OF Some] have task: "task \<in> set (taskQueue s)" by simp
  have "pool_wf (s\<lparr>taskQueue := remove1 task (taskQueue s), failedTasks := Suc (failedTasks s)\<rparr>)"
    by (rule wf_dequeue [OF wf])
      (use dequeue_remove1 [OF wf task] set_remove1_subset [of task "taskQueue s"] in auto)
  then show ?thesis
    using Some by (simp add: onTimeout_def wf_handleWorkerError)
qed

lemma wf_onCrash:
  assumes wf: "pool_wf s"
  shows "pool_wf (onCrash w s)"
proof -
  let ?s1 = "s\<lparr>alive := remove1 w (alive s), jobs := filter (\<lambda>j. fst j \<noteq> w) (jobs s)\<rparr>"
  have "pool_wf (removeWorker w ?s1)"
    using wf by (auto simp: pool_wf_def removeWorker_def busy_def distinct_map_filter)
  then have "pool_wf (createWorker (removeWorker w ?s1))"
    by (rule wf_createWorker)
  then show ?thesis
    by (simp add: onCrash_def handleWorkerError_def wf_handleWorkerExit)
qed

lemma wf_terminate_popped:
  assumes wf: "pool_wf s" and ne: "idleWorkers s \<noteq> []"
  shows "pool_wf (terminate (last (idleWorkers s)) (s\<lparr>idleWorkers := butlast (idleWorkers s)\<rparr>))"
proof -
  let ?w = "last (idleWorkers s)"
  from wf ne have notin: "?w \<notin> set (butlast (idleWorkers s))"
    by (simp add: pool_wf_def last_notin_butlast)
  have sub: "set (butlast (idleWorkers s)) \<subseteq> set (idleWorkers s)"
    by (rule in_set_butlastD [THEN subsetI])
  from wf have alive': "set (remove1 ?w (alive s)) = set (alive s) - {?w}"
    by (simp add: pool_wf_def)
  have jobs': "fst ` set (filter (\<lambda>j. fst j \<noteq> ?w) (jobs s)) \<subseteq> busy s - {?w}"
    by (auto simp: busy_def)
  from wf sub notin alive' jobs' show ?thesis
    unfolding pool_wf_def terminate_def busy_def
    by (simp add: distinct_butlast distinct_map_filter) blast
qed

lemma wf_cleanupIdleWorkers: "pool_wf s \<Longrightarrow> pool_wf (cleanupIdleWorkers s)"
proof (induction s rule: cleanupIdleWorkers.induct)
  case (1 s)
  show ?case
  proof (cases "minWorkers (opts s) < int (length (workers s)) \<and> idleWorkers s \<noteq> []")
    case True
    let ?s' = "removeWorker (last (idleWorkers s))
        (terminate (last (idleWorkers s)) (s\<lparr>idleWorkers := butlast (idleWorkers s)\<rparr>))"
    have eq: "cleanupIdleWorkers s = cleanupIdleWorkers ?s'"
      by (subst cleanupIdleWorkers.simps) (simp only: if_P [OF True] Let_def)
    from True "1.prems" have "pool_wf ?s'"
      by (intro wf_removeWorker wf_terminate_popped) simp_all
    from "1.IH" [OF True refl refl this] eq show ?thesis by simp
  next
    case False
    then have "cleanupIdleWorkers s = s"
      by (simp only: cleanupIdleWorkers.simps [of s] if_not_P [OF False] if_False)
    with "1.prems" show ?thesis by simp
  qed
qed

lemma wf_shutdown:
  assumes wf: "pool_wf s"
  shows "pool_wf (shutdown s)"
proof -
  from wf have "shutdown s = s\<lparr>workers := [], idleWorkers := []\<rparr>"
    by (simp add: shutdown_def pool_wf_def)
  with wf show ?thesis by (simp add: pool_wf_def busy_def)
qed

lemma wf_reply:
  assumes wf: "pool_wf s" and j: "j \<in> set (jobs s)"
  shows "pool_wf (onMessage (fst j) (snd j) err (s\<lparr>jobs := remove1 j (jobs s)\<rparr>))"
proof -
  let ?w = "fst j" and ?s1 = "s\<lparr>jobs := remove1 j (jobs s)\<rparr>"
  from wf have dj: "distinct (map fst (jobs s))" by (simp add: pool_wf_def)
  from j have "?w \<in> busy s" by (simp add: busy_def)
  with wf have w_alive: "?w \<in> set (alive ?s1)" and w_idle: "?w \<notin> set (idleWorkers ?s1)"
    by (auto simp: pool_wf_def)
  from key_notin_remove1 [OF dj j] have w_free: "?w \<notin> busy ?s1"
    by (simp add: busy_def)
  have img: "fst ` set (remove1 j (jobs s)) \<subseteq> busy s"
    unfolding busy_def by (intro image_mono set_remove1_subset)
  with wf have "fst ` set (remove1 j (jobs s)) \<subseteq> set (alive s)"
    and "set (idleWorkers s) \<inter> fst ` set (remove1 j (jobs s)) = {}"
    by (auto simp: pool_wf_def)
  with wf dj have "pool_wf ?s1"
    unfolding pool_wf_def busy_def by (simp add: distinct_map_remove1)
  from wf_onMessage [OF this w_alive w_idle w_free] show ?thesis .
qed

lemma wf_pool_step: "pool_wf s \<Longrightarrow> pool_wf (pool_step s e)"
proof (induction e)
  case (Reply w err)
  show ?case
  proof (cases "find (\<lambda>j. fst j = w) (jobs s)")
    case (Some j)
    from find_Some_in_set [OF Some] have "j \<in> set (jobs s)" and "fst j = w" by simp_all
    with wf_reply [OF Reply.prems, of j err] Some show ?thesis by simp
  qed (use Reply.prems in simp)
qed (simp_all add: wf_registerWorkerScript wf_executeTask wf_onTimeout wf_onCrash
    wf_handleWorkerExit wf_cleanupIdleWorkers wf_shutdown)

lemma wf_empty_pool: "pool_wf (empty_pool cfg)"
  by (simp add: pool_wf_def empty_pool_def busy_def)

lemma wf_initialize_loop: "pool_wf s \<Longrightarrow> pool_wf (initialize_loop i s)"
proof (induction i s rule: initialize_loop.induct)
  case (1 i s)
  then show ?case
    by (cases "i < minWorkers (opts s)")
      (simp_all add: initialize_loop.simps [of i s] wf_createWorker)
qed

lemma wf_pool_init: "pool_wf (pool_init cfg)"
  by (simp add: pool_init_def wf_initialize_loop wf_empty_pool)

lemma reachable_pool_wf: "pool_reachable cfg s \<Longrightarrow> pool_wf s"
  by (induction rule: pool_reachable.induct) (simp_all add: wf_pool_init wf_pool_step)

lemma reachable_pool_run: "pool_reachable cfg s \<Longrightarrow> pool_reachable cfg (pool_run s es)"
  by (induction es arbitrary: s) (simp_all add: pool_reachable.step)

lemmas pool_eval = default_options_def pool_init_def normalize_options_def empty_pool_def
  initialize_loop.simps createWorker_def registerWorkerScript_def executeTask_def
  processNextTask_def settle_def onMessage_def onTimeout_def removeWorker_def
  handleWorkerError_def handleWorkerExit_def busy_def running_on_def

subsection \<open>Properties of the pool\<close>

text \<open>\<open>executeTask\<close> on a well-formed pool that has an idle worker or may create one: one job
  for the head of the queue is posted, and the new task is appended to the queue.\<close>

lemma executeTask_dispatch:
  assumes "pool_wf s" "idleWorkers s \<noteq> [] \<or> 0 < maxWorkers (opts s)"
    and "js_truthy_str (workerScripts s (task_type (hd (taskQueue s @ [\<lparr>task_id = next_tid s, task_type = ty\<rparr>]))))"
  shows "jobs (executeTask ty s) =
           jobs s @ [(if idleWorkers s = [] then next_wid s else last (idleWorkers s),
                      task_id (hd (taskQueue s @ [\<lparr>task_id = next_tid s, task_type = ty\<rparr>])))] \<and>
         taskQueue (executeTask ty s) = taskQueue s @ [\<lparr>task_id = next_tid s, task_type = ty\<rparr>]"
  using assms by (auto simp: executeTask_def processNextTask_def createWorker_def Let_def pool_wf_def)

lemma fresh_not_busy: "pool_wf s \<Longrightarrow> next_wid s \<notin> busy s"
  unfolding pool_wf_def by auto

text \<open>
  C1: the pool ignores \<open>maxWorkers\<close>.  In every reachable state with no idle worker (and a
  positive \<open>maxWorkers\<close>), a submission whose queued tasks all have a script makes one more
  worker busy, however many are busy already: \<open>executeTask\<close> compares \<open>workers.length\<close>,
  which is never incremented, with \<open>maxWorkers\<close>, so it creates a worker every time none is
  idle.
\<close>

theorem pool_exceeds_maxWorkers:
  assumes "pool_reachable cfg s" "0 < maxWorkers (opts s)" "idleWorkers s = []"
    and "list_all (\<lambda>x. js_truthy_str (workerScripts s (task_type x))) (taskQueue s)"
    and "js_truthy_str (workerScripts s ty)"
  shows "card (busy (executeTask ty s)) = Suc (card (busy s))"
proof -
  have wf: "pool_wf s" using assms(1) by (rule reachable_pool_wf)
  have "js_truthy_str (workerScripts s (task_type (hd (taskQueue s @ [\<lparr>task_id = next_tid s, task_type = ty\<rparr>]))))"
    using assms(4,5) by (cases "taskQueue s") auto
  then have "busy (executeTask ty s) = insert (next_wid s) (busy s)"
    using executeTask_dispatch[OF wf] assms(2,3) by (simp add: busy_def)
  moreover have "finite (busy s)" by (simp add: busy_def)
  ultimately show ?thesis using fresh_not_busy[OF wf] by simp
qed

theorem pool_exceeds_maxWorkers_witness:
  "let s = pool_run (pool_init default_options)
             [Register ''a'' ''a.js'', Submit ''a'', Submit ''a'', Submit ''a'', Submit ''a'']
   in card (busy (executeTask ''a'' s)) = 5 \<and> maxWorkers (opts s) = 4"
proof -
  define s where "s = pool_run (pool_init default_options)
             [Register ''a'' ''a.js'', Submit ''a'', Submit ''a'', Submit ''a'', Submit ''a'']"
  have r: "pool_reachable default_options s"
    unfolding s_def by (rule reachable_pool_run[OF pool_reachable.init])
  have v: "0 < maxWorkers (opts s)" "idleWorkers s = []"
      "list_all (\<lambda>x. js_truthy_str (workerScripts s (task_type x))) (taskQueue s)"
      "js_truthy_str (workerScripts s ''a'')" "card (busy s) = 4" "maxWorkers (opts s) = 4"
    unfolding s_def by (simp_all add: pool_eval)
  show ?thesis unfolding Let_def s_def [symmetric] using pool_exceeds_maxWorkers[OF r v(1-4)] v(5,6) by simp
qed

text \<open>
  C2: a task is dispatched to several workers at once.  In every reachable state whose queue
  starts with task \<open>x\<close> (with a script), a submission that finds or creates a worker posts
  \<open>x\<close> again, to a worker not yet running it, and leaves \<open>x\<close> at the head of the queue with
  the new task queued behind it: \<open>processNextTask\<close> reads the head without removing it.
\<close>

theorem pool_task_dispatched_to_many:
  assumes "pool_reachable cfg s" "taskQueue s = x # xs" "js_truthy_str (workerScripts s (task_type x))"
    and "idleWorkers s \<noteq> [] \<or> 0 < maxWorkers (opts s)"
  shows "\<exists>w. w \<notin> set (running_on s (task_id x)) \<and>
             running_on (executeTask ty s) (task_id x) = running_on s (task_id x) @ [w] \<and>
             taskQueue (executeTask ty s) = taskQueue s @ [\<lparr>task_id = next_tid s, task_type = ty\<rparr>]"
proof -
  have wf: "pool_wf s" using assms(1) by (rule reachable_pool_wf)
  let ?w = "if idleWorkers s = [] then next_wid s else last (idleWorkers s)"
  have e: "jobs (executeTask ty s) = jobs s @ [(?w, task_id x)]"
       "taskQueue (executeTask ty s) = taskQueue s @ [\<lparr>task_id = next_tid s, task_type = ty\<rparr>]"
    using executeTask_dispatch[OF wf assms(4)] assms(2,3) by simp_all
  have "set (running_on s (task_id x)) \<subseteq> busy s" by (auto simp: running_on_def busy_def)
  moreover have "?w \<notin> busy s"
  proof (cases "idleWorkers s = []")
    case True
    then show ?thesis using fresh_not_busy[OF wf] by simp
  next
    case False
    then have "last (idleWorkers s) \<in> set (idleWorkers s)" by (rule last_in_set)
    moreover have "set (idleWorkers s) \<inter> busy s = {}" using wf by (simp add: pool_wf_def)
    ultimately have "last (idleWorkers s) \<notin> busy s" by blast
    with False show ?thesis by simp
  qed
  ultimately have "?w \<notin> set (running_on s (task_id x))" by blast
  moreover have "running_on (executeTask ty s) (task_id x) = running_on s (task_id x) @ [?w]"
    using e(1) by (simp add: running_on_def)
  ultimately show ?thesis using e(2) by blast
qed

theorem pool_task_dispatched_to_many_witness:
  "let s = pool_run (pool_init default_options) [Register ''a'' ''a.js'', Submit ''a'']
   in running_on (executeTask ''a'' s) 0 = [1, 0] \<and> length (taskQueue (executeTask ''a'' s)) = 2"
proof -
  define s where "s = pool_run (pool_init default_options) [Register ''a'' ''a.js'', Submit ''a'']"
  have r: "pool_reachable default_options s"
    unfolding s_def by (rule reachable_pool_run[OF pool_reachable.init])
  have q: "taskQueue s = [\<lparr>task_id = 0, task_type = ''a''\<rparr>]" "js_truthy_str (workerScripts s ''a'')"
      "idleWorkers s \<noteq> [] \<or> 0 < maxWorkers (opts s)" "running_on s 0 = [1]" "idleWorkers s = [0]"
    unfolding s_def by (simp_all add: pool_eval)
  obtain w where "w \<notin> set (running_on s 0)" "running_on (executeTask ''a'' s) 0 = running_on s 0 @ [w]"
      "taskQueue (executeTask ''a'' s) = taskQueue s @ [\<lparr>task_id = next_tid s, task_type = ''a''\<rparr>]"
    using pool_task_dispatched_to_many[OF r q(1)] q(2,3) by auto
  moreover have "w = 0"
  proof -
    have "running_on (executeTask ''a'' s) 0 = [1, 0]" unfolding s_def by (simp add: pool_eval)
    with calculation(2) q(4) show ?thesis by simp
  qed
  ultimately show ?thesis unfolding Let_def s_def [symmetric] using q(1,4) by simp
qed

text \<open>
  C3: in every reachable state of the pool the \<open>workers\<close> list is empty: no handler of
  the class ever adds a worker to it.  Every check the source makes against
  \<open>workers.length\<close> (the maximum in \<open>executeTask\<close>, the minimum in
  \<open>handleWorkerExit\<close> and \<open>cleanupIdleWorkers\<close>, the workers \<open>shutdown\<close> terminates)
  therefore sees zero.
\<close>

theorem pool_workers_never_populated:
  "pool_reachable cfg s \<Longrightarrow> workers s = []"
  by (drule reachable_pool_wf) (simp add: pool_wf_def)

theorem pool_workers_never_populated_witness:
  "pool_reachable default_options (pool_init default_options) \<and> workers (pool_init default_options) = []"
  using pool_workers_never_populated [OF pool_reachable.init [of default_options]]
  by (simp add: pool_reachable.init)

text \<open>
  C4: the idle list never holds a worker that is executing a task, in any reachable state.
\<close>

theorem pool_idle_never_busy:
  "pool_reachable cfg s \<Longrightarrow> set (idleWorkers s) \<inter> busy s = {}"
  by (drule reachable_pool_wf) (simp add: pool_wf_def)

theorem pool_idle_never_busy_witness:
  "pool_reachable default_options (pool_init default_options) \<and>
   set (idleWorkers (pool_init default_options)) \<inter> busy (pool_init default_options) = {}"
  using pool_idle_never_busy [OF pool_reachable.init [of default_options]]
  by (simp add: pool_reachable.init)

text \<open>
  C5: no task is lost or counted twice by the pool's metrics: in every reachable state the
  completed and failed counters plus the tasks still queued add up to the number of tasks
  ever submitted.
\<close>

theorem pool_task_accounting:
  "pool_reachable cfg s \<Longrightarrow> completedTasks s + failedTasks s + length (taskQueue s) = next_tid s"
  by (drule reachable_pool_wf) (simp add: pool_wf_def)

theorem pool_task_accounting_witness:
  "pool_reachable default_options (pool_init default_options) \<and>
   completedTasks (pool_init default_options) + failedTasks (pool_init default_options)
     + length (taskQueue (pool_init default_options)) = next_tid (pool_init default_options)"
  using pool_task_accounting [OF pool_reachable.init [of default_options]]
  by (simp add: pool_reachable.init)

end
