(* ===== verification/RetryBatch.thy ===== *)
theory RetryBatch
  imports Prelude "HOL-Library.Multiset"
begin

text \<open>
  The retrying batch processor of \<open>src/src/lib/youtube/batchProcessor.ts\<close> (class
  \<open>BatchProcessor\<close>): \<open>process\<close> records a metrics entry under the run's id, splits the
  items with \<open>createBatches\<close>, runs windows of \<open>maxConcurrent\<close> batches one after the
  other, and inside a window runs every item through \<open>processWithRetry\<close>.  The per-item
  function is an oracle \<open>ok x k\<close>: whether attempt \<open>k\<close> (counted from 0) on item \<open>x\<close>
  succeeds.  The two loops of the source that can run forever (\<open>createBatches\<close> with
  \<open>batchSize \<le> 0\<close>, the window loop with \<open>maxConcurrent \<le> 0\<close>) take fuel: \<open>None\<close> is a
  run that never settles.  The items of a window run concurrently in the source; their
  effects on the metrics are counter increments, and the model runs them in list order,
  which a theorem below shows is no loss.
\<close>

subsection \<open>Data\<close>

record BatchProcessorOptions =
  opt_batchSize :: "int option"
  opt_maxRetries :: "int option"
  opt_retryDelay :: "int option"
  opt_maxConcurrent :: "int option"

record ProcessingMetrics =
  totalItems :: nat
  processedItems :: nat
  failedItems :: nat
  retries :: nat
  startTime :: int
  endTime :: "int option"

record BatchProcessor =
  batchSize :: int
  maxRetries :: int
  retryDelay :: int
  maxConcurrent :: int
  metrics :: "string \<rightharpoonup> ProcessingMetrics"

text \<open>\<open>new BatchProcessor(options)\<close>: every option defaulted with \<open>??\<close>.\<close>

definition newBatchProcessor :: "BatchProcessorOptions \<Rightarrow> BatchProcessor" where
  "newBatchProcessor cfg =
     \<lparr>batchSize = js_nullish (opt_batchSize cfg) 10, maxRetries = js_nullish (opt_maxRetries cfg) 3,
      retryDelay = js_nullish (opt_retryDelay cfg) 1000,
      maxConcurrent = js_nullish (opt_maxConcurrent cfg) 5, metrics = Map.empty\<rparr>"

text \<open>\<open>const metrics = this.metrics.get(batchId); if (metrics) { ... }\<close>\<close>

definition update_metrics ::
  "string \<Rightarrow> (ProcessingMetrics \<Rightarrow> ProcessingMetrics) \<Rightarrow> BatchProcessor \<Rightarrow> BatchProcessor" where
  "update_metrics b f bp =
     (case metrics bp b of None \<Rightarrow> bp | Some m \<Rightarrow> bp\<lparr>metrics := (metrics bp)(b \<mapsto> f m)\<rparr>)"

subsection \<open>createBatches\<close>

text \<open>\<open>for (i = 0; i < items.length; i += batchSize) batches.push(items.slice(i, i + batchSize))\<close>\<close>

definition createBatches :: "nat \<Rightarrow> BatchProcessor \<Rightarrow> 'a list \<Rightarrow> 'a list list option" where
  "createBatches fuel bp items = slice_loop fuel (batchSize bp) items 0"

subsection \<open>processWithRetry\<close>

text \<open>
  One item: on success \<open>processedItems++\<close>; on failure with \<open>retryCount < maxRetries\<close>,
  \<open>retries++\<close>, a wait of \<open>retryDelay\<close> and a recursive call with \<open>retryCount + 1\<close>;
  otherwise \<open>failedItems++\<close> and the error is rethrown.  The result is the processor
  after the item, whether the item's promise resolved, and the delays waited.
\<close>

function processWithRetry ::
  "BatchProcessor \<Rightarrow> ('a \<Rightarrow> nat \<Rightarrow> bool) \<Rightarrow> 'a \<Rightarrow> string \<Rightarrow> nat \<Rightarrow> BatchProcessor \<times> bool \<times> int list"
where
  "processWithRetry bp ok x b k =
     (if ok x k
      then (update_metrics b (\<lambda>m. m\<lparr>processedItems := Suc (processedItems m)\<rparr>) bp, True, [])
      else if int k < maxRetries bp
      then (case processWithRetry (update_metrics b (\<lambda>m. m\<lparr>retries := Suc (retries m)\<rparr>) bp) ok x b (Suc k) of
              (bp', r, ds) \<Rightarrow> (bp', r, retryDelay bp # ds))
      else (update_metrics b (\<lambda>m. m\<lparr>failedItems := Suc (failedItems m)\<rparr>) bp, False, []))"
  by pat_completeness auto
termination
  by (relation "measure (\<lambda>(bp, ok, x, b, k). nat (maxRetries bp - int k))")
    (auto simp: update_metrics_def split: option.split)

declare processWithRetry.simps [simp del]

text \<open>
  \<open>Promise.all(items.map(processWithRetry))\<close>: every item runs to its end; the joint
  promise resolves only if every item's promise did.  \<open>processBatch\<close> of the source is
  this on one batch, and a window of \<open>process\<close> is this on its batches' items.
\<close>

fun processAll ::
  "BatchProcessor \<Rightarrow> ('a \<Rightarrow> nat \<Rightarrow> bool) \<Rightarrow> 'a list \<Rightarrow> string \<Rightarrow> BatchProcessor \<times> bool"
where
  "processAll bp ok [] b = (bp, True)"
| "processAll bp ok (x # xs) b =
     (case processWithRetry bp ok x b 0 of
        (bp1, r, ds) \<Rightarrow> (case processAll bp1 ok xs b of (bp2, rs) \<Rightarrow> (bp2, r \<and> rs)))"

definition processBatch ::
  "BatchProcessor \<Rightarrow> ('a \<Rightarrow> nat \<Rightarrow> bool) \<Rightarrow> 'a list \<Rightarrow> string \<Rightarrow> BatchProcessor \<times> bool" where
  "processBatch bp ok batch b = processAll bp ok batch b"

subsection \<open>process\<close>

text \<open>
  The window loop: \<open>for (i = 0; i < batches.length; i += maxConcurrent)\<close> awaits
  \<open>Promise.all\<close> of the window's batches; a rejection leaves the loop (and \<open>process\<close>).
\<close>

fun process_windows ::
  "nat \<Rightarrow> BatchProcessor \<Rightarrow> ('a \<Rightarrow> nat \<Rightarrow> bool) \<Rightarrow> 'a list list \<Rightarrow> string \<Rightarrow> int \<Rightarrow>
     (BatchProcessor \<times> bool) option"
where
  "process_windows 0 bp ok batches b i = None"
| "process_windows (Suc fuel) bp ok batches b i =
     (if i < int (length batches)
      then (case processAll bp ok (concat (js_slice batches i (i + maxConcurrent bp))) b of
              (bp1, r) \<Rightarrow> if r then process_windows fuel bp1 ok batches b (i + maxConcurrent bp)
                          else Some (bp1, False))
      else Some (bp, True))"

definition new_metrics :: "nat \<Rightarrow> int \<Rightarrow> ProcessingMetrics" where
  "new_metrics n t =
     \<lparr>totalItems = n, processedItems = 0, failedItems = 0, retries = 0, startTime = t,
      endTime = None\<rparr>"

text \<open>
  \<open>process(items, processor, batchId)\<close> started at time \<open>t0\<close> and finishing at \<open>t1\<close>:
  the metrics entry is (re)set, the batches are made, the windows run, and the
  \<open>finally\<close> block stamps \<open>endTime\<close> whether the run resolved or rejected.
\<close>

definition process ::
  "nat \<Rightarrow> BatchProcessor \<Rightarrow> ('a \<Rightarrow> nat \<Rightarrow> bool) \<Rightarrow> 'a list \<Rightarrow> string \<Rightarrow> int \<Rightarrow> int \<Rightarrow>
     (BatchProcessor \<times> bool) option"
where
  "process fuel bp ok items b t0 t1 =
     (let bp0 = bp\<lparr>metrics := (metrics bp)(b \<mapsto> new_metrics (length items) t0)\<rparr>
      in case createBatches fuel bp0 items of
           None \<Rightarrow> None
         | Some batches \<Rightarrow>
             (case process_windows fuel bp0 ok batches b 0 of
                None \<Rightarrow> None
              | Some (bp1, r) \<Rightarrow> Some (update_metrics b (\<lambda>m. m\<lparr>endTime := Some t1\<rparr>) bp1, r)))"

definition getMetrics_batch :: "BatchProcessor \<Rightarrow> string \<Rightarrow> ProcessingMetrics option" where
  "getMetrics_batch bp b = metrics bp b"

definition clearMetrics :: "BatchProcessor \<Rightarrow> string \<Rightarrow> BatchProcessor" where
  "clearMetrics bp b = bp\<lparr>metrics := (metrics bp)(b := None)\<rparr>"

text \<open>The options object \<open>{}\<close>.\<close>

definition default_batch_options :: BatchProcessorOptions where
  "default_batch_options =
     \<lparr>opt_batchSize = None, opt_maxRetries = None, opt_retryDelay = None, opt_maxConcurrent = None\<rparr>"

subsection \<open>The effect of a run on the metrics\<close>

text \<open>Adding to the three counters a run touches: the abstraction of an item's effect.\<close>

definition bump :: "nat \<Rightarrow> nat \<Rightarrow> nat \<Rightarrow> ProcessingMetrics \<Rightarrow> ProcessingMetrics" where
  "bump p f r m =
     m\<lparr>processedItems := processedItems m + p, failedItems := failedItems m + f,
       retries := retries m + r\<rparr>"

lemma bump_0 [simp]: "bump 0 0 0 m = m"
  by (simp add: bump_def)

lemma bump_bump [simp]: "bump p f r (bump p' f' r' m) = bump (p + p') (f + f') (r + r') m"
  by (simp add: bump_def ac_simps)

lemma bump_fields [simp]:
  "processedItems (bump p f r m) = processedItems m + p"
  "failedItems (bump p f r m) = failedItems m + f"
  "retries (bump p f r m) = retries m + r"
  "totalItems (bump p f r m) = totalItems m"
  "startTime (bump p f r m) = startTime m"
  "endTime (bump p f r m) = endTime m"
  by (simp_all add: bump_def)

lemma update_metrics_id [simp]: "update_metrics b (\<lambda>m. m) bp = bp"
  by (auto simp: update_metrics_def fun_upd_idem split: option.split)

lemma update_metrics_comp [simp]:
  "update_metrics b f (update_metrics b g bp) = update_metrics b (f \<circ> g) bp"
  by (simp add: update_metrics_def split: option.split)

lemma update_metrics_config [simp]:
  "batchSize (update_metrics b f bp) = batchSize bp"
  "maxRetries (update_metrics b f bp) = maxRetries bp"
  "retryDelay (update_metrics b f bp) = retryDelay bp"
  "maxConcurrent (update_metrics b f bp) = maxConcurrent bp"
  by (simp_all add: update_metrics_def split: option.split)

lemma metrics_update_metrics:
  "metrics (update_metrics b f bp) b' =
     (if b' = b then map_option f (metrics bp b) else metrics bp b')"
  by (simp add: update_metrics_def split: option.split)

lemma bump_comp [simp]: "bump p f r \<circ> bump p' f' r' = bump (p + p') (f + f') (r + r')"
  by (simp add: fun_eq_iff)

text \<open>\<open>processWithRetry\<close> is the reference outcome plus its counter increments.\<close>

lemma processWithRetry_eq:
  "processWithRetry bp ok x b k =
     (let (r, n) = retry_outcome (maxRetries bp) ok x k
      in (update_metrics b (bump (if r then 1 else 0) (if r then 0 else 1) n) bp, r,
          replicate n (retryDelay bp)))"
proof (induction bp ok x b k rule: processWithRetry.induct)
  case (1 bp ok x b k)
  show ?case
  proof (cases "ok x k")
    case True
    then show ?thesis
      by (simp add: processWithRetry.simps [of bp ok x b k] retry_outcome.simps [of _ ok x k]
          bump_def comp_def)
  next
    case False
    show ?thesis
    proof (cases "int k < maxRetries bp")
      case True
      let ?bp1 = "update_metrics b (\<lambda>m. m\<lparr>retries := Suc (retries m)\<rparr>) bp"
      have retr: "(\<lambda>m. m\<lparr>retries := Suc (retries m)\<rparr>) = bump 0 0 1"
        by (simp add: fun_eq_iff bump_def)
      obtain r n where o: "retry_outcome (maxRetries bp) ok x (Suc k) = (r, n)"
        by fastforce
      from "1.IH" [OF False True] o have
        "processWithRetry ?bp1 ok x b (Suc k) =
           (update_metrics b (bump (if r then 1 else 0) (if r then 0 else 1) n) ?bp1, r,
            replicate n (retryDelay bp))"
        by simp
      with False True o show ?thesis
        by (simp add: processWithRetry.simps [of bp ok x b k] retry_outcome.simps [of _ ok x k] retr)
    next
      case False
      with \<open>\<not> ok x k\<close> show ?thesis
        by (simp add: processWithRetry.simps [of bp ok x b k] retry_outcome.simps [of _ ok x k]
            bump_def comp_def)
    qed
  qed
qed

text \<open>A batch of items is the sum of the items' reference outcomes.\<close>

lemma processAll_eq:
  "processAll bp ok xs b =
     (update_metrics b
        (bump (length (filter (\<lambda>x. fst (retry_outcome (maxRetries bp) ok x 0)) xs))
              (length (filter (\<lambda>x. \<not> fst (retry_outcome (maxRetries bp) ok x 0)) xs))
              (sum_list (map (\<lambda>x. snd (retry_outcome (maxRetries bp) ok x 0)) xs))) bp,
      list_all (\<lambda>x. fst (retry_outcome (maxRetries bp) ok x 0)) xs)"
proof (induction xs arbitrary: bp)
  case Nil
  then show ?case by simp
next
  case (Cons x xs)
  obtain r n where o: "retry_outcome (maxRetries bp) ok x 0 = (r, n)" by fastforce
  from Cons.IH [of "update_metrics b (bump (if r then 1 else 0) (if r then 0 else 1) n) bp"] o
  show ?case
    by (simp add: processWithRetry_eq ac_simps)
qed

text \<open>
  The concurrency of a window is no loss: the outcome of running a list of items does not
  depend on their order, so every order in which the concurrent items complete gives the
  same metrics and the same joint result.
\<close>

lemma processAll_perm:
  assumes "mset xs = mset ys"
  shows "processAll bp ok xs b = processAll bp ok ys b"
proof -
  let ?o = "\<lambda>x. retry_outcome (maxRetries bp) ok x 0"
  have "sum_list (map (\<lambda>x. snd (?o x)) xs) = sum_list (map (\<lambda>x. snd (?o x)) ys)"
    using assms by (metis mset_map sum_mset_sum_list)
  moreover have "set xs = set ys" using assms by (rule mset_eq_setD)
  moreover have "length (filter P xs) = length (filter P ys)" for P
    using assms by (metis mset_filter size_mset)
  ultimately show ?thesis
    by (simp add: processAll_eq list_all_iff)
qed

lemma processAll_config [simp]:
  "batchSize (fst (processAll bp ok xs b)) = batchSize bp"
  "maxRetries (fst (processAll bp ok xs b)) = maxRetries bp"
  "retryDelay (fst (processAll bp ok xs b)) = retryDelay bp"
  "maxConcurrent (fst (processAll bp ok xs b)) = maxConcurrent bp"
  by (simp_all add: processAll_eq)

lemma processAll_append:
  "processAll bp ok (xs @ ys) b =
     (case processAll bp ok xs b of (bp1, r1) \<Rightarrow>
        (case processAll bp1 ok ys b of (bp2, r2) \<Rightarrow> (bp2, r1 \<and> r2)))"
  by (induction xs arbitrary: bp) (auto split: prod.split)

subsection \<open>The loops of createBatches and process\<close>

lemma process_windows_nonpos:
  "maxConcurrent bp \<le> 0 \<Longrightarrow> i < int (length bs) \<Longrightarrow>
     process_windows fuel bp ok bs b i \<noteq> Some (bp', True)"
proof (induction fuel arbitrary: bp i)
  case 0
  then show ?case by simp
next
  case (Suc fuel)
  obtain bp1 r where pa:
    "processAll bp ok (concat (js_slice bs i (i + maxConcurrent bp))) b = (bp1, r)" by fastforce
  from pa processAll_config(4) [of bp ok _ b] have "maxConcurrent bp1 = maxConcurrent bp"
    by (metis fst_conv)
  with Suc.prems have "process_windows fuel bp1 ok bs b (i + maxConcurrent bp) \<noteq> Some (bp', True)"
    by (intro Suc.IH) simp_all
  with Suc.prems pa show ?case by simp
qed

lemma process_windows_resolved:
  "process_windows fuel bp ok bs b (int j) = Some (bp', True) \<Longrightarrow>
     processAll bp ok (concat (drop j bs)) b = (bp', True)"
proof (induction fuel arbitrary: bp j)
  case 0
  then show ?case by simp
next
  case (Suc fuel)
  show ?case
  proof (cases "j < length bs")
    case False
    with Suc.prems show ?thesis by simp
  next
    case True
    show ?thesis
    proof (cases "maxConcurrent bp \<le> 0")
      case True
      with \<open>j < length bs\<close> Suc.prems process_windows_nonpos [of bp "int j" bs "Suc fuel" ok b bp']
      show ?thesis by simp
    next
      case False
      then obtain c where c: "maxConcurrent bp = int c" "0 < c"
        by (metis not_le pos_int_cases)
      obtain bp1 r where pa: "processAll bp ok (concat (take c (drop j bs))) b = (bp1, r)"
        by fastforce
      from pa processAll_config(4) [of bp ok _ b] have mc: "maxConcurrent bp1 = maxConcurrent bp"
        by (metis fst_conv)
      from Suc.prems \<open>j < length bs\<close> c pa have r: "r"
        and rec: "process_windows fuel bp1 ok bs b (int (j + c)) = Some (bp', True)"
        by (auto simp: js_slice_nat split: if_splits)
      from Suc.IH [OF rec] have "processAll bp1 ok (concat (drop (j + c) bs)) b = (bp', True)" .
      moreover have "concat (drop j bs) = concat (take c (drop j bs)) @ concat (drop (j + c) bs)"
        by (simp add: add.commute flip: concat_append drop_drop)
      ultimately show ?thesis
        using pa r by (simp add: processAll_append)
    qed
  qed
qed

lemma process_windows_some:
  "0 < maxConcurrent bp \<Longrightarrow> length bs - j < fuel \<Longrightarrow>
     process_windows fuel bp ok bs b (int j) \<noteq> None"
proof (induction fuel arbitrary: bp j)
  case 0
  then show ?case by simp
next
  case (Suc fuel)
  from Suc.prems(1) obtain c where c: "maxConcurrent bp = int c" "0 < c"
    by (metis pos_int_cases)
  obtain bp1 r where pa: "processAll bp ok (concat (take c (drop j bs))) b = (bp1, r)"
    by fastforce
  from pa processAll_config(4) [of bp ok _ b] have mc: "maxConcurrent bp1 = maxConcurrent bp"
    by (metis fst_conv)
  show ?case
  proof (cases "j < length bs")
    case True
    with Suc.prems c have "length bs - (j + c) < fuel" by linarith
    with Suc.IH [of bp1 "j + c"] Suc.prems(1) mc
    have "process_windows fuel bp1 ok bs b (int (j + c)) \<noteq> None" by simp
    with True c pa show ?thesis by (cases r) (simp_all add: js_slice_nat)
  qed simp
qed

lemma process_windows_zero:
  "maxConcurrent bp = 0 \<Longrightarrow> i < int (length bs) \<Longrightarrow> process_windows fuel bp ok bs b i = None"
proof (induction fuel)
  case (Suc fuel)
  have "js_slice bs i i = []" by (simp add: js_slice_def)
  with Suc show ?case by simp
qed simp

lemma process_windows_other_runs:
  "process_windows fuel bp ok bs b i = Some (bp', r) \<Longrightarrow> b' \<noteq> b \<Longrightarrow> metrics bp' b' = metrics bp b'"
proof (induction fuel arbitrary: bp i)
  case (Suc fuel)
  obtain bp1 r1 where pa:
    "processAll bp ok (concat (js_slice bs i (i + maxConcurrent bp))) b = (bp1, r1)" by fastforce
  then have "metrics bp1 b' = metrics bp b'"
    using Suc.prems(2) by (auto simp: processAll_eq metrics_update_metrics)
  with Suc pa show ?case by (auto split: if_splits)
qed simp

lemma process_windows_prefix:
  "0 < maxConcurrent bp \<Longrightarrow> process_windows fuel bp ok bs b (int j) = Some (bp', r) \<Longrightarrow>
     \<exists>xs ys. xs @ ys = concat (drop j bs) \<and> processAll bp ok xs b = (bp', r)"
proof (induction fuel arbitrary: bp j)
  case (Suc fuel)
  from Suc.prems(1) obtain c where c: "maxConcurrent bp = int c" "0 < c"
    by (metis pos_int_cases)
  show ?case
  proof (cases "j < length bs")
    case False
    with Suc.prems(2) show ?thesis by auto
  next
    case True
    let ?w = "concat (take c (drop j bs))"
    obtain bp1 r1 where pa: "processAll bp ok ?w b = (bp1, r1)" by fastforce
    have mc: "maxConcurrent bp1 = maxConcurrent bp"
      using processAll_config(4) [of bp ok ?w b] pa by simp
    have split: "concat (drop j bs) = ?w @ concat (drop (j + c) bs)"
      by (simp add: add.commute flip: concat_append drop_drop)
    show ?thesis
    proof (cases r1)
      case False
      with Suc.prems(2) True c pa have "bp' = bp1" "r = False" by (simp_all add: js_slice_nat)
      with pa False split show ?thesis
        by (intro exI [of _ ?w] exI [of _ "concat (drop (j + c) bs)"]) simp
    next
      case r1: True
      with Suc.prems(2) True c pa
      have rec: "process_windows fuel bp1 ok bs b (int (j + c)) = Some (bp', r)"
        by (simp add: js_slice_nat)
      from mc Suc.prems(1) have "0 < maxConcurrent bp1" by simp
      from Suc.IH [OF this rec] obtain xs ys where
        "xs @ ys = concat (drop (j + c) bs)" "processAll bp1 ok xs b = (bp', r)" by blast
      with pa r1 split show ?thesis
        by (intro exI [of _ "?w @ xs"] exI [of _ ys]) (simp add: processAll_append)
    qed
  qed
qed simp

lemma js_slice_neg_empty:
  "i < 0 \<Longrightarrow> d \<le> 0 \<Longrightarrow> js_slice xs i (i + d) = []"
  by (simp add: js_slice_def js_rel_index_def)

lemma process_windows_neg:
  "maxConcurrent bp \<le> 0 \<Longrightarrow> i < 0 \<Longrightarrow> process_windows fuel bp ok bs b i = None"
proof (induction fuel arbitrary: i)
  case (Suc fuel)
  have "i < int (length bs)" using Suc.prems(2) by simp
  moreover have "i + maxConcurrent bp < 0" using Suc.prems by simp
  ultimately show ?case
    using Suc by (simp add: js_slice_neg_empty)
qed simp

lemma process_windows_nonpos_start:
  "maxConcurrent bp \<le> 0 \<Longrightarrow> process_windows fuel bp ok bs b 0 = Some (bp', r) \<Longrightarrow>
     \<exists>xs ys. xs @ ys = concat bs \<and> processAll bp ok xs b = (bp', r)"
proof (induction fuel)
  case (Suc fuel)
  show ?case
  proof (cases "bs = []")
    case True
    with Suc.prems(2) show ?thesis by auto
  next
    case False
    let ?w = "concat (js_slice bs 0 (maxConcurrent bp))"
    obtain bp1 r1 where pa: "processAll bp ok ?w b = (bp1, r1)" by fastforce
    obtain k where w: "js_slice bs 0 (maxConcurrent bp) = take k bs"
      by (simp add: js_slice_def js_rel_index_def)
    have split: "concat bs = ?w @ concat (drop k bs)"
      by (simp add: w flip: concat_append)
    show ?thesis
    proof (cases "maxConcurrent bp = 0")
      case True
      with Suc.prems(2) False have "process_windows fuel bp ok bs b 0 = Some (bp', r)"
        by (simp add: js_slice_def)
      with Suc.IH Suc.prems(1) show ?thesis by blast
    next
      case mneg: False
      with Suc.prems(1) have neg: "maxConcurrent bp < 0" by simp
      have mc: "maxConcurrent bp1 = maxConcurrent bp"
        using processAll_config(4) [of bp ok ?w b] pa by simp
      have "\<not> r1"
      proof
        assume r1
        with Suc.prems(2) False pa
        have "process_windows fuel bp1 ok bs b (maxConcurrent bp) = Some (bp', r)" by simp
        with process_windows_neg [of bp1 "maxConcurrent bp" fuel ok bs b] neg mc show False by simp
      qed
      with Suc.prems(2) False pa have "bp' = bp1" "r = False" by simp_all
      with pa \<open>\<not> r1\<close> split show ?thesis
        by (intro exI [of _ ?w] exI [of _ "concat (drop k bs)"]) simp
    qed
  qed
qed simp

text \<open>
  What a settled run did: it ran a prefix of the items (all of them when it resolved)
  on the processor with the run's fresh entry, and stamped \<open>endTime\<close>.
\<close>

lemma process_some_prefix:
  assumes run: "process fuel bp ok items b t0 t1 = Some (bp', r)"
  shows "\<exists>xs ys bp1. xs @ ys = items \<and>
           processAll (bp\<lparr>metrics := (metrics bp)(b \<mapsto> new_metrics (length items) t0)\<rparr>) ok xs b =
             (bp1, r) \<and>
           bp' = update_metrics b (\<lambda>m. m\<lparr>endTime := Some t1\<rparr>) bp1"
proof -
  let ?bp0 = "bp\<lparr>metrics := (metrics bp)(b \<mapsto> new_metrics (length items) t0)\<rparr>"
  from run obtain bs bp1 where cb: "createBatches fuel ?bp0 items = Some bs"
    and pw: "process_windows fuel ?bp0 ok bs b 0 = Some (bp1, r)"
    and bp': "bp' = update_metrics b (\<lambda>m. m\<lparr>endTime := Some t1\<rparr>) bp1"
    by (auto simp: process_def Let_def split: option.splits prod.splits)
  from cb have cat: "concat bs = items"
    by (auto simp: createBatches_def dest: slice_loop_concat)
  have "\<exists>xs ys. xs @ ys = concat bs \<and> processAll ?bp0 ok xs b = (bp1, r)"
  proof (cases "0 < maxConcurrent ?bp0")
    case True
    from pw have "process_windows fuel ?bp0 ok bs b (int 0) = Some (bp1, r)" by simp
    from process_windows_prefix [OF True this] show ?thesis by simp
  next
    case False
    then have "maxConcurrent ?bp0 \<le> 0" by simp
    from process_windows_nonpos_start [OF this pw] show ?thesis .
  qed
  with cat bp' show ?thesis by blast
qed

subsection \<open>Properties of process\<close>

text \<open>
  C6: when \<open>process\<close> resolves, every item was processed and none failed: the run's
  entry has \<open>processedItems = totalItems\<close>, \<open>failedItems = 0\<close>, and \<open>endTime\<close> set.
\<close>

theorem process_resolved_counts:
  assumes run: "process fuel bp ok items b t0 t1 = Some (bp', True)"
  shows "\<exists>m. metrics bp' b = Some m \<and> totalItems m = length items \<and>
           processedItems m = length items \<and> failedItems m = 0 \<and> endTime m = Some t1"
proof -
  let ?bp0 = "bp\<lparr>metrics := (metrics bp)(b \<mapsto> new_metrics (length items) t0)\<rparr>"
  from run obtain bs bp1 where cb: "createBatches fuel ?bp0 items = Some bs"
    and pw: "process_windows fuel ?bp0 ok bs b 0 = Some (bp1, True)"
    and bp': "bp' = update_metrics b (\<lambda>m. m\<lparr>endTime := Some t1\<rparr>) bp1"
    by (auto simp: process_def Let_def split: option.splits)
  from cb have "concat bs = items"
    by (auto simp: createBatches_def dest: slice_loop_concat)
  with process_windows_resolved [of fuel ?bp0 ok bs b 0 bp1] pw
  have "processAll ?bp0 ok items b = (bp1, True)" by simp
  then have pa: "processAll ?bp0 ok items b = (bp1, True)" .
  then have all: "\<forall>x \<in> set items. fst (retry_outcome (maxRetries bp) ok x 0)"
    by (simp add: processAll_eq list_all_iff)
  have "processAll ?bp0 ok items b = (update_metrics b (bump (length items) 0
      (sum_list (map (\<lambda>x. snd (retry_outcome (maxRetries bp) ok x 0)) items))) ?bp0, True)"
    using all by (simp add: processAll_eq list_all_iff)
  with pa have "bp1 = update_metrics b (bump (length items) 0
      (sum_list (map (\<lambda>x. snd (retry_outcome (maxRetries bp) ok x 0)) items))) ?bp0"
    by simp
  with bp' show ?thesis
    by (simp add: update_metrics_def new_metrics_def)
qed

theorem process_resolved_counts_witness:
  "\<exists>bp'. process 10 (newBatchProcessor default_batch_options) (\<lambda>x k. True) [1::nat, 2, 3] ''run'' 0 7
          = Some (bp', True) \<and>
        (\<exists>m. metrics bp' ''run'' = Some m \<and> totalItems m = 3 \<and> processedItems m = 3 \<and>
             failedItems m = 0 \<and> endTime m = Some 7)"
proof -
  have "\<exists>bp'. process 10 (newBatchProcessor default_batch_options) (\<lambda>x k. True) [1::nat, 2, 3]
      ''run'' 0 7 = Some (bp', True)"
    by (simp add: process_def newBatchProcessor_def default_batch_options_def createBatches_def
        js_slice_def js_rel_index_def processAll_eq retry_outcome.simps numeral_eq_Suc)
  then obtain bp' where run: "process 10 (newBatchProcessor default_batch_options) (\<lambda>x k. True)
      [1::nat, 2, 3] ''run'' 0 7 = Some (bp', True)" ..
  from process_resolved_counts [OF run] run show ?thesis by auto
qed

text \<open>
  C8: with a positive \<open>batchSize\<close> and \<open>maxConcurrent\<close>, \<open>process\<close> settles (resolves
  or rejects); fuel one more than the number of items is enough.
\<close>

theorem process_terminates:
  assumes "0 < batchSize bp" and "0 < maxConcurrent bp" and "length items < fuel"
  shows "process fuel bp ok items b t0 t1 \<noteq> None"
proof -
  let ?bp0 = "bp\<lparr>metrics := (metrics bp)(b \<mapsto> new_metrics (length items) t0)\<rparr>"
  from assms(1) obtain n where n: "batchSize bp = int n" "0 < n"
    by (metis pos_int_cases)
  with assms(3) have cb: "createBatches fuel ?bp0 items = Some (chunks n items)"
    using slice_loop_chunks [of n items 0 fuel] by (simp add: createBatches_def)
  from assms(3) length_chunks_le [of n items] have "length (chunks n items) - 0 < fuel" by simp
  from process_windows_some [OF _ this, of ?bp0 ok b] assms(2)
  have "process_windows fuel ?bp0 ok (chunks n items) b 0 \<noteq> None" by simp
  with cb show ?thesis
    by (auto simp: process_def Let_def split: option.split)
qed

theorem process_terminates_witness:
  "(0::int) < batchSize (newBatchProcessor default_batch_options) \<and>
   (0::int) < maxConcurrent (newBatchProcessor default_batch_options) \<and> length [1::nat, 2] < 3 \<and>
   process 3 (newBatchProcessor default_batch_options) (\<lambda>x k. False) [1::nat, 2] ''run'' 0 1 \<noteq> None"
  using process_terminates [of "newBatchProcessor default_batch_options" "[1::nat, 2]" 3
      "\<lambda>x k. False" "''run''" 0 1]
  by (simp add: newBatchProcessor_def default_batch_options_def)

text \<open>
  with \<open>batchSize \<le> 0\<close> (which \<open>??\<close> lets through), or with \<open>maxConcurrent = 0\<close>,
  \<open>process\<close> on a non-empty list never settles, for any amount of fuel: the
  \<open>createBatches\<close> loop never advances, or every window is empty and the window loop
  never advances.
\<close>

theorem process_never_settles:
  assumes "batchSize bp \<le> 0 \<or> maxConcurrent bp = 0" and "items \<noteq> []"
  shows "process fuel bp ok items b t0 t1 = None"
proof (cases "batchSize bp \<le> 0")
  case True
  with assms(2) show ?thesis
    by (simp add: process_def createBatches_def slice_loop_nonpos)
next
  case False
  with assms(1) have mc: "maxConcurrent bp = 0" by simp
  let ?bp0 = "bp\<lparr>metrics := (metrics bp)(b \<mapsto> new_metrics (length items) t0)\<rparr>"
  show ?thesis
  proof (cases "createBatches fuel ?bp0 items")
    case (Some bs)
    then have "concat bs = items"
      by (auto simp: createBatches_def dest: slice_loop_concat)
    with assms(2) have "0 < int (length bs)" by (cases bs) auto
    with mc have "process_windows fuel ?bp0 ok bs b 0 = None"
      by (simp add: process_windows_zero)
    with Some show ?thesis by (simp add: process_def)
  qed (simp add: process_def)
qed

theorem process_never_settles_witness:
  "(batchSize ((newBatchProcessor default_batch_options)\<lparr>batchSize := 0\<rparr>) \<le> 0 \<or>
    maxConcurrent ((newBatchProcessor default_batch_options)\<lparr>batchSize := 0\<rparr>) = 0) \<and>
   [1::nat] \<noteq> [] \<and>
   process 100 ((newBatchProcessor default_batch_options)\<lparr>batchSize := 0\<rparr>) (\<lambda>x k. True) [1::nat]
     ''run'' 0 1 = None"
  using process_never_settles [of "(newBatchProcessor default_batch_options)\<lparr>batchSize := 0\<rparr>"
      "[1::nat]" 100 "\<lambda>x k. True" "''run''" 0 1]
  by simp

text \<open>
  an item that exhausts its retries aborts the run: \<open>Promise.all\<close> of its window
  rejects, the loop is left, and the later windows are never started.  With batches of one
  item, one batch per window and a first item that always fails, the run rejects after
  one item failed and the second item was never attempted: \<open>processedItems +
  failedItems < totalItems\<close> when \<open>process\<close> settles.
\<close>

theorem process_failure_skips_windows:
  "let bp = (newBatchProcessor default_batch_options)\<lparr>batchSize := 1, maxConcurrent := 1\<rparr>
   in \<exists>bp'. process 10 bp (\<lambda>x k. x \<noteq> (0::nat)) [0, 1] ''run'' 0 9 = Some (bp', False) \<and>
        metrics bp' ''run'' =
          Some \<lparr>totalItems = 2, processedItems = 0, failedItems = 1, retries = 3,
                startTime = 0, endTime = Some 9\<rparr>"
  by (simp add: process_def newBatchProcessor_def default_batch_options_def createBatches_def
      js_slice_def js_rel_index_def processAll_eq retry_outcome.simps numeral_eq_Suc
      new_metrics_def update_metrics_def bump_def)

text \<open>
  C7: when \<open>process\<close> rejects, the run's entry shows at least one failed item, counts
  no more items than the run has, and has \<open>endTime\<close> set by the \<open>finally\<close> block.
\<close>

theorem process_rejected_counts:
  assumes run: "process fuel bp ok items b t0 t1 = Some (bp', False)"
  shows "\<exists>m. metrics bp' b = Some m \<and> totalItems m = length items \<and> 0 < failedItems m \<and>
           processedItems m + failedItems m \<le> totalItems m \<and> endTime m = Some t1"
proof -
  let ?bp0 = "bp\<lparr>metrics := (metrics bp)(b \<mapsto> new_metrics (length items) t0)\<rparr>"
  let ?P = "\<lambda>x. fst (retry_outcome (maxRetries bp) ok x 0)"
  from process_some_prefix [OF run] obtain xs ys bp1 where
    items: "xs @ ys = items" and pa: "processAll ?bp0 ok xs b = (bp1, False)"
    and bp': "bp' = update_metrics b (\<lambda>m. m\<lparr>endTime := Some t1\<rparr>) bp1" by blast
  from pa have notall: "\<not> list_all ?P xs"
    and bp1: "bp1 = update_metrics b (bump (length (filter ?P xs)) (length (filter (\<lambda>x. \<not> ?P x) xs))
                 (sum_list (map (\<lambda>x. snd (retry_outcome (maxRetries bp) ok x 0)) xs))) ?bp0"
    by (simp_all add: processAll_eq)
  from notall have "0 < length (filter (\<lambda>x. \<not> ?P x) xs)"
    by (auto simp: list_all_iff length_pos_if_in_set filter_empty_conv)
  moreover have "length (filter ?P xs) + length (filter (\<lambda>x. \<not> ?P x) xs) \<le> length items"
    using items length_filter_split [of ?P xs] by auto
  ultimately show ?thesis
    using bp' bp1 by (simp add: metrics_update_metrics new_metrics_def)
qed

theorem process_rejected_counts_witness:
  "let bp = (newBatchProcessor default_batch_options)\<lparr>batchSize := 1, maxConcurrent := 1\<rparr>
   in process 10 bp (\<lambda>x k. x \<noteq> (0::nat)) [0, 1] ''run'' 0 9 =
        Some (fst (the (process 10 bp (\<lambda>x k. x \<noteq> (0::nat)) [0, 1] ''run'' 0 9)), False) \<and>
      (\<exists>m. metrics (fst (the (process 10 bp (\<lambda>x k. x \<noteq> (0::nat)) [0, 1] ''run'' 0 9))) ''run'' = Some m \<and>
         totalItems m = length [0::nat, 1] \<and> 0 < failedItems m \<and>
         processedItems m + failedItems m \<le> totalItems m \<and> endTime m = Some 9)"
proof -
  let ?bp = "(newBatchProcessor default_batch_options)\<lparr>batchSize := 1, maxConcurrent := 1\<rparr>"
  let ?ok = "\<lambda>x k. x \<noteq> (0::nat)"
  have run: "process 10 ?bp ?ok [0, 1] ''run'' 0 9 =
               Some (fst (the (process 10 ?bp ?ok [0, 1] ''run'' 0 9)), False)"
    by (simp add: process_def newBatchProcessor_def default_batch_options_def createBatches_def
        js_slice_def js_rel_index_def processAll_eq retry_outcome.simps numeral_eq_Suc)
  show ?thesis
    using run process_rejected_counts [OF run] unfolding Let_def by blast
qed

text \<open>
  the back-off of \<open>processWithRetry\<close> is constant: every wait before a retry is
  \<open>retryDelay\<close>.  With the default options an item that fails twice and then succeeds
  waits 1000 ms twice and is counted as processed (the spec asks for 1000 ms then 2000 ms).
\<close>

theorem processWithRetry_constant_backoff:
  "(\<exists>n. snd (snd (processWithRetry bp ok x b k)) = replicate n (retryDelay bp)) \<and>
   processWithRetry (newBatchProcessor default_batch_options) (\<lambda>x k. 2 \<le> k) x b 0 =
     (newBatchProcessor default_batch_options, True, [1000, 1000])"
proof
  show "\<exists>n. snd (snd (processWithRetry bp ok x b k)) = replicate n (retryDelay bp)"
    by (simp add: processWithRetry_eq split: prod.split)
  show "processWithRetry (newBatchProcessor default_batch_options) (\<lambda>x k. 2 \<le> k) x b 0 =
          (newBatchProcessor default_batch_options, True, [1000, 1000])"
    by (simp add: processWithRetry_eq retry_outcome.simps newBatchProcessor_def
        default_batch_options_def update_metrics_def numeral_eq_Suc)
qed

text \<open>
  C9: \<open>createBatches\<close> refines the reference partition \<open>chunks\<close>: with a positive
  \<open>batchSize\<close> the loop ends and yields consecutive slices of \<open>batchSize\<close> items, the last
  one shorter.  Fuel one more than the number of items is enough.
\<close>

theorem createBatches_refines_chunks:
  assumes "0 < batchSize bp" and "length items < fuel"
  shows "createBatches fuel bp items = Some (chunks (nat (batchSize bp)) items)"
proof -
  from assms(1) obtain n where n: "batchSize bp = int n" "0 < n"
    by (metis pos_int_cases)
  with assms(2) slice_loop_chunks [of n items 0 fuel] show ?thesis
    by (simp add: createBatches_def)
qed

theorem createBatches_refines_chunks_witness:
  "0 < batchSize ((newBatchProcessor default_batch_options)\<lparr>maxConcurrent := 3\<rparr>) \<and>
   length [0::nat..<23] < 24 \<and>
   map_option (map length) (createBatches 24 ((newBatchProcessor default_batch_options)\<lparr>maxConcurrent := 3\<rparr>)
     [0::nat..<23]) = Some [10, 10, 3]"
proof -
  have "map length (chunks 10 [0::nat..<23]) = [10, 10, 3]"
    by (simp add: chunks_step)
  then show ?thesis
    using createBatches_refines_chunks [of "(newBatchProcessor default_batch_options)\<lparr>maxConcurrent := 3\<rparr>"
        "[0::nat..<23]" 24]
    by (simp add: newBatchProcessor_def default_batch_options_def)
qed

text \<open>
  runs with different ids do not interfere: a run of \<open>process\<close> under id \<open>b\<close>
  leaves the metrics entry of every other id as it was.
\<close>

theorem process_isolates_runs:
  assumes "process fuel bp ok items b t0 t1 = Some (bp', r)" and "b' \<noteq> b"
  shows "metrics bp' b' = metrics bp b'"
proof -
  let ?bp0 = "bp\<lparr>metrics := (metrics bp)(b \<mapsto> new_metrics (length items) t0)\<rparr>"
  obtain xs bp1 where
    pa: "processAll ?bp0 ok xs b = (bp1, r)"
    and bp': "bp' = update_metrics b (\<lambda>m. m\<lparr>endTime := Some t1\<rparr>) bp1"
    using process_some_prefix [OF assms(1)] by blast
  from pa assms(2) have "metrics bp1 b' = metrics bp b'"
    by (auto simp: processAll_eq metrics_update_metrics)
  with bp' assms(2) show ?thesis by (simp add: metrics_update_metrics)
qed

theorem process_isolates_runs_witness:
  "let bp = (newBatchProcessor default_batch_options)\<lparr>metrics := [''old'' \<mapsto> new_metrics 4 0]\<rparr>
   in process 5 bp (\<lambda>x k. True) [1::nat, 2] ''new'' 1 2 =
        Some (fst (the (process 5 bp (\<lambda>x k. True) [1::nat, 2] ''new'' 1 2)), True) \<and>
      ''old'' \<noteq> ''new'' \<and>
      metrics (fst (the (process 5 bp (\<lambda>x k. True) [1::nat, 2] ''new'' 1 2))) ''old'' = metrics bp ''old''"
proof -
  let ?bp = "(newBatchProcessor default_batch_options)\<lparr>metrics := [''old'' \<mapsto> new_metrics 4 0]\<rparr>"
  let ?ok = "\<lambda>(x::nat) (k::nat). True"
  have run: "process 5 ?bp ?ok [1::nat, 2] ''new'' 1 2 =
               Some (fst (the (process 5 ?bp ?ok [1::nat, 2] ''new'' 1 2)), True)"
    by (simp add: process_def newBatchProcessor_def default_batch_options_def createBatches_def
        js_slice_def js_rel_index_def processAll_eq retry_outcome.simps numeral_eq_Suc)
  have "''old'' \<noteq> ''new''" by simp
  from run this process_isolates_runs [OF run this] show ?thesis
    unfolding Let_def by blast
qed

text \<open>
  an empty item list resolves at once: the run's entry has zero counts, the given
  start time, and \<open>endTime\<close> set; nothing else changes.
\<close>

theorem process_empty:
  "process (Suc fuel) bp ok [] b t0 t1 =
     Some (bp\<lparr>metrics := (metrics bp)(b \<mapsto> (new_metrics 0 t0)\<lparr>endTime := Some t1\<rparr>)\<rparr>, True)"
  by (simp add: process_def createBatches_def update_metrics_def)

end
