(* ===== verification/ChunkBatch.thy ===== *)
theory ChunkBatch
  imports Complex_Main Prelude "HOL-Library.Multiset"
begin

text \<open>
  The chunk pipeline's batch processor of \<open>src/unnamed/part_001\<close> (class
  \<open>BatchProcessor\<close> over \<open>EnhancedVectorStorage\<close>).  \<open>processBatch\<close> splits documents
  into chunks, cuts the chunks into batches with lodash \<open>chunk\<close>, and runs the batches
  through a \<open>p-limit\<close> limiter of \<open>concurrentBatches\<close>; every chunk goes through
  \<open>processChunkWithRetry\<close>, which retries with exponential back-off and never rejects.
  \<open>processLargeDocument\<close> runs batches one after the other through a caller's chunk
  processor, without retry, and gives up once too many chunks failed.

  The text splitter and the vector store are external: the splitter is a function
  \<open>split\<close> from a text to its chunks, the store an oracle \<open>ok c k\<close> telling whether
  attempt \<open>k\<close> on chunk \<open>c\<close> succeeds.  The limiter's concurrency is a schedule: the order
  in which the batches complete, which \<open>p-limit\<close> constrains by starting batches in
  index order and at most \<open>concurrentBatches\<close> at a time; a batch's chunk effects are
  applied when the batch completes.  Timings (\<open>performance.now\<close>) are not modelled.
\<close>

subsection \<open>Data\<close>

record BatchProcessingOptions =
  chunkSize_opt :: "int option"
  overlapSize_opt :: "int option"
  batchSize_opt :: "int option"
  concurrentBatches_opt :: "int option"
  maxRetries_opt :: "int option"
  retryDelay_opt :: "int option"

text \<open>The options after the constructor's \<open>||\<close> defaulting.\<close>

record chunk_options =
  chunkSize :: int
  overlapSize :: int
  chunk_batchSize :: int
  concurrentBatches :: int
  chunk_maxRetries :: int
  chunk_retryDelay :: int

text \<open>\<open>ProcessingMetrics\<close> without the two timing fields.\<close>

record ProcessingMetrics_chunk =
  totalChunks :: nat
  processedChunks :: nat
  failedChunks :: nat
  retryCount :: nat

record BatchProcessor_chunk =
  options :: chunk_options
  chunk_metrics :: ProcessingMetrics_chunk

record 'm Document =
  doc_text :: string
  metadata :: 'm

text \<open>A chunk with its metadata \<open>{ ...doc.metadata, chunkIndex }\<close>.\<close>

record 'm DocChunk =
  chunk_text :: string
  doc_metadata :: 'm
  chunkIndex :: nat

datatype chunk_error = TooManyFailedChunks | InvalidConcurrency

subsection \<open>Construction and metrics\<close>

definition normalize_chunk_options :: "BatchProcessingOptions \<Rightarrow> chunk_options" where
  "normalize_chunk_options cfg =
     \<lparr>chunkSize = js_or (chunkSize_opt cfg) 1000, overlapSize = js_or (overlapSize_opt cfg) 200,
      chunk_batchSize = js_or (batchSize_opt cfg) 10, concurrentBatches = js_or (concurrentBatches_opt cfg) 3,
      chunk_maxRetries = js_or (maxRetries_opt cfg) 3, chunk_retryDelay = js_or (retryDelay_opt cfg) 1000\<rparr>"

definition zero_metrics :: ProcessingMetrics_chunk where
  "zero_metrics = \<lparr>totalChunks = 0, processedChunks = 0, failedChunks = 0, retryCount = 0\<rparr>"

definition newChunkBatchProcessor :: "BatchProcessingOptions \<Rightarrow> BatchProcessor_chunk" where
  "newChunkBatchProcessor cfg = \<lparr>options = normalize_chunk_options cfg, chunk_metrics = zero_metrics\<rparr>"

text \<open>\<open>initialize()\<close>: the splitter and the store are external; the metrics are reset.\<close>

definition initialize :: "BatchProcessor_chunk \<Rightarrow> BatchProcessor_chunk" where
  "initialize bp = bp\<lparr>chunk_metrics := zero_metrics\<rparr>"

definition resetMetrics :: "BatchProcessor_chunk \<Rightarrow> BatchProcessor_chunk" where
  "resetMetrics bp = bp\<lparr>chunk_metrics := zero_metrics\<rparr>"

definition getMetrics_chunk :: "BatchProcessor_chunk \<Rightarrow> ProcessingMetrics_chunk" where
  "getMetrics_chunk bp = chunk_metrics bp"

definition map_metrics ::
  "(ProcessingMetrics_chunk \<Rightarrow> ProcessingMetrics_chunk) \<Rightarrow> BatchProcessor_chunk \<Rightarrow> BatchProcessor_chunk" where
  "map_metrics f bp = bp\<lparr>chunk_metrics := f (chunk_metrics bp)\<rparr>"

subsection \<open>processChunkWithRetry\<close>

text \<open>
  On success \<open>processedChunks++\<close> and \<open>true\<close>; on failure with
  \<open>retryCount < (maxRetries || 3)\<close> a wait of \<open>(retryDelay || 1000) * 2^retryCount\<close> and
  a retry; otherwise \<open>failedChunks++\<close> and \<open>false\<close>.  The result is the processor, the
  boolean, and the waits.
\<close>

function processChunkWithRetry ::
  "BatchProcessor_chunk \<Rightarrow> ('c \<Rightarrow> nat \<Rightarrow> bool) \<Rightarrow> 'c \<Rightarrow> nat \<Rightarrow> BatchProcessor_chunk \<times> bool \<times> int list"
where
  "processChunkWithRetry bp ok c k =
     (if ok c k
      then (map_metrics (\<lambda>m. m\<lparr>processedChunks := Suc (processedChunks m)\<rparr>) bp, True, [])
      else if int k < js_or (Some (chunk_maxRetries (options bp))) 3
      then (case processChunkWithRetry bp ok c (Suc k) of
              (bp', r, ds) \<Rightarrow> (bp', r, js_or (Some (chunk_retryDelay (options bp))) 1000 * 2 ^ k # ds))
      else (map_metrics (\<lambda>m. m\<lparr>failedChunks := Suc (failedChunks m)\<rparr>) bp, False, []))"
  by pat_completeness auto
termination
  by (relation "measure (\<lambda>(bp, ok, c, k). nat (js_or (Some (chunk_maxRetries (options bp))) 3 - int k))")
    auto

declare processChunkWithRetry.simps [simp del]

text \<open>\<open>await Promise.all(batch.map(processChunkWithRetry))\<close>: every chunk of a batch.\<close>

definition processChunks :: "BatchProcessor_chunk \<Rightarrow> ('c \<Rightarrow> nat \<Rightarrow> bool) \<Rightarrow> 'c list \<Rightarrow> BatchProcessor_chunk" where
  "processChunks bp ok cs = fold (\<lambda>c bp. fst (processChunkWithRetry bp ok c 0)) cs bp"

subsection \<open>processBatch\<close>

text \<open>
  The splitting loop: \<open>allChunks.push(...chunks.map(chunk => ({..., chunkIndex:
  allChunks.length})))\<close>; the \<open>map\<close> runs before the \<open>push\<close>, so every chunk of a document
  gets the same index, the number of chunks before the document.
\<close>

fun split_docs ::
  "(string \<Rightarrow> string list) \<Rightarrow> 'm Document list \<Rightarrow> 'm DocChunk list \<Rightarrow> 'm DocChunk list" where
  "split_docs split [] acc = acc"
| "split_docs split (d # ds) acc =
     split_docs split ds
       (acc @ map (\<lambda>ch. \<lparr>chunk_text = ch, doc_metadata = metadata d, chunkIndex = length acc\<rparr>) (split (doc_text d)))"

text \<open>lodash \<open>chunk(array, size)\<close>: no chunks at all when \<open>size < 1\<close>.\<close>

definition lodash_chunk :: "int \<Rightarrow> 'a list \<Rightarrow> 'a list list" where
  "lodash_chunk n xs = (if n < 1 then [] else chunks (nat n) xs)"

text \<open>\<open>pLimit(this.options.concurrentBatches || 3)\<close>: the limiter's concurrency.\<close>

definition batch_limit :: "BatchProcessor_chunk \<Rightarrow> int" where
  "batch_limit bp = js_or (Some (concurrentBatches (options bp))) 3"

text \<open>\<open>pLimit(concurrency)\<close> throws a \<open>TypeError\<close> unless the concurrency is at least 1.\<close>

definition plimit_valid :: "int \<Rightarrow> bool" where
  "plimit_valid n = (0 < n)"

text \<open>
  A completion order of \<open>nb\<close> batches under \<open>pLimit(n)\<close>: every batch completes once, and
  the \<open>p\<close>-th batch to complete has been started, i.e. its index is below \<open>n + p\<close>
  (batches start in index order, one as each earlier one completes).
\<close>

definition valid_schedule :: "int \<Rightarrow> nat \<Rightarrow> nat list \<Rightarrow> bool" where
  "valid_schedule n nb \<sigma> =
     (sort \<sigma> = [0..<nb] \<and> list_all (\<lambda>(p, i). int i < n + int p) (zip [0..<length \<sigma>] \<sigma>))"

definition progress :: "nat \<Rightarrow> nat \<Rightarrow> rat" where
  "progress i n = of_nat (Suc i) / of_nat n * 100"

text \<open>The batches completing in the order \<open>\<sigma>\<close>, each followed by its progress callback.\<close>

fun run_schedule ::
  "BatchProcessor_chunk \<Rightarrow> ('c \<Rightarrow> nat \<Rightarrow> bool) \<Rightarrow> 'c list list \<Rightarrow> nat list \<Rightarrow>
     BatchProcessor_chunk \<times> (rat \<times> ProcessingMetrics_chunk) list"
where
  "run_schedule bp ok bs [] = (bp, [])"
| "run_schedule bp ok bs (i # \<sigma>) =
     (let bp1 = processChunks bp ok (bs ! i)
      in case run_schedule bp1 ok bs \<sigma> of
           (bp2, cbs) \<Rightarrow> (bp2, (progress i (length bs), chunk_metrics bp1) # cbs))"

text \<open>
  \<open>processBatch_chunk(documents, progressCallback)\<close> with the completion order \<open>\<sigma>\<close>: the result
  is the processor after the call and either the limiter's \<open>TypeError\<close> or the returned
  metrics with the callbacks made.
\<close>

definition processBatch_chunk ::
  "BatchProcessor_chunk \<Rightarrow> (string \<Rightarrow> string list) \<Rightarrow> ('m DocChunk \<Rightarrow> nat \<Rightarrow> bool) \<Rightarrow> 'm Document list \<Rightarrow>
     nat list \<Rightarrow> BatchProcessor_chunk \<times> (chunk_error + ProcessingMetrics_chunk \<times> (rat \<times> ProcessingMetrics_chunk) list)"
where
  "processBatch_chunk bp split ok docs \<sigma> =
     (let allChunks = split_docs split docs [];
          bp1 = map_metrics (\<lambda>m. m\<lparr>totalChunks := length allChunks\<rparr>) bp;
          batches = lodash_chunk (js_or (Some (chunk_batchSize (options bp))) 10) allChunks
      in if \<not> plimit_valid (batch_limit bp) then (bp1, Inl InvalidConcurrency)
         else case run_schedule bp1 ok batches \<sigma> of
                (bp2, cbs) \<Rightarrow> (bp2, Inr (chunk_metrics bp2, cbs)))"

text \<open>The batches \<open>processBatch\<close> forms, and the limit it runs them under.\<close>

definition batches_of ::
  "BatchProcessor_chunk \<Rightarrow> (string \<Rightarrow> string list) \<Rightarrow> 'm Document list \<Rightarrow> 'm DocChunk list list" where
  "batches_of bp split docs = lodash_chunk (js_or (Some (chunk_batchSize (options bp))) 10) (split_docs split docs [])"

subsection \<open>processLargeDocument\<close>

text \<open>
  One batch of \<open>processLargeDocument\<close>: every chunk runs (\<open>Promise.all\<close>); a failure counts
  \<open>failedChunks\<close> and \<open>retryCount\<close> and throws once \<open>retryCount > (maxRetries || 3)\<close>.
  The caller's chunk processor \<open>proc\<close> works on a state \<open>'s\<close> of its own (the
  processors of the YouTube pipeline process videos); it returns the new state and whether
  the chunk succeeded, or \<open>None\<close> when it never settles.  The chunks of a batch run one
  after the other in index order.  The boolean of the result says whether some chunk of the
  batch threw.
\<close>

fun large_batch ::
  "BatchProcessor_chunk \<Rightarrow> 's \<Rightarrow> ('s \<Rightarrow> string \<Rightarrow> int \<Rightarrow> ('s \<times> bool) option) \<Rightarrow> int \<Rightarrow> nat \<Rightarrow> nat \<Rightarrow>
     string list \<Rightarrow> (BatchProcessor_chunk \<times> 's \<times> bool) option"
where
  "large_batch bp st proc bsz bi j [] = Some (bp, st, False)"
| "large_batch bp st proc bsz bi j (ch # chs) =
     (case proc st ch (int bi * bsz + int j) of
        None \<Rightarrow> None
      | Some (st1, ok) \<Rightarrow>
          if ok
          then large_batch (map_metrics (\<lambda>m. m\<lparr>processedChunks := Suc (processedChunks m)\<rparr>) bp) st1 proc bsz bi (Suc j) chs
          else
            (let bp1 = map_metrics (\<lambda>m. m\<lparr>failedChunks := Suc (failedChunks m), retryCount := Suc (retryCount m)\<rparr>) bp;
                 threw = int (retryCount (chunk_metrics bp1)) > js_or (Some (chunk_maxRetries (options bp))) 3
             in case large_batch bp1 st1 proc bsz bi (Suc j) chs of
                  None \<Rightarrow> None
                | Some (bp2, st2, t) \<Rightarrow> Some (bp2, st2, threw \<or> t)))"

text \<open>\<open>for (const [batchIndex, batch] of batches.entries()) await Promise.all(...)\<close>.\<close>

fun large_batches ::
  "BatchProcessor_chunk \<Rightarrow> 's \<Rightarrow> ('s \<Rightarrow> string \<Rightarrow> int \<Rightarrow> ('s \<times> bool) option) \<Rightarrow> int \<Rightarrow> nat \<Rightarrow>
     string list list \<Rightarrow> (BatchProcessor_chunk \<times> 's \<times> bool) option"
where
  "large_batches bp st proc bsz bi [] = Some (bp, st, False)"
| "large_batches bp st proc bsz bi (b # bs) =
     (case large_batch bp st proc bsz bi 0 b of
        None \<Rightarrow> None
      | Some (bp1, st1, threw) \<Rightarrow> if threw then Some (bp1, st1, True) else large_batches bp1 st1 proc bsz (Suc bi) bs)"

text \<open>
  \<open>processLargeDocument(text, metadata, chunkProcessor)\<close>: \<open>None\<close> is the batching loop
  not ending within the fuel, or a chunk processor that never settles.
\<close>

definition processLargeDocument ::
  "nat \<Rightarrow> BatchProcessor_chunk \<Rightarrow> 's \<Rightarrow> (string \<Rightarrow> string list) \<Rightarrow> ('s \<Rightarrow> string \<Rightarrow> int \<Rightarrow> ('s \<times> bool) option) \<Rightarrow>
     string \<Rightarrow> (BatchProcessor_chunk \<times> 's \<times> (chunk_error + ProcessingMetrics_chunk)) option"
where
  "processLargeDocument fuel bp st split proc txt =
     (let chs = split txt;
          bp1 = map_metrics (\<lambda>m. m\<lparr>totalChunks := length chs\<rparr>) bp;
          bsz = js_or (Some (chunk_batchSize (options bp))) 10
      in case slice_loop fuel bsz chs 0 of
           None \<Rightarrow> None
         | Some bs \<Rightarrow>
             (case large_batches bp1 st proc bsz 0 bs of
                None \<Rightarrow> None
              | Some (bp2, st2, threw) \<Rightarrow>
                  Some (bp2, st2, if threw then Inl TooManyFailedChunks else Inr (chunk_metrics bp2))))"

text \<open>A chunk processor without state of its own, from a success oracle.\<close>

definition pure_proc :: "(string \<Rightarrow> int \<Rightarrow> bool) \<Rightarrow> unit \<Rightarrow> string \<Rightarrow> int \<Rightarrow> (unit \<times> bool) option" where
  "pure_proc ok st ch i = Some ((), ok ch i)"

definition default_chunk_options :: BatchProcessingOptions where
  "default_chunk_options =
     \<lparr>chunkSize_opt = None, overlapSize_opt = None, batchSize_opt = None, concurrentBatches_opt = None,
      maxRetries_opt = None, retryDelay_opt = None\<rparr>"


subsection \<open>Example inputs\<close>

text \<open>A splitter that makes every character a chunk, and documents for the examples.\<close>

definition char_split :: "string \<Rightarrow> string list" where
  "char_split t = map (\<lambda>c. [c]) t"

definition example_docs :: "nat \<Rightarrow> unit Document list" where
  "example_docs n = [\<lparr>doc_text = replicate n CHR ''a'', metadata = ()\<rparr>]"

subsection \<open>The effect of chunks on the metrics\<close>

definition cbump :: "nat \<Rightarrow> nat \<Rightarrow> ProcessingMetrics_chunk \<Rightarrow> ProcessingMetrics_chunk" where
  "cbump p f m = m\<lparr>processedChunks := processedChunks m + p, failedChunks := failedChunks m + f\<rparr>"

lemma cbump_0 [simp]: "cbump 0 0 m = m"
  by (simp add: cbump_def)

lemma cbump_cbump [simp]: "cbump p f (cbump p' f' m) = cbump (p + p') (f + f') m"
  by (simp add: cbump_def ac_simps)

lemma cbump_fields [simp]:
  "processedChunks (cbump p f m) = processedChunks m + p"
  "failedChunks (cbump p f m) = failedChunks m + f"
  "totalChunks (cbump p f m) = totalChunks m"
  "retryCount (cbump p f m) = retryCount m"
  by (simp_all add: cbump_def)

lemma map_metrics_simps [simp]:
  "options (map_metrics f bp) = options bp"
  "chunk_metrics (map_metrics f bp) = f (chunk_metrics bp)"
  "map_metrics g (map_metrics f bp) = map_metrics (g \<circ> f) bp"
  by (simp_all add: map_metrics_def)

lemma map_metrics_id [simp]: "map_metrics (\<lambda>m. m) bp = bp"
  by (simp add: map_metrics_def)

lemma cbump_comp [simp]: "cbump p f \<circ> cbump p' f' = cbump (p + p') (f + f')"
  by (simp add: fun_eq_iff)

text \<open>\<open>processChunkWithRetry\<close> is the reference outcome, one counter, and doubling waits.\<close>

lemma processChunkWithRetry_eq:
  "processChunkWithRetry bp ok c k =
     (let (r, n) = retry_outcome (js_or (Some (chunk_maxRetries (options bp))) 3) ok c k
      in (map_metrics (cbump (if r then 1 else 0) (if r then 0 else 1)) bp, r,
          map (\<lambda>j. js_or (Some (chunk_retryDelay (options bp))) 1000 * 2 ^ j) [k..<k + n]))"
proof (induction bp ok c k rule: processChunkWithRetry.induct)
  case (1 bp ok c k)
  let ?mr = "js_or (Some (chunk_maxRetries (options bp))) 3"
  show ?case
  proof (cases "ok c k")
    case True
    then show ?thesis
      by (simp add: processChunkWithRetry.simps [of bp ok c k] retry_outcome.simps [of _ ok c k]
          cbump_def map_metrics_def)
  next
    case False
    show ?thesis
    proof (cases "int k < ?mr")
      case True
      obtain r n where o: "retry_outcome ?mr ok c (Suc k) = (r, n)" by fastforce
      have "[k..<k + Suc n] = k # [Suc k..<Suc k + n]" by (simp add: upt_rec)
      with "1.IH" [OF False True] o False True show ?thesis
        by (simp add: processChunkWithRetry.simps [of bp ok c k] retry_outcome.simps [of _ ok c k])
    next
      case False
      with \<open>\<not> ok c k\<close> show ?thesis
        by (simp add: processChunkWithRetry.simps [of bp ok c k] retry_outcome.simps [of _ ok c k]
            cbump_def map_metrics_def)
    qed
  qed
qed

text \<open>A list of chunks adds its successes and its failures to the counters.\<close>

lemma processChunks_eq:
  "processChunks bp ok cs =
     map_metrics (cbump (length (filter (\<lambda>c. fst (retry_outcome (js_or (Some (chunk_maxRetries (options bp))) 3) ok c 0)) cs))
                        (length (filter (\<lambda>c. \<not> fst (retry_outcome (js_or (Some (chunk_maxRetries (options bp))) 3) ok c 0)) cs))) bp"
proof (induction cs arbitrary: bp)
  case (Cons c cs)
  obtain r n where o: "retry_outcome (js_or (Some (chunk_maxRetries (options bp))) 3) ok c 0 = (r, n)"
    by fastforce
  from Cons.IH [of "map_metrics (cbump (if r then 1 else 0) (if r then 0 else 1)) bp"] o show ?case
    by (simp add: processChunks_def processChunkWithRetry_eq ac_simps)
qed (simp add: processChunks_def)

lemma processChunks_append:
  "processChunks bp ok (xs @ ys) = processChunks (processChunks bp ok xs) ok ys"
  by (simp add: processChunks_def)

lemma processChunks_perm:
  assumes "mset xs = mset ys"
  shows "processChunks bp ok xs = processChunks bp ok ys"
proof -
  have "length (filter P xs) = length (filter P ys)" for P
    using assms by (metis mset_filter size_mset)
  then show ?thesis by (simp add: processChunks_eq)
qed

lemma run_schedule_Cons:
  "run_schedule bp ok bs (i # \<sigma>) =
     (fst (run_schedule (processChunks bp ok (bs ! i)) ok bs \<sigma>),
      (progress i (length bs), chunk_metrics (processChunks bp ok (bs ! i))) #
        snd (run_schedule (processChunks bp ok (bs ! i)) ok bs \<sigma>))"
  by (simp add: Let_def split: prod.split)

lemma run_schedule_fst:
  "fst (run_schedule bp ok bs \<sigma>) = processChunks bp ok (concat (map ((!) bs) \<sigma>))"
  by (induction \<sigma> arbitrary: bp)
    (simp_all add: run_schedule_Cons processChunks_append processChunks_def del: run_schedule.simps(2))

lemma run_schedule_progress:
  "map fst (snd (run_schedule bp ok bs \<sigma>)) = map (\<lambda>i. progress i (length bs)) \<sigma>"
  by (induction \<sigma> arbitrary: bp) (simp_all add: run_schedule_Cons del: run_schedule.simps(2))

lemma length_run_schedule [simp]: "length (snd (run_schedule bp ok bs \<sigma>)) = length \<sigma>"
  by (induction \<sigma> arbitrary: bp) (simp_all add: run_schedule_Cons del: run_schedule.simps(2))

lemma mset_concat_map: "mset (concat (map f xs)) = (\<Sum>x \<in># mset xs. mset (f x))"
  by (induction xs) simp_all

lemma valid_schedule_mset: "valid_schedule n nb \<sigma> \<Longrightarrow> mset \<sigma> = mset [0..<nb]"
  unfolding valid_schedule_def by (metis mset_sort)

lemma valid_schedule_chunks:
  assumes "valid_schedule n (length bs) \<sigma>"
  shows "mset (concat (map ((!) bs) \<sigma>)) = mset (concat bs)"
proof -
  have "concat bs = concat (map ((!) bs) [0..<length bs])" by (simp add: map_nth)
  with valid_schedule_mset [OF assms] show ?thesis by (simp only: mset_concat_map)
qed

lemma processBatch_valid:
  "plimit_valid (batch_limit bp) \<Longrightarrow>
     processBatch_chunk bp split ok docs \<sigma> =
       (let bp1 = map_metrics (\<lambda>m. m\<lparr>totalChunks := length (split_docs split docs [])\<rparr>) bp;
            r = run_schedule bp1 ok (batches_of bp split docs) \<sigma>
        in (fst r, Inr (chunk_metrics (fst r), snd r)))"
  by (simp add: processBatch_chunk_def batches_of_def Let_def split: prod.split)

lemma concat_batches_of:
  "1 \<le> js_or (Some (chunk_batchSize (options bp))) 10 \<Longrightarrow> concat (batches_of bp split docs) = split_docs split docs []"
  by (simp add: batches_of_def lodash_chunk_def)

subsection \<open>Properties of the chunk pipeline\<close>

text \<open>
  C13: the back-off of \<open>processChunkWithRetry\<close> doubles: the waits before the retries are
  \<open>retryDelay * 2^j\<close> for \<open>j = 0, 1, \<dots>\<close>.  With the defaults a chunk that fails twice and
  then succeeds waits 1000 ms, then 2000 ms, and is counted as processed.
\<close>

theorem processChunkWithRetry_backoff:
  "(\<exists>n. snd (snd (processChunkWithRetry bp ok c 0)) =
          map (\<lambda>j. js_or (Some (chunk_retryDelay (options bp))) 1000 * 2 ^ j) [0..<n]) \<and>
   processChunkWithRetry (newChunkBatchProcessor default_chunk_options) (\<lambda>c k. 2 \<le> k) c 0 =
     ((newChunkBatchProcessor default_chunk_options)\<lparr>chunk_metrics := zero_metrics\<lparr>processedChunks := 1\<rparr>\<rparr>,
      True, [1000, 2000])"
proof
  show "\<exists>n. snd (snd (processChunkWithRetry bp ok c 0)) =
          map (\<lambda>j. js_or (Some (chunk_retryDelay (options bp))) 1000 * 2 ^ j) [0..<n]"
  proof -
    obtain r n where o: "retry_outcome (js_or (Some (chunk_maxRetries (options bp))) 3) ok c 0 = (r, n)"
      by fastforce
    show ?thesis
      by (intro exI [of _ n]) (simp add: processChunkWithRetry_eq o del: js_or_simps)
  qed
  show "processChunkWithRetry (newChunkBatchProcessor default_chunk_options) (\<lambda>c k. 2 \<le> k) c 0 =
     ((newChunkBatchProcessor default_chunk_options)\<lparr>chunk_metrics := zero_metrics\<lparr>processedChunks := 1\<rparr>\<rparr>,
      True, [1000, 2000])"
    by (simp add: processChunkWithRetry_eq retry_outcome.simps newChunkBatchProcessor_def
        normalize_chunk_options_def default_chunk_options_def zero_metrics_def cbump_def map_metrics_def
        numeral_eq_Suc upt_rec)
qed

lemma valid_schedule_set: "valid_schedule n nb \<sigma> \<Longrightarrow> set \<sigma> = {..<nb}"
  using valid_schedule_mset [of n nb \<sigma>] by (metis atLeast_upt set_mset_mset)

lemma processBatch_resolves:
  assumes "plimit_valid (batch_limit bp)"
  shows "processBatch_chunk bp split ok docs \<sigma> =
           (fst (run_schedule (map_metrics (\<lambda>m. m\<lparr>totalChunks := length (split_docs split docs [])\<rparr>) bp)
                   ok (batches_of bp split docs) \<sigma>),
            Inr (chunk_metrics (fst (run_schedule (map_metrics (\<lambda>m. m\<lparr>totalChunks := length (split_docs split docs [])\<rparr>) bp)
                   ok (batches_of bp split docs) \<sigma>)),
                 snd (run_schedule (map_metrics (\<lambda>m. m\<lparr>totalChunks := length (split_docs split docs [])\<rparr>) bp)
                   ok (batches_of bp split docs) \<sigma>)))"
  using assms by (simp add: processBatch_valid Let_def)

lemma run_schedule_single:
  "run_schedule bp ok [cs] [0] = (processChunks bp ok cs, [(100, chunk_metrics (processChunks bp ok cs))])"
  by (simp add: progress_def Let_def)

lemma progress_bounds: "i < n \<Longrightarrow> 0 < progress i n \<and> progress i n \<le> 100"
  by (simp add: progress_def divide_le_eq)

text \<open>
  progress is reported in completion order, not in batch order: with 23 chunks,
  batches of 10 and three concurrent batches, the last batch may complete first, and the
  callbacks then report 100, 33.3 and 66.7 percent (the spec asks for increasing
  percentages ending at 100).
\<close>

theorem processBatch_progress_not_monotone:
  "valid_schedule (batch_limit (newChunkBatchProcessor default_chunk_options))
     (length (batches_of (newChunkBatchProcessor default_chunk_options) char_split (example_docs 23))) [2, 0, 1] \<and>
   map fst (snd (run_schedule
       (map_metrics (\<lambda>m. m\<lparr>totalChunks := 23\<rparr>) (newChunkBatchProcessor default_chunk_options)) (\<lambda>c k. True)
       (batches_of (newChunkBatchProcessor default_chunk_options) char_split (example_docs 23)) [2, 0, 1])) =
     [100, 100 / 3, 200 / 3] \<and>
   processBatch_chunk (newChunkBatchProcessor default_chunk_options) char_split (\<lambda>c k. True) (example_docs 23) [2, 0, 1] =
     (fst (run_schedule
       (map_metrics (\<lambda>m. m\<lparr>totalChunks := 23\<rparr>) (newChunkBatchProcessor default_chunk_options)) (\<lambda>c k. True)
       (batches_of (newChunkBatchProcessor default_chunk_options) char_split (example_docs 23)) [2, 0, 1]),
      Inr (chunk_metrics (fst (run_schedule
       (map_metrics (\<lambda>m. m\<lparr>totalChunks := 23\<rparr>) (newChunkBatchProcessor default_chunk_options)) (\<lambda>c k. True)
       (batches_of (newChunkBatchProcessor default_chunk_options) char_split (example_docs 23)) [2, 0, 1])),
           snd (run_schedule
       (map_metrics (\<lambda>m. m\<lparr>totalChunks := 23\<rparr>) (newChunkBatchProcessor default_chunk_options)) (\<lambda>c k. True)
       (batches_of (newChunkBatchProcessor default_chunk_options) char_split (example_docs 23)) [2, 0, 1])))"
proof -
  let ?bp = "newChunkBatchProcessor default_chunk_options"
  have len: "length (split_docs char_split (example_docs 23) []) = 23"
    by (simp add: example_docs_def char_split_def)
  have n: "length (batches_of ?bp char_split (example_docs 23)) = 3"
    by (simp add: batches_of_def lodash_chunk_def newChunkBatchProcessor_def normalize_chunk_options_def
        default_chunk_options_def length_chunks len)
  have l: "batch_limit ?bp = 3" and pv: "plimit_valid (batch_limit ?bp)"
    by (simp_all add: batch_limit_def plimit_valid_def newChunkBatchProcessor_def normalize_chunk_options_def
        default_chunk_options_def)
  have "valid_schedule (batch_limit ?bp) (length (batches_of ?bp char_split (example_docs 23))) [2, 0, 1]"
    by (simp add: n l valid_schedule_def upt_rec)
  moreover have "map fst (snd (run_schedule (map_metrics (\<lambda>m. m\<lparr>totalChunks := 23\<rparr>) ?bp) (\<lambda>c k. True)
       (batches_of ?bp char_split (example_docs 23)) [2, 0, 1])) = [100, 100 / 3, 200 / 3]"
    unfolding run_schedule_progress n by (simp add: progress_def)
  moreover have "processBatch_chunk ?bp char_split (\<lambda>c k. True) (example_docs 23) [2, 0, 1] =
     (fst (run_schedule (map_metrics (\<lambda>m. m\<lparr>totalChunks := 23\<rparr>) ?bp) (\<lambda>c k. True)
        (batches_of ?bp char_split (example_docs 23)) [2, 0, 1]),
      Inr (chunk_metrics (fst (run_schedule (map_metrics (\<lambda>m. m\<lparr>totalChunks := 23\<rparr>) ?bp) (\<lambda>c k. True)
        (batches_of ?bp char_split (example_docs 23)) [2, 0, 1])),
           snd (run_schedule (map_metrics (\<lambda>m. m\<lparr>totalChunks := 23\<rparr>) ?bp) (\<lambda>c k. True)
        (batches_of ?bp char_split (example_docs 23)) [2, 0, 1])))"
    using processBatch_resolves [OF pv, of char_split "\<lambda>c k. True" "example_docs 23" "[2, 0, 1]"] len
    by simp
  ultimately show ?thesis by blast
qed

text \<open>
  under every completion order the limiter allows, \<open>processBatch\<close> resolves with
  exactly one progress callback per batch: the reported percentages are those of the
  batches \<open>0, \<dots>, n-1\<close>, each once.
\<close>

theorem processBatch_callbacks_once_per_batch:
  assumes "valid_schedule (batch_limit bp) (length (batches_of bp split docs)) \<sigma>"
    and "plimit_valid (batch_limit bp)"
  shows "\<exists>bp' m cbs. processBatch_chunk bp split ok docs \<sigma> = (bp', Inr (m, cbs)) \<and>
           mset (map fst cbs) =
             mset (map (\<lambda>i. progress i (length (batches_of bp split docs))) [0..<length (batches_of bp split docs)])"
proof -
  let ?bp1 = "map_metrics (\<lambda>m. m\<lparr>totalChunks := length (split_docs split docs [])\<rparr>) bp"
  have "mset (map (\<lambda>i. progress i (length (batches_of bp split docs))) \<sigma>) =
        mset (map (\<lambda>i. progress i (length (batches_of bp split docs))) [0..<length (batches_of bp split docs)])"
    using valid_schedule_mset [OF assms(1)] by (simp only: mset_map)
  then have eq: "mset (map fst (snd (run_schedule ?bp1 ok (batches_of bp split docs) \<sigma>))) =
        mset (map (\<lambda>i. progress i (length (batches_of bp split docs))) [0..<length (batches_of bp split docs)])"
    unfolding run_schedule_progress .
  show ?thesis
    using processBatch_resolves [OF assms(2), of split ok docs \<sigma>] eq by blast
qed

theorem processBatch_callbacks_once_per_batch_witness:
  "valid_schedule (batch_limit (newChunkBatchProcessor default_chunk_options))
     (length (batches_of (newChunkBatchProcessor default_chunk_options) char_split (example_docs 23))) [1, 0, 2] \<and>
   plimit_valid (batch_limit (newChunkBatchProcessor default_chunk_options)) \<and>
   (\<exists>bp' m cbs. processBatch_chunk (newChunkBatchProcessor default_chunk_options) char_split (\<lambda>c k. True)
        (example_docs 23) [1, 0, 2] = (bp', Inr (m, cbs)) \<and>
      mset (map fst cbs) =
        mset (map (\<lambda>i. progress i (length (batches_of (newChunkBatchProcessor default_chunk_options) char_split (example_docs 23))))
           [0..<length (batches_of (newChunkBatchProcessor default_chunk_options) char_split (example_docs 23))]))"
proof -
  let ?bp = "newChunkBatchProcessor default_chunk_options"
  have len: "length (split_docs char_split (example_docs 23) []) = 23"
    by (simp add: example_docs_def char_split_def)
  have n: "length (batches_of ?bp char_split (example_docs 23)) = 3"
    by (simp add: batches_of_def lodash_chunk_def newChunkBatchProcessor_def normalize_chunk_options_def
        default_chunk_options_def length_chunks len)
  have l: "batch_limit ?bp = 3" and pv: "plimit_valid (batch_limit ?bp)"
    by (simp_all add: batch_limit_def plimit_valid_def newChunkBatchProcessor_def normalize_chunk_options_def
        default_chunk_options_def)
  have v: "valid_schedule (batch_limit ?bp) (length (batches_of ?bp char_split (example_docs 23))) [1, 0, 2]"
    by (simp add: n l valid_schedule_def upt_rec)
  from v pv processBatch_callbacks_once_per_batch [OF v pv, of "\<lambda>c k. True"] show ?thesis by blast
qed

text \<open>
  C15: every progress value \<open>processBatch\<close> reports lies in \<open>(0, 100]\<close>, whatever the
  completion order.
\<close>

theorem processBatch_progress_bounds:
  assumes "valid_schedule (batch_limit bp) (length (batches_of bp split docs)) \<sigma>"
    and "processBatch_chunk bp split ok docs \<sigma> = (bp', Inr (m, cbs))"
  shows "\<forall>(p, snap) \<in> set cbs. 0 < p \<and> p \<le> 100"
proof -
  have pv: "plimit_valid (batch_limit bp)"
  proof (rule ccontr)
    assume "\<not> plimit_valid (batch_limit bp)"
    with assms(2) show False by (simp add: processBatch_chunk_def Let_def)
  qed
  let ?bp1 = "map_metrics (\<lambda>m. m\<lparr>totalChunks := length (split_docs split docs [])\<rparr>) bp"
  let ?n = "length (batches_of bp split docs)"
  from processBatch_resolves [OF pv, of split ok docs \<sigma>] assms(2)
  have "cbs = snd (run_schedule ?bp1 ok (batches_of bp split docs) \<sigma>)" by simp
  then have "map fst cbs = map (\<lambda>i. progress i ?n) \<sigma>" by (simp add: run_schedule_progress)
  then have "fst ` set cbs = (\<lambda>i. progress i ?n) ` set \<sigma>" by (metis list.set_map)
  with valid_schedule_set [OF assms(1)] have "\<forall>p \<in> fst ` set cbs. 0 < p \<and> p \<le> 100"
    using progress_bounds by auto
  then show ?thesis by auto
qed

theorem processBatch_progress_bounds_witness:
  "valid_schedule (batch_limit (newChunkBatchProcessor default_chunk_options))
     (length (batches_of (newChunkBatchProcessor default_chunk_options) char_split (example_docs 5))) [0] \<and>
   processBatch_chunk (newChunkBatchProcessor default_chunk_options) char_split (\<lambda>c k. True) (example_docs 5) [0] =
     ((newChunkBatchProcessor default_chunk_options)\<lparr>chunk_metrics := zero_metrics\<lparr>totalChunks := 5, processedChunks := 5\<rparr>\<rparr>,
      Inr (zero_metrics\<lparr>totalChunks := 5, processedChunks := 5\<rparr>,
           [(100, zero_metrics\<lparr>totalChunks := 5, processedChunks := 5\<rparr>)])) \<and>
   0 < (100::rat) \<and> (100::rat) \<le> 100"
proof -
  let ?bp = "newChunkBatchProcessor default_chunk_options"
  let ?m = "zero_metrics\<lparr>totalChunks := 5, processedChunks := 5\<rparr>"
  have b: "batches_of ?bp char_split (example_docs 5) = [split_docs char_split (example_docs 5) []]"
    by (simp add: batches_of_def lodash_chunk_def newChunkBatchProcessor_def normalize_chunk_options_def
        default_chunk_options_def example_docs_def char_split_def chunks_step numeral_eq_Suc)
  have v: "valid_schedule (batch_limit ?bp) (length (batches_of ?bp char_split (example_docs 5))) [0]"
    unfolding b by (simp add: valid_schedule_def batch_limit_def newChunkBatchProcessor_def
        normalize_chunk_options_def default_chunk_options_def)
  have pv: "plimit_valid (batch_limit ?bp)"
    by (simp add: plimit_valid_def batch_limit_def newChunkBatchProcessor_def normalize_chunk_options_def
        default_chunk_options_def)
  have r: "processBatch_chunk ?bp char_split (\<lambda>c k. True) (example_docs 5) [0] =
             (?bp\<lparr>chunk_metrics := ?m\<rparr>, Inr (?m, [(100, ?m)]))"
    using processBatch_resolves [OF pv, of char_split _ "example_docs 5" "[0]"]
    unfolding b run_schedule_single
    by (simp add: processChunks_eq retry_outcome.simps newChunkBatchProcessor_def normalize_chunk_options_def
        default_chunk_options_def zero_metrics_def cbump_def map_metrics_def example_docs_def char_split_def
        numeral_eq_Suc)
  from processBatch_progress_bounds [OF v r] have "0 < (100::rat) \<and> (100::rat) \<le> 100" by simp
  with v r show ?thesis by blast
qed

text \<open>
  C14: when \<open>processBatch\<close> resolves with batches of at least one chunk, every chunk was
  counted once, as processed or as failed, on top of the counts the processor already
  had: \<open>processed + failed\<close> grows by exactly \<open>totalChunks\<close>.  On fresh metrics this is the
  spec's \<open>processed + failed = total\<close>.
\<close>

theorem processBatch_counts:
  assumes "valid_schedule (batch_limit bp) (length (batches_of bp split docs)) \<sigma>"
    and "1 \<le> js_or (Some (chunk_batchSize (options bp))) 10"
    and "processBatch_chunk bp split ok docs \<sigma> = (bp', Inr (m, cbs))"
  shows "m = chunk_metrics bp' \<and> totalChunks m = length (split_docs split docs []) \<and>
         processedChunks m + failedChunks m =
           processedChunks (chunk_metrics bp) + failedChunks (chunk_metrics bp) + totalChunks m"
proof -
  have pv: "plimit_valid (batch_limit bp)"
  proof (rule ccontr)
    assume "\<not> plimit_valid (batch_limit bp)"
    with assms(3) show False by (simp add: processBatch_chunk_def Let_def)
  qed
  let ?bs = "batches_of bp split docs"
  let ?bp1 = "map_metrics (\<lambda>m. m\<lparr>totalChunks := length (split_docs split docs [])\<rparr>) bp"
  let ?cs = "concat (map ((!) ?bs) \<sigma>)"
  let ?P = "\<lambda>c. fst (retry_outcome (js_or (Some (chunk_maxRetries (options bp))) 3) ok c 0)"
  from processBatch_resolves [OF pv, of split ok docs \<sigma>] assms(3)
  have bp': "bp' = processChunks ?bp1 ok ?cs" and m: "m = chunk_metrics bp'"
    by (simp_all add: run_schedule_fst)
  have "length ?cs = length (concat ?bs)"
    using valid_schedule_chunks [OF assms(1)] by (metis size_mset)
  also have "\<dots> = length (split_docs split docs [])"
    using concat_batches_of [OF assms(2), of split docs] by simp
  finally have l: "length (filter ?P ?cs) + length (filter (\<lambda>c. \<not> ?P c) ?cs) = length (split_docs split docs [])"
    using length_filter_split [of ?P ?cs] by simp
  from bp' m l show ?thesis by (simp add: processChunks_eq)
qed

theorem processBatch_counts_witness:
  "valid_schedule (batch_limit (newChunkBatchProcessor default_chunk_options))
     (length (batches_of (newChunkBatchProcessor default_chunk_options) char_split (example_docs 5))) [0] \<and>
   1 \<le> js_or (Some (chunk_batchSize (options (newChunkBatchProcessor default_chunk_options)))) 10 \<and>
   processBatch_chunk (newChunkBatchProcessor default_chunk_options) char_split (\<lambda>c k. False)
     (example_docs 5) [0] =
     ((newChunkBatchProcessor default_chunk_options)\<lparr>chunk_metrics := zero_metrics\<lparr>totalChunks := 5, processedChunks := 0, failedChunks := 5\<rparr>\<rparr>,
      Inr (zero_metrics\<lparr>totalChunks := 5, processedChunks := 0, failedChunks := 5\<rparr>,
           [(100, zero_metrics\<lparr>totalChunks := 5, processedChunks := 0, failedChunks := 5\<rparr>)])) \<and>
   processedChunks (zero_metrics\<lparr>totalChunks := 5, processedChunks := 0, failedChunks := 5\<rparr>) +
     failedChunks (zero_metrics\<lparr>totalChunks := 5, processedChunks := 0, failedChunks := 5\<rparr>) =
   processedChunks (chunk_metrics (newChunkBatchProcessor default_chunk_options)) +
     failedChunks (chunk_metrics (newChunkBatchProcessor default_chunk_options)) +
     totalChunks (zero_metrics\<lparr>totalChunks := 5, processedChunks := 0, failedChunks := 5\<rparr>)"
proof -
  let ?bp = "newChunkBatchProcessor default_chunk_options"
  let ?m = "zero_metrics\<lparr>totalChunks := 5, processedChunks := 0, failedChunks := 5\<rparr>"
  let ?ok = "\<lambda>(c::unit DocChunk) (k::nat). False"
  have b: "batches_of ?bp char_split (example_docs 5) = [split_docs char_split (example_docs 5) []]"
    by (simp add: batches_of_def lodash_chunk_def newChunkBatchProcessor_def normalize_chunk_options_def
        default_chunk_options_def example_docs_def char_split_def chunks_step numeral_eq_Suc)
  have v: "valid_schedule (batch_limit ?bp) (length (batches_of ?bp char_split (example_docs 5))) [0]"
    unfolding b by (simp add: valid_schedule_def batch_limit_def newChunkBatchProcessor_def
        normalize_chunk_options_def default_chunk_options_def)
  have pv: "plimit_valid (batch_limit ?bp)"
    by (simp add: plimit_valid_def batch_limit_def newChunkBatchProcessor_def normalize_chunk_options_def
        default_chunk_options_def)
  have bs: "1 \<le> js_or (Some (chunk_batchSize (options ?bp))) 10"
    by (simp add: newChunkBatchProcessor_def normalize_chunk_options_def default_chunk_options_def)
  have r: "processBatch_chunk ?bp char_split ?ok (example_docs 5) [0] = (?bp\<lparr>chunk_metrics := ?m\<rparr>, Inr (?m, [(100, ?m)]))"
    using processBatch_resolves [OF pv, of char_split _ "example_docs 5" "[0]"]
    unfolding b run_schedule_single
    by (simp add: processChunks_eq retry_outcome.simps newChunkBatchProcessor_def normalize_chunk_options_def
        default_chunk_options_def zero_metrics_def cbump_def map_metrics_def example_docs_def char_split_def
        numeral_eq_Suc)
  from v bs r processBatch_counts [OF v bs r] show ?thesis by simp
qed

text \<open>
  the counters are never reset between calls: running \<open>processBatch\<close> twice on the
  same processor over five chunks reports \<open>totalChunks = 5\<close> but \<open>processedChunks = 10\<close>.
\<close>

theorem processBatch_metrics_accumulate:
  "processBatch_chunk
     (fst (processBatch_chunk (newChunkBatchProcessor default_chunk_options) char_split (\<lambda>c k. True) (example_docs 5) [0]))
     char_split (\<lambda>c k. True) (example_docs 5) [0] =
   ((newChunkBatchProcessor default_chunk_options)\<lparr>chunk_metrics := zero_metrics\<lparr>totalChunks := 5, processedChunks := 10\<rparr>\<rparr>,
    Inr (zero_metrics\<lparr>totalChunks := 5, processedChunks := 10\<rparr>,
         [(100, zero_metrics\<lparr>totalChunks := 5, processedChunks := 10\<rparr>)]))"
proof -
  let ?bp = "newChunkBatchProcessor default_chunk_options"
  have b: "batches_of bp char_split (example_docs 5) = [split_docs char_split (example_docs 5) []]"
    if "options bp = options ?bp" for bp
    using that by (simp add: batches_of_def lodash_chunk_def newChunkBatchProcessor_def normalize_chunk_options_def
        default_chunk_options_def example_docs_def char_split_def chunks_step numeral_eq_Suc)
  have pv: "plimit_valid (batch_limit bp)" if "options bp = options ?bp" for bp
    using that by (simp add: plimit_valid_def batch_limit_def newChunkBatchProcessor_def
        normalize_chunk_options_def default_chunk_options_def)
  let ?bp2 = "fst (processBatch_chunk ?bp char_split (\<lambda>c k. True) (example_docs 5) [0])"
  have first: "?bp2 = ?bp\<lparr>chunk_metrics := zero_metrics\<lparr>totalChunks := 5, processedChunks := 5\<rparr>\<rparr>"
    using processBatch_resolves [OF pv [of ?bp], of char_split "\<lambda>c k. True" "example_docs 5" "[0]"]
    unfolding b [of ?bp, OF refl] run_schedule_single
    by (simp add: processChunks_eq retry_outcome.simps newChunkBatchProcessor_def normalize_chunk_options_def
        default_chunk_options_def zero_metrics_def cbump_def map_metrics_def example_docs_def char_split_def
        numeral_eq_Suc)
  let ?bp2' = "?bp\<lparr>chunk_metrics := zero_metrics\<lparr>totalChunks := 5, processedChunks := 5\<rparr>\<rparr>"
  have b2: "batches_of ?bp2' char_split (example_docs 5) = [split_docs char_split (example_docs 5) []]"
    by (rule b) simp
  have pv2: "plimit_valid (batch_limit ?bp2')" by (rule pv) simp
  show ?thesis
    unfolding first
    using processBatch_resolves [OF pv2, of char_split "\<lambda>c k. True" "example_docs 5" "[0]"]
    unfolding b2 run_schedule_single
    by (simp add: processChunks_eq retry_outcome.simps newChunkBatchProcessor_def normalize_chunk_options_def
        default_chunk_options_def zero_metrics_def cbump_def map_metrics_def example_docs_def char_split_def
        numeral_eq_Suc)
qed

text \<open>
  \<open>chunkIndex\<close> is not the chunk's position: every chunk of a document gets the number
  of chunks before the document, so two documents of two chunks each give the indices
  \<open>0, 0, 2, 2\<close> instead of \<open>0, 1, 2, 3\<close>.
\<close>

theorem split_docs_chunkIndex:
  "map chunkIndex (split_docs char_split [\<lparr>doc_text = ''ab'', metadata = ()\<rparr>, \<lparr>doc_text = ''cd'', metadata = ()\<rparr>] []) =
     [0, 0, 2, 2]"
  by (simp add: char_split_def)

text \<open>
  \<open>maxRetries: 0\<close> does not switch retries off: \<open>||\<close> replaces the \<open>0\<close> by the default,
  so a chunk that always fails is tried four times, waiting 1000, 2000 and 4000 ms, before
  it is counted failed.
\<close>

theorem processChunkWithRetry_zero_retries_ignored:
  "processChunkWithRetry (newChunkBatchProcessor (default_chunk_options\<lparr>maxRetries_opt := Some 0\<rparr>)) (\<lambda>c k. False) c 0 =
     ((newChunkBatchProcessor (default_chunk_options\<lparr>maxRetries_opt := Some 0\<rparr>))\<lparr>chunk_metrics := zero_metrics\<lparr>failedChunks := 1\<rparr>\<rparr>,
      False, [1000, 2000, 4000])"
  by (simp add: processChunkWithRetry_eq retry_outcome.simps newChunkBatchProcessor_def normalize_chunk_options_def
      default_chunk_options_def zero_metrics_def cbump_def map_metrics_def numeral_eq_Suc upt_rec)

text \<open>
  Every call \<open>processLargeDocument\<close> makes of the chunk processor passes a chunk
  together with its index in the split text (\<open>globalIndex\<close>): a relation that every such
  call respects holds between the states before and after.
\<close>

lemma large_batch_inv:
  assumes step: "\<And>st ch k st' ok. k < length chs \<Longrightarrow> ch = chs ! k \<Longrightarrow>
                   proc st ch (int bi * bsz + int (j + k)) = Some (st', ok) \<Longrightarrow> R st st'"
    and refl: "\<And>x. R x x" and trans: "\<And>x y z. R x y \<Longrightarrow> R y z \<Longrightarrow> R x z"
    and run: "large_batch bp st proc bsz bi j chs = Some (bp', st', t)"
  shows "R st st'"
  using step run
proof (induction chs arbitrary: bp st j t)
  case Nil
  then show ?case by (simp add: refl)
next
  case (Cons c chs)
  obtain st1 ok where p: "proc st c (int bi * bsz + int j) = Some (st1, ok)"
    using Cons.prems(2) by (auto split: option.splits)
  then obtain bp1 t1 where r: "large_batch bp1 st1 proc bsz bi (Suc j) chs = Some (bp', st', t1)"
    using Cons.prems(2) by (auto simp: Let_def split: if_splits option.splits)
  have "R st st1" using Cons.prems(1) [of 0 c] p by simp
  moreover have "R st1 st'"
    by (rule Cons.IH [OF _ r]) (rule Cons.prems(1) [of "Suc _"], simp_all)
  ultimately show ?case by (rule trans)
qed

lemma large_batches_inv:
  assumes step: "\<And>st b k st' ok. b < length bs \<Longrightarrow> k < length (bs ! b) \<Longrightarrow>
                   proc st (bs ! b ! k) (int (bi + b) * bsz + int k) = Some (st', ok) \<Longrightarrow> R st st'"
    and refl: "\<And>x. R x x" and trans: "\<And>x y z. R x y \<Longrightarrow> R y z \<Longrightarrow> R x z"
    and run: "large_batches bp st proc bsz bi bs = Some (bp', st', t)"
  shows "R st st'"
  using step run
proof (induction bs arbitrary: bp st bi t)
  case Nil
  then show ?case by (simp add: refl)
next
  case (Cons b bs)
  obtain bp1 st1 threw where r1: "large_batch bp st proc bsz bi 0 b = Some (bp1, st1, threw)"
    using Cons.prems(2) by (auto split: option.splits)
  have "R st st1"
    by (rule large_batch_inv [OF _ refl trans r1]) (rule Cons.prems(1) [of 0], simp_all)
  moreover have "R st1 st'"
  proof (cases threw)
    case True
    with r1 Cons.prems(2) show ?thesis by (simp add: refl)
  next
    case False
    with r1 Cons.prems(2) have r: "large_batches bp1 st1 proc bsz (Suc bi) bs = Some (bp', st', t)" by simp
    show ?thesis
      by (rule Cons.IH [OF _ r]) (rule Cons.prems(1) [of "Suc _"], simp_all)
  qed
  ultimately show ?case by (rule trans)
qed

lemma processLargeDocument_inv:
  assumes step: "\<And>st i st' ok. i < length (split txt) \<Longrightarrow>
                   proc st (split txt ! i) (int i) = Some (st', ok) \<Longrightarrow> R st st'"
    and refl: "\<And>x. R x x" and trans: "\<And>x y z. R x y \<Longrightarrow> R y z \<Longrightarrow> R x z"
    and run: "processLargeDocument fuel bp st split proc txt = Some (bp', st', r)"
  shows "R st st'"
proof -
  define bsz where "bsz = js_or (Some (chunk_batchSize (options bp))) 10"
  obtain bs where sl: "slice_loop fuel bsz (split txt) 0 = Some bs"
    and lb: "\<exists>t. large_batches (map_metrics (\<lambda>m. m\<lparr>totalChunks := length (split txt)\<rparr>) bp) st proc bsz 0 bs
               = Some (bp', st', t)"
    using run by (auto simp: processLargeDocument_def bsz_def Let_def split: option.splits)
  then obtain t where lb: "large_batches (map_metrics (\<lambda>m. m\<lparr>totalChunks := length (split txt)\<rparr>) bp) st proc bsz 0 bs
               = Some (bp', st', t)" by blast
  show ?thesis
  proof (cases "split txt = []")
    case True
    with sl have "bs = []" by (cases fuel) simp_all
    with lb show ?thesis by (simp add: refl)
  next
    case False
    with sl have "0 < bsz" using slice_loop_nonpos [of bsz 0 "split txt" fuel] by fastforce
    then obtain n where n: "bsz = int n" "0 < n" by (metis pos_int_cases)
    with sl have bs: "bs = chunks n (split txt)" using slice_loop_Some_chunks [of fuel n _ 0] by simp
    show ?thesis
    proof (rule large_batches_inv [OF _ refl trans lb])
      fix st1 b k st2 ok
      assume "b < length bs" "k < length (bs ! b)"
        and p: "proc st1 (bs ! b ! k) (int (0 + b) * bsz + int k) = Some (st2, ok)"
      with bs nth_chunks have "b * n + k < length (split txt)" "bs ! b ! k = split txt ! (b * n + k)"
        by blast+
      with p n show "R st1 st2" using step [of "b * n + k"] by (simp add: algebra_simps)
    qed
  qed
qed

text \<open>
  \<open>processLargeDocument\<close> returns when its batch size is positive, the fuel exceeds the
  number of chunks, and the chunk processor settles on the states it is called on.
\<close>

lemma large_batch_total:
  assumes tot: "\<And>st ch i. P st \<Longrightarrow> proc st ch i \<noteq> None"
    and pres: "\<And>st ch i st' ok. P st \<Longrightarrow> proc st ch i = Some (st', ok) \<Longrightarrow> P st'"
  shows "P st \<Longrightarrow> \<exists>bp' st' t. large_batch bp st proc bsz bi j chs = Some (bp', st', t) \<and> P st'"
proof (induction chs arbitrary: bp st j)
  case Nil
  then show ?case by auto
next
  case (Cons c chs)
  from tot [OF Cons.prems] obtain st1 ok where p: "proc st c (int bi * bsz + int j) = Some (st1, ok)"
    by fast
  with pres [OF Cons.prems] have P1: "P st1" by blast
  show ?case
  proof (cases ok)
    case True
    with p Cons.IH [OF P1] show ?thesis by simp
  next
    case False
    from Cons.IH [OF P1] obtain bp2 st2 t2 where
      "large_batch (map_metrics (\<lambda>m. m\<lparr>failedChunks := Suc (failedChunks m), retryCount := Suc (retryCount m)\<rparr>) bp)
         st1 proc bsz bi (Suc j) chs = Some (bp2, st2, t2)" "P st2" by blast
    with p False show ?thesis by (simp add: Let_def)
  qed
qed

lemma large_batches_total:
  assumes tot: "\<And>st ch i. P st \<Longrightarrow> proc st ch i \<noteq> None"
    and pres: "\<And>st ch i st' ok. P st \<Longrightarrow> proc st ch i = Some (st', ok) \<Longrightarrow> P st'"
  shows "P st \<Longrightarrow> \<exists>bp' st' t. large_batches bp st proc bsz bi bs = Some (bp', st', t) \<and> P st'"
proof (induction bs arbitrary: bp st bi)
  case Nil
  then show ?case by auto
next
  case (Cons b bs)
  have "\<exists>bp1 st1 t1. large_batch bp st proc bsz bi 0 b = Some (bp1, st1, t1) \<and> P st1"
    by (rule large_batch_total [where P = P, OF _ _ Cons.prems]) (fact tot, fact pres)
  then obtain bp1 st1 t1 where r: "large_batch bp st proc bsz bi 0 b = Some (bp1, st1, t1)" "P st1" by blast
  with Cons.IH [OF r(2)] show ?case by auto
qed

lemma processLargeDocument_total:
  assumes tot: "\<And>st ch i. P st \<Longrightarrow> proc st ch i \<noteq> None"
    and pres: "\<And>st ch i st' ok. P st \<Longrightarrow> proc st ch i = Some (st', ok) \<Longrightarrow> P st'"
    and pos: "0 < chunk_batchSize (options bp)" and fuel: "length (split txt) < fuel" and P: "P st"
  shows "\<exists>bp' st' r. processLargeDocument fuel bp st split proc txt = Some (bp', st', r) \<and> P st'"
proof -
  obtain n where n: "chunk_batchSize (options bp) = int n" "0 < n"
    using pos by (metis pos_int_cases)
  with fuel have "slice_loop fuel (int n) (split txt) (int 0) = Some (chunks n (drop 0 (split txt)))"
    by (intro slice_loop_chunks) simp_all
  moreover obtain bp' st' t where
    "large_batches (map_metrics (\<lambda>m. m\<lparr>totalChunks := length (split txt)\<rparr>) bp) st proc (int n) 0
       (chunks n (split txt)) = Some (bp', st', t)" "P st'"
  proof -
    have "\<exists>bp' st' t. large_batches (map_metrics (\<lambda>m. m\<lparr>totalChunks := length (split txt)\<rparr>) bp) st proc (int n) 0
       (chunks n (split txt)) = Some (bp', st', t) \<and> P st'"
      by (rule large_batches_total [where P = P, OF _ _ P]) (fact tot, fact pres)
    then show ?thesis using that by blast
  qed
  ultimately show ?thesis using n by (simp add: processLargeDocument_def Let_def)
qed

text \<open>The batch size and the retry limit do not change while a document is processed.\<close>

lemma large_batch_options:
  "large_batch bp st proc bsz bi j chs = Some (bp', st', t) \<Longrightarrow> options bp' = options bp"
  by (induction chs arbitrary: bp st j t)
    (auto simp: Let_def map_metrics_def split: option.splits if_splits)

lemma large_batches_options:
  "large_batches bp st proc bsz bi bs = Some (bp', st', t) \<Longrightarrow> options bp' = options bp"
  by (induction bs arbitrary: bp st bi t)
    (auto dest!: large_batch_options split: option.splits if_splits)

lemma processLargeDocument_options:
  "processLargeDocument fuel bp st split proc txt = Some (bp', st', r) \<Longrightarrow> options bp' = options bp"
  by (auto simp: processLargeDocument_def Let_def map_metrics_def dest!: large_batches_options
      split: option.splits)

text \<open>
  \<open>processLargeDocument\<close> gives up once more chunks failed than \<open>maxRetries\<close>: with
  batches of two and six chunks that all fail, the second batch raises the count to four,
  the call rejects with \<open>Too many failed chunks\<close>, and the third batch never runs.
\<close>

theorem processLargeDocument_aborts:
  "processLargeDocument 10 (newChunkBatchProcessor (default_chunk_options\<lparr>batchSize_opt := Some 2\<rparr>)) () char_split
     (pure_proc (\<lambda>ch i. False)) ''abcdef'' =
   Some ((newChunkBatchProcessor (default_chunk_options\<lparr>batchSize_opt := Some 2\<rparr>))
           \<lparr>chunk_metrics := zero_metrics\<lparr>totalChunks := 6, failedChunks := 4, retryCount := 4\<rparr>\<rparr>,
         (), Inl TooManyFailedChunks)"
  by (simp add: processLargeDocument_def pure_proc_def newChunkBatchProcessor_def normalize_chunk_options_def
      default_chunk_options_def zero_metrics_def map_metrics_def char_split_def js_slice_def js_rel_index_def
      numeral_eq_Suc)

text \<open>
  C16: with a negative \<open>batchSize\<close> (which \<open>||\<close> keeps), \<open>processLargeDocument\<close> on a
  text with at least one chunk never returns: the batching loop steps backwards.
\<close>

theorem processLargeDocument_hangs:
  "chunk_batchSize (options bp) < 0 \<Longrightarrow> split txt \<noteq> [] \<Longrightarrow>
     processLargeDocument fuel bp st split proc txt = None"
  by (simp add: processLargeDocument_def Let_def slice_loop_nonpos)

theorem processLargeDocument_hangs_witness:
  "chunk_batchSize (options (newChunkBatchProcessor (default_chunk_options\<lparr>batchSize_opt := Some (-1)\<rparr>))) < 0 \<and>
   char_split ''abc'' \<noteq> [] \<and>
   processLargeDocument 1000 (newChunkBatchProcessor (default_chunk_options\<lparr>batchSize_opt := Some (-1)\<rparr>))
     () char_split (pure_proc (\<lambda>ch i. True)) ''abc'' = None"
  using processLargeDocument_hangs [of "newChunkBatchProcessor (default_chunk_options\<lparr>batchSize_opt := Some (-1)\<rparr>)"
      char_split "''abc''" 1000 "()" "pure_proc (\<lambda>ch i. True)"]
  by (simp add: newChunkBatchProcessor_def normalize_chunk_options_def default_chunk_options_def char_split_def)

text \<open>
  a negative \<open>concurrentBatches\<close> (which \<open>||\<close> keeps) makes \<open>pLimit\<close> throw: the
  call rejects after it has set \<open>totalChunks\<close>, and no chunk is processed.
\<close>

theorem processBatch_invalid_concurrency:
  "concurrentBatches (options bp) < 0 \<Longrightarrow>
     processBatch_chunk bp split ok docs \<sigma> =
       (map_metrics (\<lambda>m. m\<lparr>totalChunks := length (split_docs split docs [])\<rparr>) bp, Inl InvalidConcurrency)"
  by (simp add: processBatch_chunk_def Let_def batch_limit_def plimit_valid_def)

theorem processBatch_invalid_concurrency_witness:
  "concurrentBatches (options (newChunkBatchProcessor (default_chunk_options\<lparr>concurrentBatches_opt := Some (-2)\<rparr>))) < 0 \<and>
   processBatch_chunk (newChunkBatchProcessor (default_chunk_options\<lparr>concurrentBatches_opt := Some (-2)\<rparr>))
     char_split (\<lambda>c k. True) (example_docs 3) [0] =
     (map_metrics (\<lambda>m. m\<lparr>totalChunks := length (split_docs char_split (example_docs 3) [])\<rparr>)
        (newChunkBatchProcessor (default_chunk_options\<lparr>concurrentBatches_opt := Some (-2)\<rparr>)), Inl InvalidConcurrency)"
  using processBatch_invalid_concurrency [of "newChunkBatchProcessor (default_chunk_options\<lparr>concurrentBatches_opt := Some (-2)\<rparr>)"
      char_split "\<lambda>c k. True" "example_docs 3" "[0]"]
  by (simp add: newChunkBatchProcessor_def normalize_chunk_options_def default_chunk_options_def)

end
