(* ===== verification/Cache.thy ===== *)
theory Cache
  imports Prelude
begin

text \<open>
  The result cache of \<open>src/unnamed/part_005\<close> (class \<open>Cache\<close>): a JavaScript \<open>Map\<close> from
  keys to timestamped entries, with an enabled flag, a capacity \<open>maxSize\<close> and a
  time-to-live \<open>ttl\<close>.  The \<open>Map\<close> is an association list in insertion order, which is the
  order \<open>Map.prototype.keys()\<close> enumerates: \<open>set\<close> on a present key keeps its position,
  on a new key appends it.  \<open>Date.now()\<close> is a parameter \<open>now\<close> of every operation that
  reads the clock.  The eviction loop of \<open>set\<close> can run forever and takes fuel; the hourly
  \<open>setInterval(cleanup)\<close> is the operation \<open>cleanup\<close>, which the environment may apply at
  any moment (an event of \<open>cache_step\<close>).
\<close>

subsection \<open>Data\<close>

record CacheOptions =
  opt_enabled :: "bool option"
  opt_maxSize :: "int option"
  opt_ttl :: "int option"

record 'v CacheEntry =
  entry_value :: 'v
  timestamp :: int

record 'v Cache =
  cache :: "(string \<times> 'v CacheEntry) list"
  enabled :: bool
  maxSize :: int
  ttl :: int

subsection \<open>Operations\<close>

text \<open>\<open>new Cache(options)\<close>: every option defaulted with \<open>??\<close>; 24 hours of TTL.\<close>

definition newCache :: "CacheOptions \<Rightarrow> 'v Cache" where
  "newCache cfg =
     \<lparr>cache = [], enabled = js_nullish (opt_enabled cfg) True, maxSize = js_nullish (opt_maxSize cfg) 1000,
      ttl = js_nullish (opt_ttl cfg) (24 * 60 * 60 * 1000)\<rparr>"

text \<open>
  \<open>get(key)\<close> at time \<open>now\<close>: a miss when disabled or absent; an entry older than \<open>ttl\<close>
  is deleted and reported as a miss.
\<close>

definition get_cache :: "int \<Rightarrow> string \<Rightarrow> 'v Cache \<Rightarrow> 'v Cache \<times> 'v option" where
  "get_cache now key c =
     (if \<not> enabled c then (c, None)
      else case map_of (cache c) key of
             None \<Rightarrow> (c, None)
           | Some e \<Rightarrow>
               if now - timestamp e > ttl c then (c\<lparr>cache := map_delete key (cache c)\<rparr>, None)
               else (c, Some (entry_value e)))"

text \<open>
  \<open>while (this.cache.size >= this.maxSize) this.cache.delete(this.cache.keys().next().value)\<close>:
  on an empty map the key is \<open>undefined\<close>, the delete does nothing and the loop spins.
\<close>

fun evict :: "nat \<Rightarrow> 'v Cache \<Rightarrow> 'v Cache option" where
  "evict 0 c = None"
| "evict (Suc fuel) c =
     (if int (length (cache c)) \<ge> maxSize c
      then evict fuel (c\<lparr>cache := tl (cache c)\<rparr>)
      else Some c)"

text \<open>\<open>set(key, value)\<close> at time \<open>now\<close>: nothing when disabled; otherwise evict, then store.\<close>

definition set_cache :: "nat \<Rightarrow> int \<Rightarrow> string \<Rightarrow> 'v \<Rightarrow> 'v Cache \<Rightarrow> 'v Cache option" where
  "set_cache fuel now key v c =
     (if \<not> enabled c then Some c
      else map_option (\<lambda>c'. c'\<lparr>cache := map_set key \<lparr>entry_value = v, timestamp = now\<rparr> (cache c')\<rparr>)
             (evict fuel c))"

definition delete_cache :: "string \<Rightarrow> 'v Cache \<Rightarrow> 'v Cache" where
  "delete_cache key c = c\<lparr>cache := map_delete key (cache c)\<rparr>"

definition clear_cache :: "'v Cache \<Rightarrow> 'v Cache" where
  "clear_cache c = c\<lparr>cache := []\<rparr>"

text \<open>
  \<open>cleanup()\<close>: iterating a \<open>Map\<close> while deleting the current entry visits every other
  entry once, so the loop keeps exactly the entries that are not expired.
\<close>

definition cleanup_cache :: "int \<Rightarrow> 'v Cache \<Rightarrow> 'v Cache" where
  "cleanup_cache now c = c\<lparr>cache := filter (\<lambda>(k, e). \<not> now - timestamp e > ttl c) (cache c)\<rparr>"

record CacheStats =
  st_size :: nat
  st_maxSize :: int
  st_enabled :: bool
  st_ttl :: int

definition getStats :: "'v Cache \<Rightarrow> CacheStats" where
  "getStats c = \<lparr>st_size = length (cache c), st_maxSize = maxSize c, st_enabled = enabled c, st_ttl = ttl c\<rparr>"

subsection \<open>The cache as a sequence of calls\<close>

datatype 'v cache_op =
    Get string
  | Set string 'v
  | Delete string
  | Clear
  | Cleanup

text \<open>
  One call at time \<open>now\<close>; \<open>None\<close> is a \<open>set\<close> whose eviction loop does not end within
  the fuel, which here is one more than the map's size (enough whenever the loop ends).
\<close>

fun cache_step :: "int \<Rightarrow> 'v cache_op \<Rightarrow> 'v Cache \<Rightarrow> 'v Cache option" where
  "cache_step now (Get k) c = Some (fst (get_cache now k c))"
| "cache_step now (Set k v) c = set_cache (Suc (length (cache c))) now k v c"
| "cache_step now (Delete k) c = Some (delete_cache k c)"
| "cache_step now Clear c = Some (clear_cache c)"
| "cache_step now Cleanup c = Some (cleanup_cache now c)"

fun cache_run :: "(int \<times> 'v cache_op) list \<Rightarrow> 'v Cache \<Rightarrow> 'v Cache option" where
  "cache_run [] c = Some c"
| "cache_run ((t, op) # ops) c = Option.bind (cache_step t op c) (cache_run ops)"

text \<open>
  Well-formedness: the map's keys are distinct, and when the capacity is positive the
  map holds at most \<open>maxSize\<close> entries.
\<close>

definition cache_wf :: "'v Cache \<Rightarrow> bool" where
  "cache_wf c = (distinct (map fst (cache c)) \<and> (0 < maxSize c \<longrightarrow> int (length (cache c)) \<le> maxSize c))"

definition default_cache_options :: CacheOptions where
  "default_cache_options = \<lparr>opt_enabled = None, opt_maxSize = None, opt_ttl = None\<rparr>"

subsection \<open>The Map operations as finite maps\<close>

text \<open>The abstract content of the cache: the partial map its association list denotes.\<close>

definition cache_abs :: "'v Cache \<Rightarrow> string \<rightharpoonup> 'v CacheEntry" where
  "cache_abs c = map_of (cache c)"

lemma map_of_filter_entries:
  "distinct (map fst xs) \<Longrightarrow>
     map_of (filter (\<lambda>(k, e). Q e) xs) k =
       (case map_of xs k of None \<Rightarrow> None | Some e \<Rightarrow> if Q e then Some e else None)"
proof (induction xs)
  case (Cons p xs)
  obtain k' e' where p: "p = (k', e')" by fastforce
  with Cons.prems have "k' \<notin> fst ` set xs" by simp
  then have "k = k' \<Longrightarrow> map_of (filter (\<lambda>(k, e). Q e) xs) k = None"
    by (auto simp: map_of_eq_None_iff)
  with Cons p show ?case by auto
qed simp

text \<open>The eviction loop drops the oldest entries until one slot is free.\<close>

lemma evict_result:
  "0 < maxSize c \<Longrightarrow> length (cache c) < fuel \<Longrightarrow>
     evict fuel c = Some (c\<lparr>cache := drop (nat (int (length (cache c)) - maxSize c + 1)) (cache c)\<rparr>)"
proof (induction fuel arbitrary: c)
  case (Suc fuel)
  show ?case
  proof (cases "int (length (cache c)) \<ge> maxSize c")
    case True
    let ?c1 = "c\<lparr>cache := tl (cache c)\<rparr>"
    from True Suc.prems(1) have ne: "cache c \<noteq> []" by auto
    with Suc.prems have "length (cache ?c1) < fuel" by (cases "cache c") auto
    from Suc.IH [OF _ this] Suc.prems(1)
    have "evict fuel ?c1 = Some (?c1\<lparr>cache := drop (nat (int (length (cache ?c1)) - maxSize c + 1)) (cache ?c1)\<rparr>)"
      by simp
    moreover obtain a as where as: "cache c = a # as" using ne by (cases "cache c") auto
    moreover have "nat (int (length as) + 1 - maxSize c + 1) = Suc (nat (int (length as) - maxSize c + 1))"
      using True as by simp
    ultimately show ?thesis using True by simp
  next
    case False
    then show ?thesis by simp
  qed
qed simp

lemma evict_nonpos: "maxSize c \<le> 0 \<Longrightarrow> evict fuel c = None"
  by (induction fuel arbitrary: c) simp_all

lemma evict_fields:
  "evict fuel c = Some c' \<Longrightarrow>
     enabled c' = enabled c \<and> maxSize c' = maxSize c \<and> ttl c' = ttl c \<and>
     (\<exists>n. cache c' = drop n (cache c))"
proof (induction fuel arbitrary: c)
  case (Suc fuel)
  show ?case
  proof (cases "int (length (cache c)) \<ge> maxSize c")
    case True
    with Suc.prems have "evict fuel (c\<lparr>cache := tl (cache c)\<rparr>) = Some c'" by simp
    from Suc.IH [OF this] obtain n where "cache c' = drop n (tl (cache c))"
      and f: "enabled c' = enabled c" "maxSize c' = maxSize c" "ttl c' = ttl c" by auto
    then have "cache c' = drop (Suc n) (cache c)" by (simp add: drop_Suc)
    with f show ?thesis by blast
  next
    case False
    with Suc.prems have "c' = c" by simp
    then show ?thesis by (metis drop_0)
  qed
qed simp

lemma evict_exit: "evict fuel c = Some c' \<Longrightarrow> int (length (cache c')) < maxSize c'"
  by (induction fuel arbitrary: c) (auto split: if_splits)

lemma set_cache_result:
  "enabled c \<Longrightarrow> 0 < maxSize c \<Longrightarrow> length (cache c) < fuel \<Longrightarrow>
     set_cache fuel now k v c =
       Some (c\<lparr>cache := map_set k \<lparr>entry_value = v, timestamp = now\<rparr>
                   (drop (nat (int (length (cache c)) - maxSize c + 1)) (cache c))\<rparr>)"
  by (simp add: set_cache_def evict_result)

subsection \<open>Well-formedness is preserved\<close>

lemma wf_get_cache: "cache_wf c \<Longrightarrow> cache_wf (fst (get_cache now k c))"
  using length_map_delete_le [of k "cache c"]
  by (auto simp: get_cache_def cache_wf_def split: option.split)

lemma wf_set_cache:
  assumes wf: "cache_wf c" and s: "set_cache fuel now k v c = Some c'"
  shows "cache_wf c'"
proof (cases "enabled c")
  case True
  with s obtain c1 where ev: "evict fuel c = Some c1"
    and c': "c' = c1\<lparr>cache := map_set k \<lparr>entry_value = v, timestamp = now\<rparr> (cache c1)\<rparr>"
    by (auto simp: set_cache_def)
  from evict_fields [OF ev] obtain n where f: "maxSize c1 = maxSize c" and d: "cache c1 = drop n (cache c)"
    by blast
  from wf d have "distinct (map fst (cache c1))" by (simp add: cache_wf_def drop_map [symmetric])
  moreover from evict_exit [OF ev] have "int (length (cache c1)) < maxSize c1" .
  ultimately show ?thesis
    using c' f by (simp add: cache_wf_def length_map_set)
next
  case False
  with s wf show ?thesis by (simp add: set_cache_def)
qed

lemma wf_cache_step:
  assumes wf: "cache_wf c" and s: "cache_step now op c = Some c'"
  shows "cache_wf c'"
proof (cases op)
  case (Get k)
  with s wf_get_cache [OF wf, of now k] show ?thesis by simp
next
  case (Set k v)
  with s wf_set_cache [OF wf] show ?thesis by simp
next
  case (Delete k)
  with s wf length_map_delete_le [of k "cache c"] show ?thesis
    by (auto simp: delete_cache_def cache_wf_def)
next
  case Clear
  with s show ?thesis by (auto simp: clear_cache_def cache_wf_def)
next
  case Cleanup
  let ?P = "\<lambda>(k, e). \<not> now - timestamp e > ttl c"
  have le: "int (length (filter ?P (cache c))) \<le> int (length (cache c))" by simp
  from Cleanup s wf show ?thesis
    by (auto simp: cleanup_cache_def cache_wf_def distinct_map_filter intro: order_trans [OF le])
qed

lemma wf_cache_run: "cache_wf c \<Longrightarrow> cache_run ops c = Some c' \<Longrightarrow> cache_wf c'"
proof (induction ops arbitrary: c)
  case (Cons p ops)
  obtain t op where p: "p = (t, op)" by fastforce
  with Cons.prems obtain c1 where s: "cache_step t op c = Some c1" and r: "cache_run ops c1 = Some c'"
    by (auto split: Option.bind_splits)
  from Cons.IH [OF wf_cache_step [OF Cons.prems(1) s] r] show ?case .
qed simp

lemma wf_newCache: "cache_wf (newCache cfg)"
  by (simp add: cache_wf_def newCache_def)

subsection \<open>Properties of the cache\<close>

text \<open>
  C10: a value stored by \<open>set\<close> at time \<open>now\<close> is read back by \<open>get\<close> at time \<open>now'\<close>
  while \<open>now' - now \<le> ttl\<close>, and is dropped as expired afterwards; with a positive
  capacity the eviction loop ends within one more step than the cache has entries.
\<close>

theorem cache_set_get_roundtrip:
  assumes "enabled c" and "0 < maxSize c" and "length (cache c) < fuel"
  shows "\<exists>c'. set_cache fuel now k v c = Some c' \<and>
           get_cache now' k c' = (if now' - now \<le> ttl c then (c', Some v) else (delete_cache k c', None))"
proof -
  let ?c' = "c\<lparr>cache := map_set k \<lparr>entry_value = v, timestamp = now\<rparr>
                   (drop (nat (int (length (cache c)) - maxSize c + 1)) (cache c))\<rparr>"
  have "set_cache fuel now k v c = Some ?c'"
    using assms by (rule set_cache_result)
  moreover have "get_cache now' k ?c' = (if now' - now \<le> ttl c then (?c', Some v) else (delete_cache k ?c', None))"
    using assms(1) by (simp add: get_cache_def delete_cache_def not_less)
  ultimately show ?thesis by blast
qed

theorem cache_set_get_roundtrip_witness:
  "enabled (newCache default_cache_options :: nat Cache) \<and> 0 < maxSize (newCache default_cache_options :: nat Cache) \<and>
   length (cache (newCache default_cache_options :: nat Cache)) < 1 \<and>
   (\<exists>c'. set_cache 1 0 ''video'' (7::nat) (newCache default_cache_options) = Some c' \<and>
      get_cache 5 ''video'' c' = (if 5 - 0 \<le> ttl (newCache default_cache_options :: nat Cache) then (c', Some 7)
                                 else (delete_cache ''video'' c', None)))"
  using cache_set_get_roundtrip [of "newCache default_cache_options :: nat Cache" 1 0 "''video''" 7 5]
  by (simp add: newCache_def default_cache_options_def)

text \<open>
  C11: every cache reached from the constructor by a sequence of calls has distinct keys
  and, when its capacity is positive, at most \<open>maxSize\<close> entries.
\<close>

theorem cache_run_wf:
  "cache_run ops (newCache cfg) = Some c \<Longrightarrow> cache_wf c"
  by (rule wf_cache_run [OF wf_newCache])

theorem cache_run_wf_witness:
  "cache_run [(0, Set ''a'' (1::nat)), (1, Set ''b'' 2), (2, Set ''a'' 3)]
     (newCache (default_cache_options\<lparr>opt_maxSize := Some 2\<rparr>)) =
     Some (the (cache_run [(0, Set ''a'' (1::nat)), (1, Set ''b'' 2), (2, Set ''a'' 3)]
     (newCache (default_cache_options\<lparr>opt_maxSize := Some 2\<rparr>)))) \<and>
   cache_wf (the (cache_run [(0, Set ''a'' (1::nat)), (1, Set ''b'' 2), (2, Set ''a'' 3)]
     (newCache (default_cache_options\<lparr>opt_maxSize := Some 2\<rparr>))))"
proof -
  have run: "cache_run [(0, Set ''a'' (1::nat)), (1, Set ''b'' 2), (2, Set ''a'' 3)]
     (newCache (default_cache_options\<lparr>opt_maxSize := Some 2\<rparr>)) =
     Some (the (cache_run [(0, Set ''a'' (1::nat)), (1, Set ''b'' 2), (2, Set ''a'' 3)]
     (newCache (default_cache_options\<lparr>opt_maxSize := Some 2\<rparr>))))"
    by (simp add: newCache_def default_cache_options_def set_cache_def)
  from run cache_run_wf [OF run] show ?thesis by blast
qed

text \<open>
  C12: with a capacity of zero or less (which \<open>??\<close> keeps), the first \<open>set\<close> on an
  enabled cache never returns: the eviction loop runs on the empty map forever.
\<close>

theorem set_cache_hangs:
  "enabled c \<Longrightarrow> maxSize c \<le> 0 \<Longrightarrow> set_cache fuel now k v c = None"
  by (simp add: set_cache_def evict_nonpos)

theorem set_cache_hangs_witness:
  "enabled (newCache (default_cache_options\<lparr>opt_maxSize := Some 0\<rparr>) :: nat Cache) \<and>
   maxSize (newCache (default_cache_options\<lparr>opt_maxSize := Some 0\<rparr>) :: nat Cache) \<le> 0 \<and>
   set_cache 1000 0 ''k'' (1::nat) (newCache (default_cache_options\<lparr>opt_maxSize := Some 0\<rparr>)) = None"
  using set_cache_hangs [of "newCache (default_cache_options\<lparr>opt_maxSize := Some 0\<rparr>) :: nat Cache" 1000 0 "''k''" 1]
  by (simp add: newCache_def default_cache_options_def)

text \<open>
  eviction is first-in first-out, not least recently used: in a cache of capacity 2
  holding \<open>a\<close> then \<open>b\<close>, a hit on \<open>a\<close> does not protect it, and storing \<open>c\<close> evicts
  \<open>a\<close> while \<open>b\<close> stays.
\<close>

theorem cache_eviction_fifo:
  "let c = the (cache_run [(0, Set ''a'' (1::nat)), (1, Set ''b'' 2), (2, Get ''a''), (3, Set ''c'' 3)]
                 (newCache (default_cache_options\<lparr>opt_maxSize := Some 2\<rparr>)))
   in snd (get_cache 2 ''a'' (newCache (default_cache_options\<lparr>opt_maxSize := Some 2\<rparr>)
              \<lparr>cache := [(''a'', \<lparr>entry_value = 1, timestamp = 0\<rparr>), (''b'', \<lparr>entry_value = 2, timestamp = 1\<rparr>)]\<rparr>)) = Some 1 \<and>
      snd (get_cache 4 ''a'' c) = None \<and> snd (get_cache 4 ''b'' c) = Some 2 \<and> snd (get_cache 4 ''c'' c) = Some 3"
  by (simp add: newCache_def default_cache_options_def set_cache_def get_cache_def)

text \<open>
  overwriting a present key of a full cache still evicts: with capacity 2 holding
  \<open>a\<close> and \<open>b\<close>, \<open>set(b)\<close> drops \<open>a\<close>, although the overwrite does not grow the map.
\<close>

theorem cache_overwrite_evicts:
  "let c = the (cache_run [(0, Set ''a'' (1::nat)), (1, Set ''b'' 2), (2, Set ''b'' 5)]
                 (newCache (default_cache_options\<lparr>opt_maxSize := Some 2\<rparr>)))
   in map fst (cache c) = [''b''] \<and> snd (get_cache 3 ''a'' c) = None \<and> snd (get_cache 3 ''b'' c) = Some 5"
  by (simp add: newCache_def default_cache_options_def set_cache_def get_cache_def)

end
