(* ===== verification/CacheManager.thy ===== *)
theory CacheManager
  imports Prelude
begin

text \<open>
  The query cache of \<open>src/src/utils/smartCorrection.ts\<close> (class \<open>CacheManager\<close>,
  lines 240--426) over the \<open>node-cache\<close> library.  \<open>NodeCache\<close> is modelled as the
  library documents it: a dictionary in insertion order from keys to a value and an
  expiry time (0 for none), hit and miss counters, \<open>get\<close> deleting an expired entry,
  and \<open>set\<close> throwing \<open>ECACHEFULL\<close> (here \<open>None\<close>) when \<open>maxKeys\<close> entries exist and the
  key is new.  The SHA-256 key of a query and its filters is the pair itself (the hash
  is taken to be injective), and the key \<open>`${key}_metadata`\<close> is \<open>Meta q f\<close>: a
  hexadecimal digest never ends in \<open>_metadata\<close>, so the two kinds of key never meet.
  \<open>Date.now()\<close> is a parameter \<open>now\<close> (milliseconds); the time a \<open>get\<close> takes, which
  \<open>performance.now()\<close> measures, is a parameter \<open>dt\<close>.  The fetch function is an
  optional outcome: a value, or a rejection.

  Two simplifications.  \<open>node-cache\<close> clones what it stores and returns
  (\<open>useClones\<close>, on by default): the model stores and returns the value itself, which is
  the same for strings and plain data but not for an object with a prototype (a cloned
  \<open>Object.prototype\<close> comes back as a plain object without one).  A stored value is a
  \<open>Value\<close> or a \<open>Metadata\<close> record, never both: the source reads \<open>_accessCount\<close> from any
  cached object (lines 322--330), and a fetched value that itself carried an
  \<open>_accessCount\<close> field would be counted; the model assumes fetched values have no such field.
\<close>

subsection \<open>node-cache\<close>

datatype 'f nc_key = Plain string 'f | Meta string 'f

text \<open>What the manager stores: a fetched value, or a metadata object with its access count.\<close>

datatype 'v cm_val = Value 'v | Metadata nat

record ('k, 'v) NodeCache =
  nc_data :: "('k \<times> ('v \<times> int)) list"
  nc_stdTTL :: int
  nc_maxKeys :: int
  nc_hits :: nat
  nc_misses :: nat

definition nc_expired :: "int \<Rightarrow> int \<Rightarrow> bool" where
  "nc_expired now t = (t \<noteq> 0 \<and> t < now)"

definition nc_get ::
  "int \<Rightarrow> 'k \<Rightarrow> ('k, 'v) NodeCache \<Rightarrow> ('k, 'v) NodeCache \<times> 'v option" where
  "nc_get now k c =
     (case map_of (nc_data c) k of
        None \<Rightarrow> (c\<lparr>nc_misses := Suc (nc_misses c)\<rparr>, None)
      | Some (v, t) \<Rightarrow>
          if nc_expired now t then (c\<lparr>nc_data := map_delete k (nc_data c), nc_misses := Suc (nc_misses c)\<rparr>, None)
          else (c\<lparr>nc_hits := Suc (nc_hits c)\<rparr>, Some v))"

text \<open>\<open>set(key, value, ttl)\<close>: \<open>ttl\<close> in seconds, the standard one when absent, 0 for none.\<close>

definition nc_set ::
  "int \<Rightarrow> 'k \<Rightarrow> 'v \<Rightarrow> int option \<Rightarrow> ('k, 'v) NodeCache \<Rightarrow> ('k, 'v) NodeCache option" where
  "nc_set now k v ttl c =
     (if -1 < nc_maxKeys c \<and> int (length (nc_data c)) \<ge> nc_maxKeys c \<and> k \<notin> fst ` set (nc_data c) then None
      else (let s = js_nullish ttl (nc_stdTTL c)
            in Some (c\<lparr>nc_data := map_set k (v, if s = 0 then 0 else now + s * 1000) (nc_data c)\<rparr>)))"

definition nc_del :: "'k \<Rightarrow> ('k, 'v) NodeCache \<Rightarrow> ('k, 'v) NodeCache" where
  "nc_del k c = c\<lparr>nc_data := map_delete k (nc_data c)\<rparr>"

definition nc_flushAll :: "('k, 'v) NodeCache \<Rightarrow> ('k, 'v) NodeCache" where
  "nc_flushAll c = c\<lparr>nc_data := [], nc_hits := 0, nc_misses := 0\<rparr>"

text \<open>The library's periodic check (every \<open>checkperiod\<close> seconds) drops expired entries.\<close>

definition nc_checkData :: "int \<Rightarrow> ('k, 'v) NodeCache \<Rightarrow> ('k, 'v) NodeCache" where
  "nc_checkData now c = c\<lparr>nc_data := filter (\<lambda>(k, v, t). \<not> nc_expired now t) (nc_data c)\<rparr>"

subsection \<open>CacheManager\<close>

record CacheConfig =
  stdTTL_opt :: "int option"
  checkperiod_opt :: "int option"
  maxKeys_opt :: "int option"
  useClones_opt :: "bool option"

record CacheMetrics =
  hitRate :: js_number
  missRate :: js_number
  averageAccessTime :: js_number
  totalQueries :: nat

record CacheStats_cm =
  cs_hits :: nat
  cs_misses :: nat
  cs_keys :: nat

record ('f, 'v) CacheManager =
  cm_cache :: "('f nc_key, 'v cm_val) NodeCache"
  cm_hits :: nat
  cm_misses :: nat
  cm_totalAccessTime :: rat
  cm_queries :: nat

datatype 'v fetch_result = Fetched 'v | FetchFailed

text \<open>\<open>new CacheManager(config)\<close>: the numeric options defaulted with \<open>||\<close>.\<close>

definition newCacheManager :: "CacheConfig \<Rightarrow> ('f, 'v) CacheManager" where
  "newCacheManager cfg =
     \<lparr>cm_cache = \<lparr>nc_data = [], nc_stdTTL = js_or (stdTTL_opt cfg) 3600, nc_maxKeys = js_or (maxKeys_opt cfg) 1000,
                  nc_hits = 0, nc_misses = 0\<rparr>,
      cm_hits = 0, cm_misses = 0, cm_totalAccessTime = 0, cm_queries = 0\<rparr>"

definition generateKey :: "string \<Rightarrow> 'f \<Rightarrow> 'f nc_key" where
  "generateKey q f = Plain q f"

definition metadataKey :: "string \<Rightarrow> 'f \<Rightarrow> 'f nc_key" where
  "metadataKey q f = Meta q f"

definition updateMetrics :: "rat \<Rightarrow> ('f, 'v) CacheManager \<Rightarrow> ('f, 'v) CacheManager" where
  "updateMetrics dt cm = cm\<lparr>cm_totalAccessTime := cm_totalAccessTime cm + dt, cm_queries := Suc (cm_queries cm)\<rparr>"

text \<open>
  \<open>get(query, filters, fetchFunction, ttl)\<close>: a hit bumps the metadata's access count;
  a miss fetches and stores the value and a fresh metadata entry.  Every exception
  (the fetch rejecting, \<open>set\<close> throwing \<open>ECACHEFULL\<close>) lands in the \<open>catch\<close>, which
  counts the query and returns \<open>null\<close>.
\<close>

definition cm_get ::
  "int \<Rightarrow> rat \<Rightarrow> string \<Rightarrow> 'f \<Rightarrow> 'v fetch_result option \<Rightarrow> int option \<Rightarrow> ('f, 'v) CacheManager \<Rightarrow>
     ('f, 'v) CacheManager \<times> 'v cm_val option" where
  "cm_get now dt q f fetch ttl cm =
     (let key = generateKey q f; mkey = metadataKey q f;
          (c1, hit) = nc_get now key (cm_cache cm)
      in case hit of
           Some v \<Rightarrow>
             (let (c2, md) = nc_get now mkey c1
              in case md of
                   Some (Metadata n) \<Rightarrow>
                     (case nc_set now mkey (Metadata (Suc n)) None c2 of
                        None \<Rightarrow> (updateMetrics dt (cm\<lparr>cm_cache := c2\<rparr>), None)
                      | Some c3 \<Rightarrow> (updateMetrics dt (cm\<lparr>cm_cache := c3, cm_hits := Suc (cm_hits cm)\<rparr>), Some v))
                 | _ \<Rightarrow> (updateMetrics dt (cm\<lparr>cm_cache := c2, cm_hits := Suc (cm_hits cm)\<rparr>), Some v))
         | None \<Rightarrow>
             (let cm1 = cm\<lparr>cm_cache := c1, cm_misses := Suc (cm_misses cm)\<rparr>
              in case fetch of
                   None \<Rightarrow> (updateMetrics dt cm1, None)
                 | Some FetchFailed \<Rightarrow> (updateMetrics dt cm1, None)
                 | Some (Fetched v) \<Rightarrow>
                     (case nc_set now key (Value v) ttl c1 of
                        None \<Rightarrow> (updateMetrics dt cm1, None)
                      | Some c2 \<Rightarrow>
                          (case nc_set now mkey (Metadata 1) None c2 of
                             None \<Rightarrow> (updateMetrics dt (cm1\<lparr>cm_cache := c2\<rparr>), None)
                           | Some c3 \<Rightarrow> (updateMetrics dt (cm1\<lparr>cm_cache := c3\<rparr>), Some (Value v))))))"

text \<open>
  \<open>cleanCache()\<close>: below 70 percent of \<open>maxKeys || 1000\<close> nothing happens; otherwise every key is
  read with \<open>get\<close> (which drops the expired ones and counts hits), the keys whose value
  has a truthy \<open>_accessCount\<close> are sorted by it (a stable sort), and the first
  \<open>floor(0.3 * n)\<close> of them are deleted.
\<close>

fun access_patterns ::
  "int \<Rightarrow> 'f nc_key list \<Rightarrow> ('f nc_key, 'v cm_val) NodeCache \<Rightarrow> ('f nc_key \<times> nat) list \<Rightarrow>
     ('f nc_key, 'v cm_val) NodeCache \<times> ('f nc_key \<times> nat) list" where
  "access_patterns now [] c acc = (c, acc)"
| "access_patterns now (k # ks) c acc =
     (case nc_get now k c of
        (c1, Some (Metadata n)) \<Rightarrow> access_patterns now ks c1 (if n \<noteq> 0 then map_set k n acc else acc)
      | (c1, _) \<Rightarrow> access_patterns now ks c1 acc)"

definition cleanCache :: "int \<Rightarrow> ('f, 'v) CacheManager \<Rightarrow> ('f, 'v) CacheManager" where
  "cleanCache now cm =
     (let c = cm_cache cm; ks = map fst (nc_data c)
      in if of_nat (length ks) \<le> (of_int (js_or (Some (nc_maxKeys c)) 1000) * 7 / 10 :: rat) then cm
         else (let (c1, ap) = access_patterns now ks c [];
                   sorted = map fst (sort_key snd ap);
                   removeCount = 3 * length sorted div 10
               in cm\<lparr>cm_cache := fold nc_del (take removeCount sorted) c1\<rparr>))"

text \<open>The five-minute interval of \<open>setupAutoClean\<close>: clean above 90 percent of capacity.\<close>

definition autoClean :: "int \<Rightarrow> ('f, 'v) CacheManager \<Rightarrow> ('f, 'v) CacheManager" where
  "autoClean now cm =
     (if of_nat (length (nc_data (cm_cache cm))) > (of_int (js_or (Some (nc_maxKeys (cm_cache cm))) 1000) * 9 / 10 :: rat)
      then cleanCache now cm else cm)"

definition getMetrics_cm :: "('f, 'v) CacheManager \<Rightarrow> CacheMetrics" where
  "getMetrics_cm cm =
     \<lparr>hitRate = js_div (of_nat (cm_hits cm)) (of_nat (cm_hits cm + cm_misses cm)),
      missRate = js_div (of_nat (cm_misses cm)) (of_nat (cm_hits cm + cm_misses cm)),
      averageAccessTime = js_div (cm_totalAccessTime cm) (of_nat (cm_queries cm)),
      totalQueries = cm_queries cm\<rparr>"

definition getStats_cm :: "('f, 'v) CacheManager \<Rightarrow> CacheStats_cm" where
  "getStats_cm cm =
     \<lparr>cs_hits = nc_hits (cm_cache cm), cs_misses = nc_misses (cm_cache cm), cs_keys = length (nc_data (cm_cache cm))\<rparr>"

definition clear_cm :: "('f, 'v) CacheManager \<Rightarrow> ('f, 'v) CacheManager" where
  "clear_cm cm = cm\<lparr>cm_cache := nc_flushAll (cm_cache cm), cm_hits := 0, cm_misses := 0, cm_totalAccessTime := 0,
                    cm_queries := 0\<rparr>"

subsection \<open>The manager as a sequence of calls\<close>

text \<open>
  The calls a client makes and the timers that fire: \<open>get\<close> with its elapsed time,
  the auto-clean interval, the library's expiry check, and \<open>clear\<close>.
\<close>

datatype ('f, 'v) cm_op =
    CmGet rat string 'f "'v fetch_result option" "int option"
  | CmAutoClean
  | CmCheckData
  | CmClear

fun cm_step :: "int \<Rightarrow> ('f, 'v) cm_op \<Rightarrow> ('f, 'v) CacheManager \<Rightarrow> ('f, 'v) CacheManager" where
  "cm_step now (CmGet dt q f fetch ttl) cm = fst (cm_get now dt q f fetch ttl cm)"
| "cm_step now CmAutoClean cm = autoClean now cm"
| "cm_step now CmCheckData cm = cm\<lparr>cm_cache := nc_checkData now (cm_cache cm)\<rparr>"
| "cm_step now CmClear cm = clear_cm cm"

definition cm_run :: "(int \<times> ('f, 'v) cm_op) list \<Rightarrow> ('f, 'v) CacheManager \<Rightarrow> ('f, 'v) CacheManager" where
  "cm_run ops cm = fold (\<lambda>(t, op). cm_step t op) ops cm"

definition default_cache_config :: CacheConfig where
  "default_cache_config = \<lparr>stdTTL_opt = None, checkperiod_opt = None, maxKeys_opt = None, useClones_opt = None\<rparr>"

text \<open>
  Well-formedness of the store: keys distinct, and no more than \<open>maxKeys\<close> entries when
  that limit is not negative.
\<close>

definition nc_wf :: "('k, 'v) NodeCache \<Rightarrow> bool" where
  "nc_wf c = (distinct (map fst (nc_data c)) \<and> (-1 < nc_maxKeys c \<longrightarrow> int (length (nc_data c)) \<le> nc_maxKeys c))"

definition cm_wf :: "('f, 'v) CacheManager \<Rightarrow> bool" where
  "cm_wf cm = (nc_wf (cm_cache cm) \<and> cm_hits cm + cm_misses cm = cm_queries cm)"

subsection \<open>The store\<close>

lemma nc_get_cases:
  "nc_get now k c = (c', r) \<Longrightarrow>
     (r = None \<and> (c' = c\<lparr>nc_misses := Suc (nc_misses c)\<rparr> \<or>
                  c' = c\<lparr>nc_data := map_delete k (nc_data c), nc_misses := Suc (nc_misses c)\<rparr>)) \<or>
     (\<exists>v t. r = Some v \<and> map_of (nc_data c) k = Some (v, t) \<and> c' = c\<lparr>nc_hits := Suc (nc_hits c)\<rparr>)"
  by (auto simp: nc_get_def split: option.splits if_splits)

lemma nc_data_get:
  "nc_data (fst (nc_get now k c)) \<in> {nc_data c, map_delete k (nc_data c)}"
  by (auto simp: nc_get_def split: option.splits)

lemma nc_maxKeys_get [simp]: "nc_maxKeys (fst (nc_get now k c)) = nc_maxKeys c"
  by (auto simp: nc_get_def split: option.splits)

lemma nc_get_keeps_fresh:
  "map_of (nc_data c) k' = Some (v, t) \<Longrightarrow> \<not> nc_expired now t \<Longrightarrow>
     map_of (nc_data (fst (nc_get now k c))) k' = Some (v, t)"
  by (auto simp: nc_get_def split: option.splits)

lemma nc_set_present:
  "k \<in> fst ` set (nc_data c) \<Longrightarrow> nc_set now k v ttl c \<noteq> None"
  by (simp add: nc_set_def Let_def)

lemma nc_wf_get: "nc_wf c \<Longrightarrow> nc_wf (fst (nc_get now k c))"
  using length_map_delete_le [of k "nc_data c"]
  by (auto simp: nc_get_def nc_wf_def split: option.splits)

lemma nc_wf_set:
  assumes wf: "nc_wf c" and s: "nc_set now k v ttl c = Some c'"
  shows "nc_wf c'"
proof -
  from s obtain e where c': "c' = c\<lparr>nc_data := map_set k (v, e) (nc_data c)\<rparr>"
    and g: "\<not> (-1 < nc_maxKeys c \<and> int (length (nc_data c)) \<ge> nc_maxKeys c \<and> k \<notin> fst ` set (nc_data c))"
    by (auto simp: nc_set_def Let_def split: if_splits)
  have "-1 < nc_maxKeys c \<Longrightarrow> int (length (map_set k (v, e) (nc_data c))) \<le> nc_maxKeys c"
  proof (cases "k \<in> fst ` set (nc_data c)")
    case True
    with wf show "-1 < nc_maxKeys c \<Longrightarrow> ?thesis" by (simp add: length_map_set nc_wf_def)
  next
    case False
    with g show "-1 < nc_maxKeys c \<Longrightarrow> ?thesis" by (simp add: length_map_set)
  qed
  with wf c' show ?thesis by (simp add: nc_wf_def)
qed

lemma nc_wf_del: "nc_wf c \<Longrightarrow> nc_wf (nc_del k c)"
  using length_map_delete_le [of k "nc_data c"] by (auto simp: nc_del_def nc_wf_def)

lemma nc_wf_fold_del: "nc_wf c \<Longrightarrow> nc_wf (fold nc_del ks c)"
  by (induction ks arbitrary: c) (simp_all add: nc_wf_del)

lemma nc_wf_checkData: "nc_wf c \<Longrightarrow> nc_wf (nc_checkData now c)"
proof -
  assume wf: "nc_wf c"
  let ?P = "\<lambda>(k, v, t). \<not> nc_expired now t"
  have le: "int (length (filter ?P (nc_data c))) \<le> int (length (nc_data c))" by simp
  from wf show ?thesis
    by (auto simp: nc_checkData_def nc_wf_def distinct_map_filter intro: order_trans [OF le])
qed

lemma nc_wf_flushAll: "nc_wf c \<Longrightarrow> nc_wf (nc_flushAll c)"
  by (simp add: nc_flushAll_def nc_wf_def)

lemma access_patterns_wf:
  "nc_wf c \<Longrightarrow> nc_wf (fst (access_patterns now ks c acc))"
proof (induction now ks c acc rule: access_patterns.induct)
  case (2 now k ks c acc)
  obtain c1 r where g: "nc_get now k c = (c1, r)" by fastforce
  from nc_wf_get [OF "2.prems", of now k] g have "nc_wf c1" by simp
  with "2.IH" g show ?case by (cases r rule: option.exhaust) (auto split: cm_val.split)
qed simp

lemma access_patterns_maxKeys:
  "nc_maxKeys (fst (access_patterns now ks c acc)) = nc_maxKeys c"
proof (induction now ks c acc rule: access_patterns.induct)
  case (2 now k ks c acc)
  obtain c1 r where g: "nc_get now k c = (c1, r)" by fastforce
  from nc_maxKeys_get [of now k c] g have "nc_maxKeys c1 = nc_maxKeys c" by simp
  with "2.IH" g show ?case by (cases r rule: option.exhaust) (auto split: cm_val.split)
qed simp

lemma access_patterns_keeps_fresh:
  "map_of (nc_data c) k' = Some (v, t) \<Longrightarrow> \<not> nc_expired now t \<Longrightarrow>
     map_of (nc_data (fst (access_patterns now ks c acc))) k' = Some (v, t)"
proof (induction now ks c acc rule: access_patterns.induct)
  case (2 now k ks c acc)
  obtain c1 r where g: "nc_get now k c = (c1, r)" by fastforce
  from nc_get_keeps_fresh [OF "2.prems", of k] g have "map_of (nc_data c1) k' = Some (v, t)" by simp
  with "2.IH" "2.prems"(2) g show ?case by (cases r rule: option.exhaust) (auto split: cm_val.split)
qed simp

subsection \<open>The manager preserves its invariant\<close>

lemma nc_get_present:
  "nc_get now k c = (c', Some v) \<Longrightarrow> k \<in> fst ` set (nc_data c')"
  by (force simp: nc_get_def split: option.splits if_splits dest: map_of_SomeD)

lemma updateMetrics_wf:
  "nc_wf (cm_cache cm) \<Longrightarrow> cm_hits cm + cm_misses cm = Suc (cm_queries cm') \<Longrightarrow>
     cm_queries cm = cm_queries cm' \<Longrightarrow> cm_wf (updateMetrics dt cm)"
  by (simp add: cm_wf_def updateMetrics_def)

lemma cm_wf_get:
  assumes wf: "cm_wf cm"
  shows "cm_wf (fst (cm_get now dt q f fetch ttl cm))"
proof -
  obtain c1 hit where g1: "nc_get now (generateKey q f) (cm_cache cm) = (c1, hit)" by fastforce
  from nc_wf_get [of "cm_cache cm" now "generateKey q f"] wf g1 have wf1: "nc_wf c1"
    by (simp add: cm_wf_def)
  from wf have cnt: "cm_hits cm + cm_misses cm = cm_queries cm" by (simp add: cm_wf_def)
  show ?thesis
  proof (cases hit)
    case (Some v)
    obtain c2 md where g2: "nc_get now (metadataKey q f) c1 = (c2, md)" by fastforce
    from nc_wf_get [OF wf1, of now "metadataKey q f"] g2 have wf2: "nc_wf c2" by simp
    show ?thesis
    proof (cases "\<exists>n. md = Some (Metadata n)")
      case True
      then obtain n where md: "md = Some (Metadata n)" by blast
      from nc_get_present [of now "metadataKey q f" c1 c2] g2 md
      have "metadataKey q f \<in> fst ` set (nc_data c2)" by simp
      from nc_set_present [OF this, of now "Metadata (Suc n)" None] obtain c3 where
        s3: "nc_set now (metadataKey q f) (Metadata (Suc n)) None c2 = Some c3" by blast
      from nc_wf_set [OF wf2 s3] have "nc_wf c3" .
      with Some g1 g2 md s3 cnt show ?thesis
        by (simp add: cm_get_def cm_wf_def updateMetrics_def)
    next
      case False
      then have "(case md of Some (Metadata n) \<Rightarrow> X n | _ \<Rightarrow> Y) = Y" for X :: "nat \<Rightarrow> ('a, 'b) CacheManager \<times> 'b cm_val option" and Y
        by (auto split: option.split cm_val.split)
      with Some g1 g2 wf2 cnt show ?thesis
        by (simp add: cm_get_def cm_wf_def updateMetrics_def)
    qed
  next
    case None
    have H: "cm_wf (updateMetrics dt cm')"
      if "nc_wf (cm_cache cm')" "cm_hits cm' + cm_misses cm' = Suc (cm_queries cm')" for cm'
      using that by (simp add: cm_wf_def updateMetrics_def)
    show ?thesis
      using None g1 wf1 cnt
      by (auto simp: cm_get_def Let_def split: option.split fetch_result.split intro!: H intro: nc_wf_set)
  qed
qed

lemma cm_wf_cleanCache: "cm_wf cm \<Longrightarrow> cm_wf (cleanCache now cm)"
  by (auto simp: cleanCache_def cm_wf_def Let_def split: prod.split
      intro!: nc_wf_fold_del dest: access_patterns_wf [where now = now and ks = "map fst (nc_data (cm_cache cm))" and acc = "[]"])

lemma cm_wf_step: "cm_wf cm \<Longrightarrow> cm_wf (cm_step now op cm)"
proof (cases op)
  case CmAutoClean
  then show "cm_wf cm \<Longrightarrow> ?thesis" by (simp add: autoClean_def cm_wf_cleanCache)
next
  case CmCheckData
  then show "cm_wf cm \<Longrightarrow> ?thesis" by (simp add: cm_wf_def nc_wf_checkData)
next
  case CmClear
  then show "cm_wf cm \<Longrightarrow> ?thesis" by (simp add: cm_wf_def clear_cm_def nc_wf_flushAll)
qed (simp add: cm_wf_get)

lemma cm_wf_run: "cm_wf cm \<Longrightarrow> cm_wf (cm_run ops cm)"
  by (induction ops arbitrary: cm) (auto simp: cm_run_def cm_wf_step)

lemma cm_wf_new: "cm_wf (newCacheManager cfg)"
  by (simp add: cm_wf_def nc_wf_def newCacheManager_def)

subsection \<open>What cleanCache removes\<close>

lemma map_of_fold_del:
  "k \<notin> set ks \<Longrightarrow> map_of (nc_data (fold nc_del ks c)) k = map_of (nc_data c) k"
  by (induction ks arbitrary: c) (auto simp: nc_del_def)

lemma access_patterns_value_not_counted:
  "map_of (nc_data c) k' = Some (Value x, t) \<Longrightarrow> \<not> nc_expired now t \<Longrightarrow> k' \<notin> fst ` set acc \<Longrightarrow>
     k' \<notin> fst ` set (snd (access_patterns now ks c acc))"
proof (induction now ks c acc rule: access_patterns.induct)
  case (2 now k ks c acc)
  obtain c1 r where g: "nc_get now k c = (c1, r)" by fastforce
  from nc_get_keeps_fresh [OF "2.prems"(1,2), of k] g have fresh: "map_of (nc_data c1) k' = Some (Value x, t)"
    by simp
  have "k = k' \<Longrightarrow> r = Some (Value x)"
    using g "2.prems"(1,2) by (auto simp: nc_get_def)
  then have acc: "k' \<notin> fst ` set (case r of Some (Metadata n) \<Rightarrow> if n \<noteq> 0 then map_set k n acc else acc | _ \<Rightarrow> acc)"
    using "2.prems"(3) by (auto split: option.split cm_val.split)
  show ?case
  proof (cases "\<exists>n. r = Some (Metadata n)")
    case True
    then obtain n where r: "r = Some (Metadata n)" by blast
    from "2.IH"(3) [OF g [symmetric] r refl fresh "2.prems"(2)] acc g r show ?thesis by simp
  next
    case False
    then have "access_patterns now (k # ks) c acc = access_patterns now ks c1 acc"
      using g by (auto split: option.split cm_val.split)
    moreover have "k' \<notin> fst ` set (snd (access_patterns now ks c1 acc))"
    proof (cases r)
      case None
      from "2.IH"(1) [OF g [symmetric] None] fresh "2.prems"(2,3) show ?thesis by simp
    next
      case (Some v)
      with False obtain y where "v = Value y" by (cases v) auto
      from "2.IH"(2) [OF g [symmetric] Some this] fresh "2.prems"(2,3) show ?thesis by simp
    qed
    ultimately show ?thesis by simp
  qed
qed simp

lemma cm_get_hit:
  assumes "nc_get now (Plain q f) (cm_cache cm) = (c1, Some v)"
  shows "snd (cm_get now dt q f fetch ttl cm) = Some v"
proof -
  obtain c2 md where g2: "nc_get now (Meta q f) c1 = (c2, md)" by fastforce
  show ?thesis
  proof (cases "\<exists>n. md = Some (Metadata n)")
    case True
    then obtain n where md: "md = Some (Metadata n)" by blast
    from nc_get_present [of now "Meta q f" c1 c2] g2 md have "Meta q f \<in> fst ` set (nc_data c2)" by simp
    from nc_set_present [OF this, of now "Metadata (Suc n)" None] obtain c3 where
      "nc_set now (Meta q f) (Metadata (Suc n)) None c2 = Some c3" by blast
    with assms g2 md show ?thesis by (simp add: cm_get_def generateKey_def metadataKey_def)
  next
    case False
    then have "(case md of Some (Metadata n) \<Rightarrow> X n | _ \<Rightarrow> Y) = Y" for X :: "nat \<Rightarrow> ('a, 'b) CacheManager \<times> 'b cm_val option" and Y
      by (auto split: option.split cm_val.split)
    with assms g2 show ?thesis by (simp add: cm_get_def generateKey_def metadataKey_def)
  qed
qed

subsection \<open>Properties of the query cache\<close>



text \<open>
  C18: \<open>cleanCache\<close> never evicts a cached value: an entry holding a fetched value that has
  not expired is still there afterwards.  Only metadata entries carry \<open>_accessCount\<close>, so
  the least-accessed 30 percent it deletes are metadata entries, and the cache does not
  shrink its values (the spec asks for least-recently-used-style eviction).
\<close>

theorem cleanCache_keeps_values:
  assumes "map_of (nc_data (cm_cache cm)) k = Some (Value x, t)" and "\<not> nc_expired now t"
  shows "map_of (nc_data (cm_cache (cleanCache now cm))) k = Some (Value x, t)"
proof -
  let ?c = "cm_cache cm"
  obtain c1 ap where ap: "access_patterns now (map fst (nc_data ?c)) ?c [] = (c1, ap)" by fastforce
  from access_patterns_keeps_fresh [OF assms, of "map fst (nc_data ?c)" "[]"] ap
  have c1: "map_of (nc_data c1) k = Some (Value x, t)" by simp
  from access_patterns_value_not_counted [OF assms, of "[]" "map fst (nc_data ?c)"] ap
  have "k \<notin> fst ` set ap" by simp
  then have "k \<notin> set (take n (map fst (sort_key snd ap)))" for n
    by (auto dest: in_set_takeD)
  with c1 map_of_fold_del have
    "map_of (nc_data (fold nc_del (take n (map fst (sort_key snd ap))) c1)) k = Some (Value x, t)" for n
    by metis
  with assms(1) ap show ?thesis
    by (simp add: cleanCache_def Let_def)
qed

theorem cleanCache_keeps_values_witness:
  "map_of (nc_data (cm_cache ((newCacheManager default_cache_config)\<lparr>cm_cache :=
      \<lparr>nc_data = [(Plain ''q'' (), (Value (1::nat), 0)), (Meta ''q'' (), (Metadata 1, 0))],
       nc_stdTTL = 3600, nc_maxKeys = 2, nc_hits = 0, nc_misses = 0\<rparr>\<rparr>))) (Plain ''q'' ()) = Some (Value 1, 0) \<and>
   \<not> nc_expired 100 0 \<and>
   map_of (nc_data (cm_cache (cleanCache 100 ((newCacheManager default_cache_config)\<lparr>cm_cache :=
      \<lparr>nc_data = [(Plain ''q'' (), (Value (1::nat), 0)), (Meta ''q'' (), (Metadata 1, 0))],
       nc_stdTTL = 3600, nc_maxKeys = 2, nc_hits = 0, nc_misses = 0\<rparr>\<rparr>)))) (Plain ''q'' ()) = Some (Value 1, 0)"
proof -
  let ?cm = "(newCacheManager default_cache_config)\<lparr>cm_cache :=
      \<lparr>nc_data = [(Plain ''q'' (), (Value (1::nat), 0)), (Meta ''q'' (), (Metadata 1, 0))],
       nc_stdTTL = 3600, nc_maxKeys = 2, nc_hits = 0, nc_misses = 0\<rparr>\<rparr>"
  have a: "map_of (nc_data (cm_cache ?cm)) (Plain ''q'' ()) = Some (Value 1, 0)" by simp
  have b: "\<not> nc_expired 100 0" by (simp add: nc_expired_def)
  from a b cleanCache_keeps_values [OF a b] show ?thesis by blast
qed

text \<open>
  with one free slot, a miss whose fetch succeeds stores the value, then the
  metadata \<open>set\<close> throws \<open>ECACHEFULL\<close>; the \<open>catch\<close> returns \<open>null\<close> although the value was
  fetched and is now cached, and the query counts as a miss.
\<close>

theorem cm_get_last_slot_null:
  assumes "0 \<le> nc_maxKeys (cm_cache cm)"
    and "int (length (nc_data (cm_cache cm))) + 1 = nc_maxKeys (cm_cache cm)"
    and "Plain q f \<notin> fst ` set (nc_data (cm_cache cm))" and "Meta q f \<notin> fst ` set (nc_data (cm_cache cm))"
  shows "\<exists>cm'. cm_get now dt q f (Some (Fetched v)) ttl cm = (cm', None) \<and>
           Plain q f \<in> fst ` set (nc_data (cm_cache cm')) \<and> cm_misses cm' = Suc (cm_misses cm)"
proof -
  have nf: "map_of (nc_data (cm_cache cm)) (Plain q f) = None"
    using assms(3) by (simp add: map_of_eq_None_iff)
  let ?c1 = "(cm_cache cm)\<lparr>nc_misses := Suc (nc_misses (cm_cache cm))\<rparr>"
  let ?e = "if js_nullish ttl (nc_stdTTL (cm_cache cm)) = 0 then 0 else now + js_nullish ttl (nc_stdTTL (cm_cache cm)) * 1000"
  let ?c2 = "?c1\<lparr>nc_data := map_set (Plain q f) (Value v, ?e) (nc_data ?c1)\<rparr>"
  have g: "nc_get now (Plain q f) (cm_cache cm) = (?c1, None)" using nf by (simp add: nc_get_def)
  have s1: "nc_set now (Plain q f) (Value v) ttl ?c1 = Some ?c2"
    using assms(2,3) by (simp add: nc_set_def Let_def)
  have "length (nc_data ?c2) = Suc (length (nc_data (cm_cache cm)))"
    using assms(3) by (simp add: length_map_set)
  then have s2: "nc_set now (Meta q f) (Metadata 1) None ?c2 = None"
    using assms by (simp add: nc_set_def)
  show ?thesis
    using g s1 s2 by (simp add: cm_get_def generateKey_def metadataKey_def updateMetrics_def)
qed

theorem cm_get_last_slot_null_witness:
  "0 \<le> nc_maxKeys (cm_cache (newCacheManager (default_cache_config\<lparr>maxKeys_opt := Some 1\<rparr>) :: (unit, nat) CacheManager)) \<and>
   int (length (nc_data (cm_cache (newCacheManager (default_cache_config\<lparr>maxKeys_opt := Some 1\<rparr>) :: (unit, nat) CacheManager)))) + 1 =
     nc_maxKeys (cm_cache (newCacheManager (default_cache_config\<lparr>maxKeys_opt := Some 1\<rparr>) :: (unit, nat) CacheManager)) \<and>
   Plain ''q'' () \<notin> fst ` set (nc_data (cm_cache (newCacheManager (default_cache_config\<lparr>maxKeys_opt := Some 1\<rparr>) :: (unit, nat) CacheManager))) \<and>
   Meta ''q'' () \<notin> fst ` set (nc_data (cm_cache (newCacheManager (default_cache_config\<lparr>maxKeys_opt := Some 1\<rparr>) :: (unit, nat) CacheManager))) \<and>
   (\<exists>cm'. cm_get 0 1 ''q'' () (Some (Fetched (5::nat))) None (newCacheManager (default_cache_config\<lparr>maxKeys_opt := Some 1\<rparr>)) = (cm', None) \<and>
      Plain ''q'' () \<in> fst ` set (nc_data (cm_cache cm')) \<and>
      cm_misses cm' = Suc (cm_misses (newCacheManager (default_cache_config\<lparr>maxKeys_opt := Some 1\<rparr>) :: (unit, nat) CacheManager)))"
proof -
  let ?cm = "newCacheManager (default_cache_config\<lparr>maxKeys_opt := Some 1\<rparr>) :: (unit, nat) CacheManager"
  have a: "0 \<le> nc_maxKeys (cm_cache ?cm)" "int (length (nc_data (cm_cache ?cm))) + 1 = nc_maxKeys (cm_cache ?cm)"
    "Plain ''q'' () \<notin> fst ` set (nc_data (cm_cache ?cm))" "Meta ''q'' () \<notin> fst ` set (nc_data (cm_cache ?cm))"
    by (simp_all add: newCacheManager_def default_cache_config_def)
  from a cm_get_last_slot_null [OF a, of 0 1 "5::nat" None] show ?thesis by blast
qed

text \<open>
  a fetched value is read back: on a manager with room for the value and its
  metadata, a miss whose fetch yields \<open>v\<close> returns \<open>v\<close>, and a later \<open>get\<close> without a fetch
  function returns \<open>v\<close> from the cache until the standard TTL has passed.
\<close>

theorem cm_get_roundtrip:
  assumes "int (length (nc_data (cm_cache cm))) + 2 \<le> nc_maxKeys (cm_cache cm)"
    and "Plain q f \<notin> fst ` set (nc_data (cm_cache cm))" and "Meta q f \<notin> fst ` set (nc_data (cm_cache cm))"
    and "0 < nc_stdTTL (cm_cache cm)" and "now' \<le> now + nc_stdTTL (cm_cache cm) * 1000"
  shows "\<exists>cm'. cm_get now dt q f (Some (Fetched v)) None cm = (cm', Some (Value v)) \<and>
           snd (cm_get now' dt' q f None None cm') = Some (Value v)"
proof -
  let ?s = "nc_stdTTL (cm_cache cm)"
  let ?c1 = "(cm_cache cm)\<lparr>nc_misses := Suc (nc_misses (cm_cache cm))\<rparr>"
  let ?c2 = "?c1\<lparr>nc_data := map_set (Plain q f) (Value v, now + ?s * 1000) (nc_data ?c1)\<rparr>"
  let ?c3 = "?c2\<lparr>nc_data := map_set (Meta q f) (Metadata 1, now + ?s * 1000) (nc_data ?c2)\<rparr>"
  let ?cm' = "updateMetrics dt (cm\<lparr>cm_misses := Suc (cm_misses cm), cm_cache := ?c3\<rparr>)"
  have nf: "map_of (nc_data (cm_cache cm)) (Plain q f) = None"
    using assms(2) by (simp add: map_of_eq_None_iff)
  have g: "nc_get now (Plain q f) (cm_cache cm) = (?c1, None)" using nf by (simp add: nc_get_def)
  have s1: "nc_set now (Plain q f) (Value v) None ?c1 = Some ?c2"
    using assms(1,4) by (simp add: nc_set_def Let_def)
  have "length (nc_data ?c2) = Suc (length (nc_data (cm_cache cm)))"
    using assms(2) by (simp add: length_map_set)
  then have s2: "nc_set now (Meta q f) (Metadata 1) None ?c2 = Some ?c3"
    using assms(1,4) by (simp add: nc_set_def Let_def)
  have first: "cm_get now dt q f (Some (Fetched v)) None cm = (?cm', Some (Value v))"
    using g s1 s2 by (simp add: cm_get_def generateKey_def metadataKey_def)
  have "map_of (nc_data (cm_cache ?cm')) (Plain q f) = Some (Value v, now + ?s * 1000)"
    by (simp add: updateMetrics_def)
  moreover have "\<not> nc_expired now' (now + ?s * 1000)"
    using assms(5) by (simp add: nc_expired_def)
  ultimately have "nc_get now' (Plain q f) (cm_cache ?cm') =
                     ((cm_cache ?cm')\<lparr>nc_hits := Suc (nc_hits (cm_cache ?cm'))\<rparr>, Some (Value v))"
    by (simp add: nc_get_def)
  from cm_get_hit [OF this] first show ?thesis by blast
qed

theorem cm_get_roundtrip_witness:
  "int (length (nc_data (cm_cache (newCacheManager default_cache_config :: (unit, nat) CacheManager)))) + 2 \<le>
     nc_maxKeys (cm_cache (newCacheManager default_cache_config :: (unit, nat) CacheManager)) \<and>
   Plain ''q'' () \<notin> fst ` set (nc_data (cm_cache (newCacheManager default_cache_config :: (unit, nat) CacheManager))) \<and>
   Meta ''q'' () \<notin> fst ` set (nc_data (cm_cache (newCacheManager default_cache_config :: (unit, nat) CacheManager))) \<and>
   0 < nc_stdTTL (cm_cache (newCacheManager default_cache_config :: (unit, nat) CacheManager)) \<and>
   (60000::int) \<le> 0 + nc_stdTTL (cm_cache (newCacheManager default_cache_config :: (unit, nat) CacheManager)) * 1000 \<and>
   (\<exists>cm'. cm_get 0 2 ''q'' () (Some (Fetched (5::nat))) None (newCacheManager default_cache_config) = (cm', Some (Value 5)) \<and>
      snd (cm_get 60000 1 ''q'' () None None cm') = Some (Value 5))"
proof -
  let ?cm = "newCacheManager default_cache_config :: (unit, nat) CacheManager"
  have a: "int (length (nc_data (cm_cache ?cm))) + 2 \<le> nc_maxKeys (cm_cache ?cm)"
    "Plain ''q'' () \<notin> fst ` set (nc_data (cm_cache ?cm))" "Meta ''q'' () \<notin> fst ` set (nc_data (cm_cache ?cm))"
    "0 < nc_stdTTL (cm_cache ?cm)" "(60000::int) \<le> 0 + nc_stdTTL (cm_cache ?cm) * 1000"
    by (simp_all add: newCacheManager_def default_cache_config_def)
  from a cm_get_roundtrip [OF a, of 2 "5::nat" 1] show ?thesis by blast
qed

text \<open>
  \<open>getMetrics()\<close> on a manager that has answered no query divides zero by zero: every
  rate and the average access time are \<open>NaN\<close>.
\<close>

theorem getMetrics_fresh_nan:
  "getMetrics_cm (newCacheManager cfg) =
     \<lparr>hitRate = JNaN, missRate = JNaN, averageAccessTime = JNaN, totalQueries = 0\<rparr>"
  by (simp add: getMetrics_cm_def newCacheManager_def js_div_def)

end
