(* ===== verification/YouTubePipeline.thy ===== *)
theory YouTubePipeline
  imports Prelude WorkerPool ChunkBatch CacheManager
begin

text \<open>
  The channel pipeline of \<open>src/src/utils/workerPool.ts\<close>, lines 236--549 (class
  \<open>YouTubeProcessor\<close> of the utils directory).  It owns a \<open>CacheManager\<close>
  (theory \<open>CacheManager\<close>), the chunk \<open>BatchProcessor\<close> (theory \<open>ChunkBatch\<close>), a
  \<open>WorkerPool\<close> (theory \<open>WorkerPool\<close>), a map \<open>processingQueue\<close> of the videos being
  processed and a map \<open>channelMonitors\<close> of the channels it polls.  \<open>processVideo\<close>
  downloads a video's audio, transcribes it, cuts the transcript into chunks through the
  shared \<open>BatchProcessor\<close> and stores them, then deletes the audio file;
  \<open>processVideoBatch\<close> turns a list of videos into one text and hands it to a fresh
  \<open>BatchProcessor\<close> whose chunk processor processes \<open>videos[index]\<close>.

  The YouTube Data API, \<open>ytdl\<close>/\<open>ffmpeg\<close>, Whisper, the text splitter and the vector
  store are services: the search result is an argument of the operations that call it,
  the others are the fields of \<open>yt_services\<close>.  The files under \<open>audio/\<close> are a list of
  paths, and the calls the pipeline makes to the services are logged in \<open>yt_log\<close>, so that
  a property can say which videos were downloaded or stored.  Calls run one after the
  other: the chunks of a \<open>Promise.all\<close> batch in index order.  An \<open>async\<close> function
  runs synchronously up to its first \<open>await\<close>; \<open>processVideo\<close> keeps that order for the
  two updates of \<open>processingQueue\<close>.
\<close>

subsection \<open>Data\<close>

record VideoMetadata =
  video_id :: string
  title :: string
  description :: string
  publishedAt :: string
  channelId :: string
  channelTitle :: string

record ProcessingOptions =
  downloadAudio_opt :: "bool option"
  transcribe_opt :: "bool option"
  vectorize_opt :: "bool option"
  deleteAfterProcessing_opt :: "bool option"

text \<open>An item of \<open>youtube.search.list\<close>: \<open>id.videoId\<close> and \<open>snippet\<close>, both optional.\<close>

record search_snippet =
  sn_title :: string
  sn_description :: "string option"
  sn_publishedAt :: string
  sn_channelId :: string
  sn_channelTitle :: string

record search_item =
  item_videoId :: "string option"
  item_snippet :: "search_snippet option"

record ChannelMonitor =
  lastVideos :: "VideoMetadata list"
  monitor_options :: ProcessingOptions

text \<open>The ways a call rejects: the search request, the download, Whisper, or the chunking.\<close>

datatype yt_error = SearchFailed | DownloadFailed | TranscriptionFailed | ChunksFailed chunk_error

text \<open>The calls to the services, as logged: by video id, audio path, or chunk and title.\<close>

datatype yt_io = Download string | Transcribe string | AddDocument string string | Unlink string

record yt_services =
  download_ok :: "string \<Rightarrow> bool"
  whisper :: "string \<Rightarrow> string option"
  splitter :: "string \<Rightarrow> string list"
  addDocument_ok :: "string \<Rightarrow> string \<Rightarrow> bool"

record ('f, 'v) YouTubeProcessor_yt =
  yt_cache :: "('f, 'v) CacheManager"
  yt_batchProcessor :: BatchProcessor_chunk
  yt_workerPool :: pool
  processingQueue :: "(string \<times> (yt_error + unit)) list"
  channelMonitors :: "(string \<times> ChannelMonitor) list"
  pollingInterval :: "nat option"
  pollingIntervalMs :: int
  next_timer :: nat
  audio_files :: "string list"
  yt_dirs :: "string list"
  yt_log :: "yt_io list"

record ProcessingStatus =
  queueSize :: nat
  monitoredChannels :: "string list"
  cacheMetrics :: CacheMetrics
  processorMetrics :: ProcessingMetrics_chunk

subsection \<open>Construction\<close>

definition newYouTubeProcessor :: "('f, 'v) YouTubeProcessor_yt" where
  "newYouTubeProcessor =
     \<lparr>yt_cache = newCacheManager (default_cache_config\<lparr>stdTTL_opt := Some (24 * 60 * 60),
                                                      checkperiod_opt := Some (60 * 60)\<rparr>),
      yt_batchProcessor = newChunkBatchProcessor default_chunk_options,
      yt_workerPool = pool_init default_options,
      processingQueue = [], channelMonitors = [], pollingInterval = None,
      pollingIntervalMs = 15 * 60 * 1000, next_timer = 0, audio_files = [], yt_dirs = [], yt_log = []\<rparr>"

text \<open>\<open>initialize()\<close>: the batch processor is initialised and the directories made
  (\<open>recursive: true\<close>: an existing directory is no error).\<close>

definition initialize_yt :: "('f, 'v) YouTubeProcessor_yt \<Rightarrow> ('f, 'v) YouTubeProcessor_yt" where
  "initialize_yt s =
     s\<lparr>yt_batchProcessor := initialize (yt_batchProcessor s),
       yt_dirs := fold (\<lambda>d ds. if d \<in> set ds then ds else ds @ [d]) [''audio'', ''transcripts''] (yt_dirs s)\<rparr>"

subsection \<open>Videos of a channel\<close>

text \<open>
  \<open>getChannelVideos\<close> on the response's \<open>data.items\<close>: items with a (truthy) video id and
  a snippet, the description defaulted by \<open>|| ''\<close>.
\<close>

definition getChannelVideos :: "search_item list option \<Rightarrow> VideoMetadata list" where
  "getChannelVideos items =
     (case items of
        None \<Rightarrow> []
      | Some its \<Rightarrow>
          map (\<lambda>it. let sn = the (item_snippet it)
                    in \<lparr>video_id = the (item_videoId it), title = sn_title sn,
                        description = (if js_truthy_str (sn_description sn) then the (sn_description sn) else []),
                        publishedAt = sn_publishedAt sn, channelId = sn_channelId sn,
                        channelTitle = sn_channelTitle sn\<rparr>)
            (filter (\<lambda>it. js_truthy_str (item_videoId it) \<and> item_snippet it \<noteq> None) its))"

subsection \<open>Processing one video\<close>

definition audio_path :: "string \<Rightarrow> string" where
  "audio_path vid = ''audio/'' @ vid @ ''.mp3''"

text \<open>
  \<open>downloadAudio\<close>: an audio file already on disk is reused; otherwise the stream is
  downloaded and converted, which ends with the file or with the stream's error.
\<close>

definition downloadAudio ::
  "yt_services \<Rightarrow> string \<Rightarrow> ('f, 'v) YouTubeProcessor_yt \<Rightarrow> ('f, 'v) YouTubeProcessor_yt \<times> (yt_error + string)" where
  "downloadAudio sv vid s =
     (let p = audio_path vid
      in if p \<in> set (audio_files s) then (s, Inr p)
         else
           let s1 = s\<lparr>yt_log := yt_log s @ [Download vid]\<rparr>
           in if download_ok sv vid then (s1\<lparr>audio_files := audio_files s1 @ [p]\<rparr>, Inr p)
              else (s1, Inl DownloadFailed))"

definition transcribeAudio ::
  "yt_services \<Rightarrow> string \<Rightarrow> ('f, 'v) YouTubeProcessor_yt \<Rightarrow> ('f, 'v) YouTubeProcessor_yt \<times> (yt_error + string)" where
  "transcribeAudio sv p s =
     (let s1 = s\<lparr>yt_log := yt_log s @ [Transcribe p]\<rparr>
      in case whisper sv p of None \<Rightarrow> (s1, Inl TranscriptionFailed) | Some t \<Rightarrow> (s1, Inr t))"

definition chunk_title :: "string \<Rightarrow> int \<Rightarrow> string" where
  "chunk_title vid i = ''Transcript chunk '' @ js_int_str i @ '' for video '' @ vid"

text \<open>The chunk processor of \<open>processVideo\<close>: \<open>vectorStorage.addDocument(chunk, ...)\<close>.\<close>

definition transcript_proc ::
  "yt_services \<Rightarrow> string \<Rightarrow> ('f, 'v) YouTubeProcessor_yt \<Rightarrow> string \<Rightarrow> int \<Rightarrow> (('f, 'v) YouTubeProcessor_yt \<times> bool) option" where
  "transcript_proc sv vid st ch i =
     Some (st\<lparr>yt_log := yt_log st @ [AddDocument ch (chunk_title vid i)]\<rparr>, addDocument_ok sv ch (chunk_title vid i))"

text \<open>The vectorising step: \<open>this.batchProcessor.processLargeDocument(transcript, ...)\<close>.\<close>

definition vectorize ::
  "nat \<Rightarrow> yt_services \<Rightarrow> string \<Rightarrow> string \<Rightarrow> ('f, 'v) YouTubeProcessor_yt \<Rightarrow>
     (('f, 'v) YouTubeProcessor_yt \<times> (yt_error + unit)) option" where
  "vectorize fuel sv vid t s =
     (case processLargeDocument fuel (yt_batchProcessor s) s (splitter sv) (transcript_proc sv vid) t of
        None \<Rightarrow> None
      | Some (bp, s1, Inl e) \<Rightarrow> Some (s1\<lparr>yt_batchProcessor := bp\<rparr>, Inl (ChunksFailed e))
      | Some (bp, s1, Inr m) \<Rightarrow> Some (s1\<lparr>yt_batchProcessor := bp\<rparr>, Inr ()))"

definition unlink :: "string \<Rightarrow> ('f, 'v) YouTubeProcessor_yt \<Rightarrow> ('f, 'v) YouTubeProcessor_yt" where
  "unlink p s = s\<lparr>audio_files := remove1 p (audio_files s), yt_log := yt_log s @ [Unlink p]\<rparr>"

text \<open>
  The body of the \<open>async\<close> closure of \<open>processVideo\<close>, inside its \<open>try\<close>: the options
  defaulted to \<open>true\<close> when undefined, then download, transcription, vectorising and
  deletion, each under its guard.  The last component says whether the body reached an
  \<open>await\<close>: every step that runs awaits, and when none runs the closure completes, its
  \<open>finally\<close> included, before \<open>processVideo\<close> goes on.
\<close>

definition pv_body ::
  "nat \<Rightarrow> yt_services \<Rightarrow> ProcessingOptions \<Rightarrow> string \<Rightarrow> ('f, 'v) YouTubeProcessor_yt \<Rightarrow>
     (('f, 'v) YouTubeProcessor_yt \<times> (yt_error + unit) \<times> bool) option" where
  "pv_body fuel sv po vid s =
     (let dl = js_nullish (downloadAudio_opt po) True;
          tr = js_nullish (transcribe_opt po) True;
          vz = js_nullish (vectorize_opt po) True;
          del = js_nullish (deleteAfterProcessing_opt po) True
      in case (if dl then apsnd (map_sum id Some) (downloadAudio sv vid s) else (s, Inr None)) of
           (s1, Inl e) \<Rightarrow> Some (s1, Inl e, True)
         | (s1, Inr audioPath) \<Rightarrow>
             (case (if tr \<and> audioPath \<noteq> None then apsnd (map_sum id Some) (transcribeAudio sv (the audioPath) s1)
                    else (s1, Inr None)) of
                (s2, Inl e) \<Rightarrow> Some (s2, Inl e, True)
              | (s2, Inr transcript) \<Rightarrow>
                  (case (if vz \<and> js_truthy_str transcript then vectorize fuel sv vid (the transcript) s2
                         else Some (s2, Inr ())) of
                     None \<Rightarrow> None
                   | Some (s3, Inl e) \<Rightarrow> Some (s3, Inl e, True)
                   | Some (s3, Inr u) \<Rightarrow>
                       Some (if del \<and> audioPath \<noteq> None then unlink (the audioPath) s3 else s3, Inr (),
                             dl \<or> (tr \<and> audioPath \<noteq> None) \<or> (vz \<and> js_truthy_str transcript)
                               \<or> (del \<and> audioPath \<noteq> None)))))"

text \<open>
  \<open>processVideo(videoId, options)\<close>: a video already in \<open>processingQueue\<close> awaits the
  stored promise and returns its outcome.  Otherwise the closure starts; it is put in the
  queue when it first awaits, and its \<open>finally\<close> removes it when it settles.  A closure
  that never awaits has removed its entry before \<open>processingQueue.set\<close> runs.
\<close>

definition processVideo ::
  "nat \<Rightarrow> yt_services \<Rightarrow> ProcessingOptions \<Rightarrow> string \<Rightarrow> ('f, 'v) YouTubeProcessor_yt \<Rightarrow>
     (('f, 'v) YouTubeProcessor_yt \<times> (yt_error + unit)) option" where
  "processVideo fuel sv po vid s =
     (case map_of (processingQueue s) vid of
        Some r \<Rightarrow> Some (s, r)
      | None \<Rightarrow>
          (case pv_body fuel sv po vid s of
             None \<Rightarrow> None
           | Some (s1, r, awaited) \<Rightarrow>
               Some (s1\<lparr>processingQueue :=
                         (if awaited then map_delete vid (map_set vid r (processingQueue s1))
                          else map_set vid r (map_delete vid (processingQueue s1)))\<rparr>, r)))"

definition default_processing_options :: ProcessingOptions where
  "default_processing_options =
     \<lparr>downloadAudio_opt = None, transcribe_opt = None, vectorize_opt = None, deleteAfterProcessing_opt = None\<rparr>"

subsection \<open>Batches of videos\<close>

definition video_text :: "VideoMetadata list \<Rightarrow> string" where
  "video_text vids =
     js_join (js_newline @ js_newline)
       (map2 (\<lambda>i v. ''Video '' @ nat_str (Suc i) @ '':'' @ js_newline @ ''Title: '' @ title v @ js_newline
                     @ ''Description: '' @ description v @ js_newline)
          [0..<length vids] vids)"

text \<open>The chunk processor of \<open>processVideoBatch\<close>: \<open>videos[index]\<close>, when there is one.\<close>

definition video_proc ::
  "nat \<Rightarrow> yt_services \<Rightarrow> VideoMetadata list \<Rightarrow> ('f, 'v) YouTubeProcessor_yt \<Rightarrow> string \<Rightarrow> int \<Rightarrow>
     (('f, 'v) YouTubeProcessor_yt \<times> bool) option" where
  "video_proc fuel sv vids st ch i =
     (if 0 \<le> i \<and> nat i < length vids
      then map_option (\<lambda>(st1, r). (st1, \<not> isl r))
             (processVideo fuel sv default_processing_options (video_id (vids ! nat i)) st)
      else Some (st, True))"

definition processVideoBatch ::
  "nat \<Rightarrow> yt_services \<Rightarrow> VideoMetadata list \<Rightarrow> ('f, 'v) YouTubeProcessor_yt \<Rightarrow>
     (('f, 'v) YouTubeProcessor_yt \<times> (yt_error + unit)) option" where
  "processVideoBatch fuel sv vids s =
     (let bp0 = initialize (newChunkBatchProcessor (default_chunk_options\<lparr>batchSize_opt := Some 5\<rparr>))
      in case processLargeDocument fuel bp0 s (splitter sv) (video_proc fuel sv vids) (video_text vids) of
           None \<Rightarrow> None
         | Some (bp, s1, Inl e) \<Rightarrow> Some (s1, Inl (ChunksFailed e))
         | Some (bp, s1, Inr m) \<Rightarrow> Some (s1, Inr ()))"

fun process_batches ::
  "nat \<Rightarrow> yt_services \<Rightarrow> VideoMetadata list list \<Rightarrow> ('f, 'v) YouTubeProcessor_yt \<Rightarrow>
     (('f, 'v) YouTubeProcessor_yt \<times> (yt_error + unit)) option" where
  "process_batches fuel sv [] s = Some (s, Inr ())"
| "process_batches fuel sv (b # bs) s =
     (case processVideoBatch fuel sv b s of
        None \<Rightarrow> None
      | Some (s1, Inl e) \<Rightarrow> Some (s1, Inl e)
      | Some (s1, Inr u) \<Rightarrow> process_batches fuel sv bs s1)"

text \<open>\<open>processChannel(channelId, options)\<close>: the options are not used.\<close>

definition processChannel ::
  "nat \<Rightarrow> yt_services \<Rightarrow> search_item list option option \<Rightarrow> string \<Rightarrow> ProcessingOptions \<Rightarrow>
     ('f, 'v) YouTubeProcessor_yt \<Rightarrow> (('f, 'v) YouTubeProcessor_yt \<times> (yt_error + unit)) option" where
  "processChannel fuel sv resp cid po s =
     (case resp of
        None \<Rightarrow> Some (s, Inl SearchFailed)
      | Some items \<Rightarrow>
          (case slice_loop fuel 5 (getChannelVideos items) 0 of
             None \<Rightarrow> None
           | Some batches \<Rightarrow> process_batches fuel sv batches s))"

subsection \<open>Monitoring channels\<close>

definition startPolling :: "('f, 'v) YouTubeProcessor_yt \<Rightarrow> ('f, 'v) YouTubeProcessor_yt" where
  "startPolling s = s\<lparr>pollingInterval := Some (next_timer s), next_timer := Suc (next_timer s)\<rparr>"

definition stopPolling :: "('f, 'v) YouTubeProcessor_yt \<Rightarrow> ('f, 'v) YouTubeProcessor_yt" where
  "stopPolling s = (case pollingInterval s of None \<Rightarrow> s | Some t \<Rightarrow> s\<lparr>pollingInterval := None\<rparr>)"

definition monitorChannel ::
  "search_item list option option \<Rightarrow> string \<Rightarrow> ProcessingOptions \<Rightarrow> ('f, 'v) YouTubeProcessor_yt \<Rightarrow>
     ('f, 'v) YouTubeProcessor_yt \<times> (yt_error + unit)" where
  "monitorChannel resp cid po s =
     (if map_of (channelMonitors s) cid \<noteq> None then (s, Inr ())
      else case resp of
        None \<Rightarrow> (s, Inl SearchFailed)
      | Some items \<Rightarrow>
          (let s1 = s\<lparr>channelMonitors :=
                       map_set cid \<lparr>lastVideos = getChannelVideos items, monitor_options = po\<rparr> (channelMonitors s)\<rparr>
           in (if pollingInterval s1 = None then startPolling s1 else s1, Inr ())))"

text \<open>
  \<open>checkForNewVideos\<close>, one channel after the other; an error of a channel is caught.
  The videos of the search whose id is not among \<open>lastVideos\<close> are new; when there are
  some they are processed as a batch and, if that resolves, \<open>lastVideos\<close> is replaced.
\<close>

fun check_channels ::
  "nat \<Rightarrow> yt_services \<Rightarrow> (string \<Rightarrow> search_item list option option) \<Rightarrow> (string \<times> ChannelMonitor) list \<Rightarrow>
     ('f, 'v) YouTubeProcessor_yt \<Rightarrow> ('f, 'v) YouTubeProcessor_yt option" where
  "check_channels fuel sv resp [] s = Some s"
| "check_channels fuel sv resp ((cid, mon) # ms) s =
     (case resp cid of
        None \<Rightarrow> check_channels fuel sv resp ms s
      | Some items \<Rightarrow>
          (let cur = getChannelVideos items;
               new = filter (\<lambda>v. find (\<lambda>w. video_id w = video_id v) (lastVideos mon) = None) cur
           in if 0 < length new
              then (case processVideoBatch fuel sv new s of
                      None \<Rightarrow> None
                    | Some (s1, Inl e) \<Rightarrow> check_channels fuel sv resp ms s1
                    | Some (s1, Inr u) \<Rightarrow>
                        check_channels fuel sv resp ms
                          (s1\<lparr>channelMonitors := map_set cid (mon\<lparr>lastVideos := cur\<rparr>) (channelMonitors s1)\<rparr>))
              else check_channels fuel sv resp ms s))"

definition checkForNewVideos ::
  "nat \<Rightarrow> yt_services \<Rightarrow> (string \<Rightarrow> search_item list option option) \<Rightarrow> ('f, 'v) YouTubeProcessor_yt \<Rightarrow>
     ('f, 'v) YouTubeProcessor_yt option" where
  "checkForNewVideos fuel sv resp s = check_channels fuel sv resp (channelMonitors s) s"

definition stopMonitoring :: "string \<Rightarrow> ('f, 'v) YouTubeProcessor_yt \<Rightarrow> ('f, 'v) YouTubeProcessor_yt" where
  "stopMonitoring cid s =
     (let s1 = s\<lparr>channelMonitors := map_delete cid (channelMonitors s)\<rparr>
      in if length (channelMonitors s1) = 0 then stopPolling s1 else s1)"

definition getProcessingStatus :: "('f, 'v) YouTubeProcessor_yt \<Rightarrow> ProcessingStatus" where
  "getProcessingStatus s =
     \<lparr>queueSize = length (processingQueue s), monitoredChannels = map fst (channelMonitors s),
      cacheMetrics = getMetrics_cm (yt_cache s), processorMetrics = getMetrics_chunk (yt_batchProcessor s)\<rparr>"

subsection \<open>Events\<close>

text \<open>
  The calls a user of the class makes, and the firing of the polling interval.  A step is
  \<open>None\<close> when the call does not settle within the fuel, or, for \<open>OpPoll\<close>, when no
  interval is set.
\<close>

datatype yt_op =
    OpInitialize
  | OpProcessVideo ProcessingOptions string
  | OpProcessChannel "search_item list option option" string ProcessingOptions
  | OpMonitorChannel "search_item list option option" string ProcessingOptions
  | OpStopMonitoring string
  | OpPoll "string \<Rightarrow> search_item list option option"

fun yt_step ::
  "nat \<Rightarrow> yt_services \<Rightarrow> yt_op \<Rightarrow> ('f, 'v) YouTubeProcessor_yt \<Rightarrow> ('f, 'v) YouTubeProcessor_yt option" where
  "yt_step fuel sv OpInitialize s = Some (initialize_yt s)"
| "yt_step fuel sv (OpProcessVideo po vid) s = map_option fst (processVideo fuel sv po vid s)"
| "yt_step fuel sv (OpProcessChannel resp cid po) s = map_option fst (processChannel fuel sv resp cid po s)"
| "yt_step fuel sv (OpMonitorChannel resp cid po) s = Some (fst (monitorChannel resp cid po s))"
| "yt_step fuel sv (OpStopMonitoring cid) s = Some (stopMonitoring cid s)"
| "yt_step fuel sv (OpPoll resp) s = (if pollingInterval s = None then None else checkForNewVideos fuel sv resp s)"

text \<open>One call or timer firing, with any fuel: the relation whose closure the liveness
  property follows.\<close>

definition yt_next :: "yt_services \<Rightarrow> ('f, 'v) YouTubeProcessor_yt \<Rightarrow> ('f, 'v) YouTubeProcessor_yt \<Rightarrow> bool" where
  "yt_next sv a b = (\<exists>fuel op. yt_step fuel sv op a = Some b)"

inductive yt_reachable :: "yt_services \<Rightarrow> ('f, 'v) YouTubeProcessor_yt \<Rightarrow> bool" for sv where
  init: "yt_reachable sv newYouTubeProcessor"
| step: "yt_reachable sv s \<Longrightarrow> yt_step fuel sv op s = Some s' \<Longrightarrow> yt_reachable sv s'"

subsection \<open>Invariant and frame\<close>

text \<open>
  \<open>queue_ok\<close>: the entries of \<open>processingQueue\<close> have distinct ids and hold resolved
  promises.  \<open>yt_wf\<close>: besides, the monitors have distinct channel ids, an interval is
  set exactly when some channel is monitored, no audio file is listed twice, and the shared
  batch processor's batch size is positive.  \<open>yt_frame V a b\<close>: from \<open>a\<close> to \<open>b\<close> the
  monitors, the interval and the batch processor's options are unchanged, the invariant
  parts of the queue and the files are kept, and the log only grows, by downloads of videos
  in \<open>V\<close> and other calls.
\<close>

definition queue_ok :: "(string \<times> (yt_error + unit)) list \<Rightarrow> bool" where
  "queue_ok q = (distinct (map fst q) \<and> (\<forall>(v, r) \<in> set q. r = Inr ()))"

definition yt_wf :: "('f, 'v) YouTubeProcessor_yt \<Rightarrow> bool" where
  "yt_wf s =
     (distinct (map fst (channelMonitors s)) \<and> (pollingInterval s = None \<longleftrightarrow> channelMonitors s = []) \<and>
      distinct (audio_files s) \<and> queue_ok (processingQueue s) \<and> 0 < chunk_batchSize (options (yt_batchProcessor s)))"

definition log_ext :: "(yt_io \<Rightarrow> bool) \<Rightarrow> yt_io list \<Rightarrow> yt_io list \<Rightarrow> bool" where
  "log_ext P l l' = (\<exists>d. l' = l @ d \<and> (\<forall>e\<in>set d. P e))"

definition yt_frame :: "string set \<Rightarrow> ('f, 'v) YouTubeProcessor_yt \<Rightarrow> ('f, 'v) YouTubeProcessor_yt \<Rightarrow> bool" where
  "yt_frame V a b =
     (channelMonitors b = channelMonitors a \<and> pollingInterval b = pollingInterval a \<and>
      options (yt_batchProcessor b) = options (yt_batchProcessor a) \<and>
      (distinct (audio_files a) \<longrightarrow> distinct (audio_files b)) \<and>
      (queue_ok (processingQueue a) \<longrightarrow> queue_ok (processingQueue b)) \<and>
      log_ext (\<lambda>e. \<forall>v. e = Download v \<longrightarrow> v \<in> V) (yt_log a) (yt_log b))"

subsection \<open>Example inputs\<close>

text \<open>Services that all succeed with a one-chunk splitter, search items, and a processor
  that monitors channel \<open>c\<close> with no videos seen yet.\<close>

definition example_services :: yt_services where
  "example_services =
     \<lparr>download_ok = (\<lambda>v. True), whisper = (\<lambda>p. Some ''hello''), splitter = (\<lambda>t. [t]),
      addDocument_ok = (\<lambda>c t. True)\<rparr>"

definition example_item :: "string \<Rightarrow> search_item" where
  "example_item vid =
     \<lparr>item_videoId = Some vid,
      item_snippet = Some \<lparr>sn_title = ''T'', sn_description = None, sn_publishedAt = ''D'',
                           sn_channelId = ''c'', sn_channelTitle = ''C''\<rparr>\<rparr>"

definition example_monitored :: "('f, 'v) YouTubeProcessor_yt" where
  "example_monitored = fst (monitorChannel (Some (Some [])) ''c'' default_processing_options newYouTubeProcessor)"

subsection \<open>Frames of the operations\<close>

lemma log_ext_refl [simp]: "log_ext P l l"
  by (simp add: log_ext_def)

lemma log_ext_trans: "log_ext P l1 l2 \<Longrightarrow> log_ext P l2 l3 \<Longrightarrow> log_ext P l1 l3"
  by (auto simp: log_ext_def)

lemma log_ext_snoc [simp]: "log_ext P l (l @ [e]) = P e"
  by (simp add: log_ext_def)

lemma vectorize_frame:
  assumes "vectorize fuel sv vid t s = Some (s1, r)"
  shows "processingQueue s1 = processingQueue s \<and> channelMonitors s1 = channelMonitors s \<and>
         pollingInterval s1 = pollingInterval s \<and> audio_files s1 = audio_files s \<and>
         options (yt_batchProcessor s1) = options (yt_batchProcessor s) \<and>
         log_ext (\<lambda>e. \<forall>v. e \<noteq> Download v) (yt_log s) (yt_log s1)"
proof -
  let ?R = "\<lambda>a b. processingQueue b = processingQueue a \<and> channelMonitors b = channelMonitors a \<and>
         pollingInterval b = pollingInterval a \<and> audio_files b = audio_files a \<and>
         log_ext (\<lambda>e. \<forall>v. e \<noteq> Download v) (yt_log a) (yt_log b)"
  from assms obtain bp s2 x where
    pld: "processLargeDocument fuel (yt_batchProcessor s) s (splitter sv) (transcript_proc sv vid) t = Some (bp, s2, x)"
    and s1: "s1 = s2\<lparr>yt_batchProcessor := bp\<rparr>"
    by (auto simp: vectorize_def split: option.splits sum.splits)
  have "?R s s2"
    by (rule processLargeDocument_inv [OF _ _ _ pld])
      (auto simp: transcript_proc_def intro: log_ext_trans)
  with s1 processLargeDocument_options [OF pld] show ?thesis by simp
qed

lemma yt_frame_refl [simp]: "yt_frame V s s"
  by (simp add: yt_frame_def)

lemma yt_frame_trans: "yt_frame V a b \<Longrightarrow> yt_frame V b c \<Longrightarrow> yt_frame V a c"
  by (auto simp: yt_frame_def intro: log_ext_trans)

lemma log_ext_mono: "log_ext P l l' \<Longrightarrow> (\<And>e. P e \<Longrightarrow> Q e) \<Longrightarrow> log_ext Q l l'"
  by (auto simp: log_ext_def)

lemma yt_frame_mono: "yt_frame V a b \<Longrightarrow> V \<subseteq> W \<Longrightarrow> yt_frame W a b"
  by (auto simp: yt_frame_def elim!: log_ext_mono)

lemma downloadAudio_frame:
  "processingQueue (fst (downloadAudio sv vid s)) = processingQueue s \<and> yt_frame {vid} s (fst (downloadAudio sv vid s))"
  by (auto simp: downloadAudio_def yt_frame_def Let_def)

lemma transcribeAudio_frame:
  "processingQueue (fst (transcribeAudio sv p s)) = processingQueue s \<and> yt_frame {vid} s (fst (transcribeAudio sv p s))"
  by (auto simp: transcribeAudio_def yt_frame_def Let_def split: option.splits)

lemma unlink_frame: "processingQueue (unlink p s) = processingQueue s \<and> yt_frame {vid} s (unlink p s)"
  by (simp add: unlink_def yt_frame_def distinct_remove1)

lemma vectorize_step_frame:
  "vectorize fuel sv vid t s = Some (s1, r) \<Longrightarrow> processingQueue s1 = processingQueue s \<and> yt_frame {vid} s s1"
  by (drule vectorize_frame) (auto simp: yt_frame_def elim!: log_ext_mono)

lemma pv_body_no_download:
  "\<not> js_nullish (downloadAudio_opt po) True \<Longrightarrow> pv_body fuel sv po vid s = Some (s, Inr (), False)"
  by (simp add: pv_body_def)

lemma pv_body_awaits:
  "js_nullish (downloadAudio_opt po) True \<Longrightarrow> pv_body fuel sv po vid s = Some (s1, r, aw) \<Longrightarrow> aw"
  by (auto simp: pv_body_def Let_def split: prod.splits sum.splits option.splits if_splits)

lemma frame_step_trans:
  "processingQueue b = processingQueue a \<and> yt_frame V a b \<Longrightarrow> processingQueue c = processingQueue b \<and> yt_frame V b c \<Longrightarrow>
     processingQueue c = processingQueue a \<and> yt_frame V a c"
  by (auto intro: yt_frame_trans)

lemma pv_body_frame:
  assumes run: "pv_body fuel sv po vid s = Some (s1, r, aw)"
  shows "processingQueue s1 = processingQueue s \<and> yt_frame {vid} s s1"
proof -
  define dl where "dl = js_nullish (downloadAudio_opt po) True"
  define tr where "tr = js_nullish (transcribe_opt po) True"
  define vz where "vz = js_nullish (vectorize_opt po) True"
  define del where "del = js_nullish (deleteAfterProcessing_opt po) True"
  obtain sa a where da: "(if dl then apsnd (map_sum id Some) (downloadAudio sv vid s) else (s, Inr None)) = (sa, a)"
    by fastforce
  have fa: "processingQueue sa = processingQueue s \<and> yt_frame {vid} s sa"
    using da downloadAudio_frame [of sv vid s] by (auto simp: apsnd_eq_Pair split: if_splits)
  show ?thesis
  proof (cases a)
    case (Inl e)
    with run da fa show ?thesis by (simp add: pv_body_def dl_def [symmetric])
  next
    case (Inr audioPath)
    obtain sb b where tb: "(if tr \<and> audioPath \<noteq> None then apsnd (map_sum id Some) (transcribeAudio sv (the audioPath) sa)
                          else (sa, Inr None)) = (sb, b)"
      by fastforce
    have fb: "processingQueue sb = processingQueue sa \<and> yt_frame {vid} sa sb"
      using tb transcribeAudio_frame [of sv "the audioPath" sa vid] by (auto simp: apsnd_eq_Pair split: if_splits)
    note fab = frame_step_trans [OF fa fb]
    show ?thesis
    proof (cases b)
      case (Inl e)
      with run da Inr tb fab show ?thesis by (simp add: pv_body_def dl_def [symmetric] tr_def [symmetric])
    next
      case (Inr transcript)
      obtain y where vy: "(if vz \<and> js_truthy_str transcript then vectorize fuel sv vid (the transcript) sb
                           else Some (sb, Inr ())) = Some y"
        using run da \<open>a = Inr audioPath\<close> tb Inr
        by (cases "if vz \<and> js_truthy_str transcript then vectorize fuel sv vid (the transcript) sb else Some (sb, Inr ())")
          (simp_all add: pv_body_def dl_def [symmetric] tr_def [symmetric] vz_def [symmetric])
      obtain sc c where y: "y = (sc, c)" by fastforce
      have fc: "processingQueue sc = processingQueue sb \<and> yt_frame {vid} sb sc"
        using vy y vectorize_step_frame [of fuel sv vid "the transcript" sb sc c] by (auto split: if_splits)
      note fabc = frame_step_trans [OF fab fc]
      have s1: "s1 = sc \<or> s1 = unlink (the audioPath) sc"
        using run da \<open>a = Inr audioPath\<close> tb Inr vy y
        by (cases c) (auto simp: pv_body_def dl_def [symmetric] tr_def [symmetric] vz_def [symmetric]
            del_def [symmetric] split: if_splits)
      then show ?thesis
        using fabc frame_step_trans [OF fabc unlink_frame] by blast
    qed
  qed
qed

lemma pv_body_sync:
  "pv_body fuel sv po vid s = Some (s1, r, False) \<Longrightarrow> s1 = s \<and> r = Inr ()"
  by (cases "js_nullish (downloadAudio_opt po) True")
    (auto dest: pv_body_awaits simp: pv_body_no_download)

lemma processVideo_frame:
  assumes run: "processVideo fuel sv po vid s = Some (s1, r)"
  shows "yt_frame {vid} s s1"
proof (cases "map_of (processingQueue s) vid")
  case None
  with run obtain s2 aw where pv: "pv_body fuel sv po vid s = Some (s2, r, aw)"
    and s1: "s1 = s2\<lparr>processingQueue := (if aw then map_delete vid (map_set vid r (processingQueue s2))
                                       else map_set vid r (map_delete vid (processingQueue s2)))\<rparr>"
    by (auto simp: processVideo_def split: option.splits)
  from pv_body_frame [OF pv] have q: "processingQueue s2 = processingQueue s" and f: "yt_frame {vid} s s2"
    by simp_all
  show ?thesis
  proof (cases aw)
    case True
    with s1 q None f show ?thesis by (simp add: yt_frame_def map_delete_absent)
  next
    case False
    with pv have "pv_body fuel sv po vid s = Some (s2, r, False)" by simp
    then have "s2 = s" "r = Inr ()" by (simp_all add: pv_body_sync)
    with s1 q None False show ?thesis
      by (simp add: yt_frame_def map_delete_absent map_set_new queue_ok_def map_of_eq_None_iff)
  qed
qed (use run in \<open>simp add: processVideo_def\<close>)

lemma video_proc_frame:
  assumes "video_proc fuel sv vids st ch (int i) = Some (st', ok)" "i < k"
  shows "yt_frame (set (map video_id (take k vids))) st st'"
proof (cases "i < length vids")
  case True
  with assms obtain r where pv: "processVideo fuel sv default_processing_options (video_id (vids ! i)) st = Some (st', r)"
    by (auto simp: video_proc_def)
  from True assms(2) have "take k vids ! i \<in> set (take k vids)"
    by (intro nth_mem) simp
  with True assms(2) have "{video_id (vids ! i)} \<subseteq> set (map video_id (take k vids))"
    by simp
  with processVideo_frame [OF pv] show ?thesis by (rule yt_frame_mono)
next
  case False
  with assms show ?thesis by (simp add: video_proc_def)
qed

lemma processVideoBatch_frame:
  assumes "processVideoBatch fuel sv vids s = Some (s1, r)"
  shows "yt_frame (set (map video_id (take (length (splitter sv (video_text vids))) vids))) s s1"
proof -
  from assms obtain bp0 bp x where
    pld: "processLargeDocument fuel bp0 s (splitter sv) (video_proc fuel sv vids) (video_text vids) = Some (bp, s1, x)"
    by (auto simp: processVideoBatch_def Let_def split: option.splits sum.splits)
  show ?thesis
  proof (rule processLargeDocument_inv [OF _ _ _ pld])
    fix st i st' ok
    assume "i < length (splitter sv (video_text vids))"
      "video_proc fuel sv vids st (splitter sv (video_text vids) ! i) (int i) = Some (st', ok)"
    then show "yt_frame (set (map video_id (take (length (splitter sv (video_text vids))) vids))) st st'"
      by (rule video_proc_frame [rotated])
  qed (auto intro: yt_frame_trans)
qed

lemma vectorize_total:
  "0 < chunk_batchSize (options (yt_batchProcessor s)) \<Longrightarrow> (\<And>t. length (splitter sv t) < fuel) \<Longrightarrow>
     vectorize fuel sv vid t s \<noteq> None"
proof -
  assume pos: "0 < chunk_batchSize (options (yt_batchProcessor s))" and fuel: "\<And>t. length (splitter sv t) < fuel"
  have "\<exists>bp' st' r. processLargeDocument fuel (yt_batchProcessor s) s (splitter sv) (transcript_proc sv vid) t
          = Some (bp', st', r) \<and> True"
    by (rule processLargeDocument_total) (simp_all add: transcript_proc_def pos fuel)
  then show ?thesis by (auto simp: vectorize_def split: sum.splits)
qed

lemma pv_body_total:
  assumes pos: "0 < chunk_batchSize (options (yt_batchProcessor s))" and fuel: "\<And>t. length (splitter sv t) < fuel"
  shows "pv_body fuel sv po vid s \<noteq> None"
proof -
  define dl where "dl = js_nullish (downloadAudio_opt po) True"
  define tr where "tr = js_nullish (transcribe_opt po) True"
  define vz where "vz = js_nullish (vectorize_opt po) True"
  obtain sa a where da: "(if dl then apsnd (map_sum id Some) (downloadAudio sv vid s) else (s, Inr None)) = (sa, a)"
    by fastforce
  have fa: "yt_frame {vid} s sa"
    using da downloadAudio_frame [of sv vid s] by (auto simp: apsnd_eq_Pair split: if_splits)
  show ?thesis
  proof (cases a)
    case (Inl e)
    with da show ?thesis by (simp add: pv_body_def dl_def [symmetric])
  next
    case (Inr audioPath)
    obtain sb b where tb: "(if tr \<and> audioPath \<noteq> None then apsnd (map_sum id Some) (transcribeAudio sv (the audioPath) sa)
                          else (sa, Inr None)) = (sb, b)"
      by fastforce
    have fb: "yt_frame {vid} sa sb"
      using tb transcribeAudio_frame [of sv "the audioPath" sa vid] by (auto simp: apsnd_eq_Pair split: if_splits)
    from fa fb pos have pos': "0 < chunk_batchSize (options (yt_batchProcessor sb))"
      by (simp add: yt_frame_def)
    show ?thesis
    proof (cases b)
      case (Inl e)
      with da Inr tb show ?thesis by (simp add: pv_body_def dl_def [symmetric] tr_def [symmetric])
    next
      case (Inr transcript)
      with da \<open>a = Inr audioPath\<close> tb vectorize_total [OF pos' fuel, of vid "the transcript"] show ?thesis
        by (auto simp: pv_body_def Let_def dl_def [symmetric] tr_def [symmetric] vz_def [symmetric]
            split: option.splits sum.splits)
    qed
  qed
qed

lemma processVideo_total:
  "0 < chunk_batchSize (options (yt_batchProcessor s)) \<Longrightarrow> (\<And>t. length (splitter sv t) < fuel) \<Longrightarrow>
     processVideo fuel sv po vid s \<noteq> None"
  by (drule pv_body_total [of _ sv fuel po vid], assumption)
    (auto simp: processVideo_def split: option.splits)

lemma yt_frame_wf: "yt_frame V a b \<Longrightarrow> yt_wf a \<Longrightarrow> yt_wf b"
  by (simp add: yt_frame_def yt_wf_def)

lemma process_batches_frame:
  "process_batches fuel sv bs s = Some (s1, r) \<Longrightarrow> yt_frame UNIV s s1"
proof (induction bs arbitrary: s)
  case (Cons b bs)
  then obtain s2 r2 where pb: "processVideoBatch fuel sv b s = Some (s2, r2)"
    by (auto split: option.splits)
  have f: "yt_frame UNIV s s2"
    using processVideoBatch_frame [OF pb] by (rule yt_frame_mono) simp
  show ?case
  proof (cases r2)
    case (Inl e)
    with Cons.prems pb f show ?thesis by simp
  next
    case (Inr u)
    with Cons.prems pb have "process_batches fuel sv bs s2 = Some (s1, r)" by simp
    with f Cons.IH show ?thesis by (blast intro: yt_frame_trans)
  qed
qed simp

lemma processChannel_frame:
  "processChannel fuel sv resp cid po s = Some (s1, r) \<Longrightarrow> yt_frame UNIV s s1"
  by (auto simp: processChannel_def split: option.splits dest: process_batches_frame)

lemma check_channels_wf:
  "check_channels fuel sv resp ms s = Some s' \<Longrightarrow> yt_wf s \<Longrightarrow> (ms \<noteq> [] \<longrightarrow> channelMonitors s \<noteq> []) \<Longrightarrow>
     yt_wf s'"
proof (induction fuel sv resp ms s rule: check_channels.induct)
  case (2 fuel sv resp cid mon ms s)
  show ?case
  proof (cases "resp cid")
    case None
    with "2.IH"(1) "2.prems" show ?thesis by simp
  next
    case (Some items)
    define cur where "cur = getChannelVideos items"
    define new where "new = filter (\<lambda>v. find (\<lambda>w. video_id w = video_id v) (lastVideos mon) = None) cur"
    show ?thesis
    proof (cases "0 < length new")
      case False
      with "2.IH"(4) [OF Some cur_def new_def] "2.prems" Some show ?thesis
        by (simp add: cur_def [symmetric] new_def [symmetric])
    next
      case True
      with "2.prems"(1) Some obtain s1 r where pb: "processVideoBatch fuel sv new s = Some (s1, r)"
        by (auto simp: cur_def [symmetric] new_def [symmetric] split: option.splits)
      have f: "yt_frame UNIV s s1"
        using processVideoBatch_frame [OF pb] by (rule yt_frame_mono) simp
      have wf1: "yt_wf s1" by (rule yt_frame_wf [OF f "2.prems"(2)])
      show ?thesis
      proof (cases r)
        case (Inl e)
        with "2.IH"(2) [OF Some cur_def new_def True] "2.prems" Some True pb wf1 f show ?thesis
          by (simp add: cur_def [symmetric] new_def [symmetric] yt_frame_def)
      next
        case (Inr u)
        let ?s2 = "s1\<lparr>channelMonitors := map_set cid (mon\<lparr>lastVideos := cur\<rparr>) (channelMonitors s1)\<rparr>"
        have "yt_wf ?s2"
          using wf1 f "2.prems"(2,3) by (auto simp: yt_wf_def yt_frame_def)
        moreover have "channelMonitors ?s2 \<noteq> []" by simp
        ultimately show ?thesis
          using "2.IH"(3) [OF Some cur_def new_def True] "2.prems"(1) Some True pb Inr
          by (simp add: cur_def [symmetric] new_def [symmetric])
      qed
    qed
  qed
qed simp

lemma yt_wf_new: "yt_wf newYouTubeProcessor"
  by (simp add: yt_wf_def newYouTubeProcessor_def queue_ok_def newChunkBatchProcessor_def
      normalize_chunk_options_def default_chunk_options_def)

lemma yt_wf_monitorChannel: "yt_wf s \<Longrightarrow> yt_wf (fst (monitorChannel resp cid po s))"
  by (auto simp: monitorChannel_def startPolling_def yt_wf_def Let_def split: option.splits)

lemma yt_wf_stopMonitoring: "yt_wf s \<Longrightarrow> yt_wf (stopMonitoring cid s)"
  by (cases "channelMonitors s")
    (auto simp: stopMonitoring_def stopPolling_def yt_wf_def Let_def split: option.splits)

lemma yt_wf_step: "yt_wf s \<Longrightarrow> yt_step fuel sv op s = Some s' \<Longrightarrow> yt_wf s'"
proof (cases op)
  case OpInitialize
  then show "yt_wf s \<Longrightarrow> yt_step fuel sv op s = Some s' \<Longrightarrow> yt_wf s'"
    by (auto simp: yt_wf_def initialize_yt_def initialize_def)
next
  case (OpProcessVideo po vid)
  then show "yt_wf s \<Longrightarrow> yt_step fuel sv op s = Some s' \<Longrightarrow> yt_wf s'"
    by (auto dest: processVideo_frame intro: yt_frame_wf)
next
  case (OpProcessChannel resp cid po)
  then show "yt_wf s \<Longrightarrow> yt_step fuel sv op s = Some s' \<Longrightarrow> yt_wf s'"
    by (auto dest: processChannel_frame intro: yt_frame_wf)
next
  case (OpMonitorChannel resp cid po)
  then show "yt_wf s \<Longrightarrow> yt_step fuel sv op s = Some s' \<Longrightarrow> yt_wf s'"
    by (auto intro: yt_wf_monitorChannel)
next
  case (OpStopMonitoring cid)
  then show "yt_wf s \<Longrightarrow> yt_step fuel sv op s = Some s' \<Longrightarrow> yt_wf s'"
    by (auto intro: yt_wf_stopMonitoring)
next
  case (OpPoll resp)
  show "yt_wf s \<Longrightarrow> yt_step fuel sv op s = Some s' \<Longrightarrow> yt_wf s'"
  proof -
    assume wf: "yt_wf s" and st: "yt_step fuel sv op s = Some s'"
    with OpPoll have "check_channels fuel sv resp (channelMonitors s) s = Some s'"
      by (simp add: checkForNewVideos_def split: if_splits)
    from check_channels_wf [OF this wf] show ?thesis by simp
  qed
qed

lemma yt_reachable_wf: "yt_reachable sv s \<Longrightarrow> yt_wf s"
  by (induction rule: yt_reachable.induct) (auto intro: yt_wf_new yt_wf_step)

subsection \<open>Properties\<close>

text \<open>
  C20: a video processed without downloading (\<open>downloadAudio: false\<close>) stays in
  \<open>processingQueue\<close> for ever: its closure never awaits, so the \<open>finally\<close> deletes the
  entry before \<open>processingQueue.set\<close> adds it.  Every later \<open>processVideo\<close> of that
  video, with any options, returns at once and does nothing.
\<close>

theorem processVideo_stale_entry:
  assumes "\<not> js_nullish (downloadAudio_opt po) True" and "map_of (processingQueue s) vid = None"
  shows "processVideo fuel sv po vid s = Some (s\<lparr>processingQueue := processingQueue s @ [(vid, Inr ())]\<rparr>, Inr ()) \<and>
         (\<forall>fuel' sv' po'. processVideo fuel' sv' po' vid (s\<lparr>processingQueue := processingQueue s @ [(vid, Inr ())]\<rparr>) =
            Some (s\<lparr>processingQueue := processingQueue s @ [(vid, Inr ())]\<rparr>, Inr ()))"
  using assms by (simp add: processVideo_def pv_body_no_download map_delete_absent map_set_new map_add_def)

theorem processVideo_stale_entry_witness:
  "\<not> js_nullish (downloadAudio_opt (default_processing_options\<lparr>downloadAudio_opt := Some False\<rparr>)) True \<and>
   map_of (processingQueue (newYouTubeProcessor :: (unit, unit) YouTubeProcessor_yt)) ''a'' = None \<and>
   processVideo 1 example_services (default_processing_options\<lparr>downloadAudio_opt := Some False\<rparr>) ''a'' (newYouTubeProcessor :: (unit, unit) YouTubeProcessor_yt) =
     Some ((newYouTubeProcessor :: (unit, unit) YouTubeProcessor_yt)\<lparr>processingQueue := [(''a'', Inr ())]\<rparr>, Inr ()) \<and>
   processVideo 1 example_services default_processing_options ''a'' ((newYouTubeProcessor :: (unit, unit) YouTubeProcessor_yt)\<lparr>processingQueue := [(''a'', Inr ())]\<rparr>) =
     Some ((newYouTubeProcessor :: (unit, unit) YouTubeProcessor_yt)\<lparr>processingQueue := [(''a'', Inr ())]\<rparr>, Inr ())"
  using processVideo_stale_entry [where po = "default_processing_options\<lparr>downloadAudio_opt := Some False\<rparr>"
      and s = "newYouTubeProcessor :: (unit, unit) YouTubeProcessor_yt" and vid = "''a''" and fuel = 1 and sv = example_services]
  by (simp add: default_processing_options_def newYouTubeProcessor_def)

text \<open>
  a video processed with a download leaves \<open>processingQueue\<close> as it found it, whether
  the processing resolves or rejects: the entry is added at the first \<open>await\<close> and the
  \<open>finally\<close> removes it.
\<close>

theorem processVideo_queue_restored:
  "js_nullish (downloadAudio_opt po) True \<Longrightarrow> map_of (processingQueue s) vid = None \<Longrightarrow>
     processVideo fuel sv po vid s = Some (s1, r) \<Longrightarrow> processingQueue s1 = processingQueue s"
proof -
  assume dl: "js_nullish (downloadAudio_opt po) True" and new: "map_of (processingQueue s) vid = None"
    and run: "processVideo fuel sv po vid s = Some (s1, r)"
  from run new obtain s2 aw where pv: "pv_body fuel sv po vid s = Some (s2, r, aw)"
    and s1: "s1 = s2\<lparr>processingQueue := (if aw then map_delete vid (map_set vid r (processingQueue s2))
                                       else map_set vid r (map_delete vid (processingQueue s2)))\<rparr>"
    by (auto simp: processVideo_def split: option.splits)
  from pv_body_awaits [OF dl pv] pv_body_frame [OF pv] s1 new show ?thesis
    by (simp add: map_delete_absent)
qed

theorem processVideo_queue_restored_witness:
  "js_nullish (downloadAudio_opt default_processing_options) True \<and> map_of (processingQueue (newYouTubeProcessor :: (unit, unit) YouTubeProcessor_yt)) ''a'' = None \<and>
   (\<exists>s1 r. processVideo 2 example_services default_processing_options ''a'' (newYouTubeProcessor :: (unit, unit) YouTubeProcessor_yt) = Some (s1, r) \<and>
      processingQueue s1 = [])"
proof -
  have "processVideo 2 example_services default_processing_options ''a'' (newYouTubeProcessor :: (unit, unit) YouTubeProcessor_yt) \<noteq> None"
    by (rule processVideo_total)
      (simp_all add: newYouTubeProcessor_def newChunkBatchProcessor_def normalize_chunk_options_def
        default_chunk_options_def example_services_def)
  then obtain s1 r where run: "processVideo 2 example_services default_processing_options ''a'' (newYouTubeProcessor :: (unit, unit) YouTubeProcessor_yt) = Some (s1, r)"
    by fast
  have "processingQueue s1 = processingQueue (newYouTubeProcessor :: (unit, unit) YouTubeProcessor_yt)"
    by (rule processVideo_queue_restored [OF _ _ run]) (simp_all add: default_processing_options_def newYouTubeProcessor_def)
  with run show ?thesis by (simp add: default_processing_options_def newYouTubeProcessor_def)
qed

text \<open>
  C21: when the download succeeds and Whisper rejects, \<open>processVideo\<close> rejects with the
  audio file still on disk: the \<open>fs.unlink\<close> of \<open>deleteAfterProcessing\<close> is in the
  \<open>try\<close> block, not in the \<open>finally\<close>.
\<close>

theorem processVideo_keeps_audio:
  assumes "js_nullish (downloadAudio_opt po) True" "js_nullish (transcribe_opt po) True"
    "map_of (processingQueue s) vid = None" "download_ok sv vid" "whisper sv (audio_path vid) = None"
  shows "\<exists>s1. processVideo fuel sv po vid s = Some (s1, Inl TranscriptionFailed) \<and>
           audio_path vid \<in> set (audio_files s1)"
  using assms
  by (cases "audio_path vid \<in> set (audio_files s)")
    (simp_all add: processVideo_def pv_body_def downloadAudio_def transcribeAudio_def Let_def)

theorem processVideo_keeps_audio_witness:
  "js_nullish (downloadAudio_opt default_processing_options) True \<and> js_nullish (transcribe_opt default_processing_options) True \<and>
   map_of (processingQueue (newYouTubeProcessor :: (unit, unit) YouTubeProcessor_yt)) ''a'' = None \<and> download_ok (example_services\<lparr>whisper := (\<lambda>p. None)\<rparr>) ''a'' \<and>
   whisper (example_services\<lparr>whisper := (\<lambda>p. None)\<rparr>) (audio_path ''a'') = None \<and>
   (\<exists>s1. processVideo 1 (example_services\<lparr>whisper := (\<lambda>p. None)\<rparr>) default_processing_options ''a'' (newYouTubeProcessor :: (unit, unit) YouTubeProcessor_yt) =
      Some (s1, Inl TranscriptionFailed) \<and> audio_path ''a'' \<in> set (audio_files s1))"
  using processVideo_keeps_audio [where po = default_processing_options and s = "newYouTubeProcessor :: (unit, unit) YouTubeProcessor_yt" and vid = "''a''" and fuel = 1
      and sv = "example_services\<lparr>whisper := (\<lambda>p. None)\<rparr>"]
  by (simp add: default_processing_options_def newYouTubeProcessor_def example_services_def)

text \<open>
  C19: \<open>processVideoBatch\<close> only downloads videos whose index is the index of a chunk of the
  batch's text: the chunk processor processes \<open>videos[index]\<close>, so with a text of
  \<open>k\<close> chunks the videos from index \<open>k\<close> on are never processed.
\<close>

theorem processVideoBatch_downloads_first:
  "processVideoBatch fuel sv vids s = Some (s1, r) \<Longrightarrow> Download v \<in> set (drop (length (yt_log s)) (yt_log s1)) \<Longrightarrow>
     v \<in> set (map video_id (take (length (splitter sv (video_text vids))) vids))"
  by (drule processVideoBatch_frame) (auto simp: yt_frame_def log_ext_def)

theorem processVideoBatch_downloads_first_witness:
  "\<exists>s1 r. processVideoBatch 10 example_services (getChannelVideos (Some (map example_item [''a'', ''b'']))) (newYouTubeProcessor :: (unit, unit) YouTubeProcessor_yt) = Some (s1, r) \<and>
     Download ''a'' \<in> set (drop (length (yt_log (newYouTubeProcessor :: (unit, unit) YouTubeProcessor_yt))) (yt_log s1)) \<and>
     ''a'' \<in> set (map video_id (take (length (splitter example_services (video_text (getChannelVideos (Some (map example_item [''a'', ''b''])))))) (getChannelVideos (Some (map example_item [''a'', ''b'']))))) \<and>
     Download ''b'' \<notin> set (drop (length (yt_log (newYouTubeProcessor :: (unit, unit) YouTubeProcessor_yt))) (yt_log s1))"
proof -
  obtain s1 r where run: "processVideoBatch 10 example_services (getChannelVideos (Some (map example_item [''a'', ''b'']))) (newYouTubeProcessor :: (unit, unit) YouTubeProcessor_yt) = Some (s1, r)"
    and a: "Download ''a'' \<in> set (drop (length (yt_log (newYouTubeProcessor :: (unit, unit) YouTubeProcessor_yt))) (yt_log s1))"
    by (simp add: processVideoBatch_def processLargeDocument_def example_services_def example_item_def getChannelVideos_def
      video_text_def initialize_def newChunkBatchProcessor_def normalize_chunk_options_def
      default_chunk_options_def map_metrics_def video_proc_def processVideo_def pv_body_def
      default_processing_options_def downloadAudio_def audio_path_def transcribeAudio_def vectorize_def
      transcript_proc_def chunk_title_def js_int_str_def nat_str.simps unlink_def js_newline_def
      js_slice_def js_rel_index_def Let_def numeral_eq_Suc newYouTubeProcessor_def)
  have "Download ''b'' \<in> set (drop (length (yt_log (newYouTubeProcessor :: (unit, unit) YouTubeProcessor_yt))) (yt_log s1)) \<Longrightarrow> False"
    by (drule processVideoBatch_downloads_first [OF run]) (simp add: example_services_def example_item_def getChannelVideos_def)
  with run a processVideoBatch_downloads_first [OF run a] show ?thesis by blast
qed

text \<open>
  on the first poll of a channel whose search returns three new videos whose text is one
  chunk, only the first video is downloaded, transcribed, stored and deleted, yet all three
  become \<open>lastVideos\<close>; the next poll with the same result finds nothing new, so the other
  two are never processed.
\<close>

theorem checkForNewVideos_skips_videos:
  "\<exists>s1. checkForNewVideos 10 example_services (\<lambda>c. Some (Some (map example_item [''a'', ''b'', ''x''])))
          (example_monitored :: ('f, 'v) YouTubeProcessor_yt) = Some s1 \<and>
        yt_log s1 = [Download ''a'', Transcribe ''audio/a.mp3'', AddDocument ''hello'' ''Transcript chunk 0 for video a'',
                     Unlink ''audio/a.mp3''] \<and>
        map_option (map video_id \<circ> lastVideos) (map_of (channelMonitors s1) ''c'') = Some [''a'', ''b'', ''x''] \<and>
        checkForNewVideos 10 example_services (\<lambda>c. Some (Some (map example_item [''a'', ''b'', ''x'']))) s1 = Some s1"
  by (simp add: checkForNewVideos_def example_monitored_def monitorChannel_def newYouTubeProcessor_def
      startPolling_def example_item_def getChannelVideos_def processVideoBatch_def processLargeDocument_def
      example_services_def video_text_def initialize_def newChunkBatchProcessor_def normalize_chunk_options_def
      default_chunk_options_def map_metrics_def video_proc_def processVideo_def pv_body_def
      default_processing_options_def downloadAudio_def audio_path_def transcribeAudio_def vectorize_def
      transcript_proc_def chunk_title_def js_int_str_def nat_str.simps unlink_def js_newline_def
      js_slice_def js_rel_index_def Let_def numeral_eq_Suc)

text \<open>
  C23: \<open>processVideoBatch\<close> returns when the shared processor's batch size is positive and
  the fuel exceeds the number of chunks of any text: the batching loops end and every video
  processed in it returns.
\<close>

theorem processVideoBatch_terminates:
  assumes pos: "0 < chunk_batchSize (options (yt_batchProcessor s))" and fuel: "\<And>t. length (splitter sv t) < fuel"
  shows "\<exists>s' r. processVideoBatch fuel sv vids s = Some (s', r)"
proof -
  let ?P = "\<lambda>st. 0 < chunk_batchSize (options (yt_batchProcessor (st :: ('a, 'b) YouTubeProcessor_yt)))"
  let ?bp0 = "initialize (newChunkBatchProcessor (default_chunk_options\<lparr>batchSize_opt := Some 5\<rparr>))"
  have "\<exists>bp' st' r. processLargeDocument fuel ?bp0 s (splitter sv) (video_proc fuel sv vids) (video_text vids)
          = Some (bp', st', r) \<and> ?P st'"
  proof (rule processLargeDocument_total [where P = ?P])
    fix st ch i
    assume "?P st"
    then show "video_proc fuel sv vids st ch i \<noteq> None"
      using processVideo_total [OF _ fuel] by (auto simp: video_proc_def)
  next
    fix st ch i st' ok
    assume "?P st" "video_proc fuel sv vids st ch i = Some (st', ok)"
    then show "?P st'"
      by (auto simp: video_proc_def yt_frame_def split: if_splits dest!: processVideo_frame)
  qed (simp_all add: initialize_def newChunkBatchProcessor_def normalize_chunk_options_def
      default_chunk_options_def fuel pos)
  then show ?thesis by (auto simp: processVideoBatch_def split: sum.splits)
qed

theorem processVideoBatch_terminates_witness:
  "0 < chunk_batchSize (options (yt_batchProcessor (newYouTubeProcessor :: (unit, unit) YouTubeProcessor_yt))) \<and> (\<forall>t. length (splitter example_services t) < 2) \<and>
   (\<exists>s' r. processVideoBatch 2 example_services (getChannelVideos (Some (map example_item [''a'', ''b'']))) (newYouTubeProcessor :: (unit, unit) YouTubeProcessor_yt) = Some (s', r))"
  using processVideoBatch_terminates [where s = "newYouTubeProcessor :: (unit, unit) YouTubeProcessor_yt" and sv = example_services and fuel = 2
      and vids = "getChannelVideos (Some (map example_item [''a'', ''b'']))"]
  by (simp add: newYouTubeProcessor_def newChunkBatchProcessor_def normalize_chunk_options_def
      default_chunk_options_def example_services_def)

text \<open>
  C22: in every state reached from the constructor, a polling interval is set exactly when
  some channel is monitored, no channel is monitored twice, and every entry left in
  \<open>processingQueue\<close> is a resolved promise.
\<close>

theorem yt_reachable_polling:
  "yt_reachable sv s \<Longrightarrow>
     (pollingInterval s \<noteq> None \<longleftrightarrow> channelMonitors s \<noteq> []) \<and> distinct (map fst (channelMonitors s)) \<and>
     (\<forall>(v, r) \<in> set (processingQueue s). r = Inr ())"
  by (drule yt_reachable_wf) (auto simp: yt_wf_def queue_ok_def)

theorem yt_reachable_polling_witness:
  "yt_reachable example_services (example_monitored :: (unit, unit) YouTubeProcessor_yt) \<and>
   pollingInterval (example_monitored :: (unit, unit) YouTubeProcessor_yt) \<noteq> None \<and>
   channelMonitors (example_monitored :: (unit, unit) YouTubeProcessor_yt) \<noteq> []"
proof -
  have r: "yt_reachable example_services (example_monitored :: (unit, unit) YouTubeProcessor_yt)"
    by (rule yt_reachable.step [OF yt_reachable.init, where fuel = 0
          and op = "OpMonitorChannel (Some (Some [])) ''c'' default_processing_options"])
      (simp add: example_monitored_def)
  have p: "pollingInterval (example_monitored :: (unit, unit) YouTubeProcessor_yt) \<noteq> None"
    by (simp add: example_monitored_def monitorChannel_def newYouTubeProcessor_def startPolling_def)
  with r yt_reachable_polling [OF r] show ?thesis by blast
qed

subsection \<open>Quiescence\<close>

lemma length_map_delete_less:
  "k \<in> fst ` set xs \<Longrightarrow> length (map_delete k xs) < length xs"
  by (auto simp: map_delete_def intro!: length_filter_less)

lemma stop_all_channels:
  "distinct (map fst (channelMonitors s)) \<Longrightarrow> (pollingInterval s = None \<longleftrightarrow> channelMonitors s = []) \<Longrightarrow>
   \<exists>s'. (yt_next sv)\<^sup>*\<^sup>* s s' \<and> channelMonitors s' = [] \<and> pollingInterval s' = None"
proof (induction "length (channelMonitors s)" arbitrary: s rule: less_induct)
  case less
  show ?case
  proof (cases "channelMonitors s")
    case Nil
    with less.prems show ?thesis by blast
  next
    case (Cons m ms)
    let ?s1 = "stopMonitoring (fst m) s"
    have step: "yt_next sv s ?s1"
      unfolding yt_next_def by (rule exI[of _ 0], rule exI[of _ "OpStopMonitoring (fst m)"]) simp
    have shorter: "length (channelMonitors ?s1) < length (channelMonitors s)"
      using Cons length_map_delete_less[of "fst m" "channelMonitors s"]
      by (auto simp: stopMonitoring_def Let_def stopPolling_def split: option.splits)
    have dist: "distinct (map fst (channelMonitors ?s1))"
      using less.prems(1) by (auto simp: stopMonitoring_def Let_def stopPolling_def split: option.splits)
    have iff: "pollingInterval ?s1 = None \<longleftrightarrow> channelMonitors ?s1 = []"
      using less.prems(2) Cons
      by (auto simp: stopMonitoring_def Let_def stopPolling_def split: option.splits)
    from less.hyps[OF shorter dist iff] obtain s' where
      "(yt_next sv)\<^sup>*\<^sup>* ?s1 s'" "channelMonitors s' = []" "pollingInterval s' = None" by blast
    with step show ?thesis by (meson converse_rtranclp_into_rtranclp)
  qed
qed

lemma yt_next_reachable: "(yt_next sv)\<^sup>*\<^sup>* s s' \<Longrightarrow> yt_reachable sv s \<Longrightarrow> yt_reachable sv s'"
  by (induction rule: rtranclp_induct) (auto simp: yt_next_def intro: yt_reachable.step)

text \<open>C28: From every reachable state, a sequence of calls (stopMonitoring of each monitored
  channel) leads to a reachable state with no monitored channel and no polling interval: the
  processor can always be brought to rest.\<close>

theorem yt_reachable_quiesces:
  assumes "yt_reachable sv s"
  shows "\<exists>s'. (yt_next sv)\<^sup>*\<^sup>* s s' \<and> yt_reachable sv s' \<and> channelMonitors s' = [] \<and> pollingInterval s' = None"
proof -
  from yt_reachable_wf[OF assms] have "distinct (map fst (channelMonitors s))"
    "pollingInterval s = None \<longleftrightarrow> channelMonitors s = []" by (simp_all add: yt_wf_def)
  from stop_all_channels[OF this] obtain s' where
    "(yt_next sv)\<^sup>*\<^sup>* s s'" "channelMonitors s' = []" "pollingInterval s' = None" by blast
  with assms show ?thesis by (blast intro: yt_next_reachable)
qed
theorem yt_reachable_quiesces_witness:
  "yt_reachable example_services (example_monitored :: (unit, unit) YouTubeProcessor_yt) \<and>
   (\<exists>s'. (yt_next example_services)\<^sup>*\<^sup>* (example_monitored :: (unit, unit) YouTubeProcessor_yt) s' \<and>
         yt_reachable example_services s' \<and> channelMonitors s' = [] \<and> pollingInterval s' = None)"
proof -
  have r: "yt_reachable example_services (example_monitored :: (unit, unit) YouTubeProcessor_yt)"
    by (rule yt_reachable.step [OF yt_reachable.init, where fuel = 0
          and op = "OpMonitorChannel (Some (Some [])) ''c'' default_processing_options"])
      (simp add: example_monitored_def)
  with yt_reachable_quiesces [OF r] show ?thesis by blast
qed

end
