(* ===== verification/ContentAnalysis.thy ===== *)
theory ContentAnalysis
  imports Prelude
begin

text \<open>
  The pure text classifiers: \<open>analyzeContent\<close> of \<open>src/src/utils/smartCorrection.ts\<close>
  (lines 21--107), \<open>detectContentType\<close> of \<open>src/unnamed/part_002\<close>, and the text
  statistics \<open>processText\<close>, \<open>calculateComplexity\<close> and \<open>getComplexityLevel\<close> of
  \<open>src/src/workers/textProcessing.ts\<close> (lines 1--70).

  The term dictionaries are JSON files that are not in the repository, so they are a
  parameter: a JSON object is an association list in key order (keys that look like array
  indices, which JavaScript orders first, are not considered).  The operator \<open>in\<close> also
  sees the properties every object inherits from \<open>Object.prototype\<close>; \<open>js_in\<close> keeps them.
  Numbers are rationals with the infinities of \<open>js_number\<close>; floating-point rounding is
  not modelled, so a score the source computes in doubles may differ from the model's in the
  last digits (for \<open>"ab."\<close> JavaScript gives 73.14999999999999 where the model gives 1463/20).
  No property of the development depends on the exact value of a score.
\<close>

subsection \<open>JavaScript objects as dictionaries\<close>

text \<open>The properties of \<open>Object.prototype\<close>, which \<open>k in obj\<close> finds on every object.\<close>

definition proto_keys :: "string list" where
  "proto_keys =
     [''constructor'', ''__proto__'', ''hasOwnProperty'', ''isPrototypeOf'', ''propertyIsEnumerable'',
      ''toLocaleString'', ''toString'', ''valueOf'', ''__defineGetter__'', ''__defineSetter__'',
      ''__lookupGetter__'', ''__lookupSetter__'']"

definition js_in :: "string \<Rightarrow> (string \<times> 'a) list \<Rightarrow> bool" where
  "js_in k obj = (k \<in> set (map fst obj) \<or> k \<in> set proto_keys)"

subsection \<open>analyzeContent\<close>

datatype platform = YouTube | Twitter | TikTok | Instagram | General

text \<open>The platform's name, as the string the source uses for it.\<close>

fun platform_name :: "platform \<Rightarrow> string" where
  "platform_name YouTube = ''youtube''"
| "platform_name Twitter = ''twitter''"
| "platform_name TikTok = ''tiktok''"
| "platform_name Instagram = ''instagram''"
| "platform_name General = ''general''"

record dictionaries =
  youtubeTerms :: "(string \<times> string) list"
  twitterTerms :: "(string \<times> string) list"
  tiktokTerms :: "(string \<times> string) list"
  instagramTerms :: "(string \<times> string) list"
  contentTypes :: "(string \<times> (string \<times> string) list) list"
  contentFormats :: "(string \<times> (string \<times> string) list) list"

record ContentAnalysis =
  ca_platform :: platform
  contentType :: string
  format :: string
  conf_platform :: js_number
  conf_contentType :: js_number
  conf_format :: js_number

text \<open>The platforms in the key order of \<open>platformScores\<close>, with their dictionaries.\<close>

definition platform_dicts :: "dictionaries \<Rightarrow> (platform \<times> (string \<times> string) list) list" where
  "platform_dicts d =
     [(YouTube, youtubeTerms d), (Twitter, twitterTerms d), (TikTok, tiktokTerms d), (Instagram, instagramTerms d)]"

text \<open>
  The scores of one family of dictionaries (content types or formats): for each word, for
  each dictionary in key order, \<open>scores[key] = (scores[key] || 0) + 1\<close> when the word is in
  it; a key enters the object when it is first scored.
\<close>

definition score_words :: "(string \<times> (string \<times> string) list) list \<Rightarrow> string list \<Rightarrow> (string \<times> nat) list" where
  "score_words fam words =
     fold (\<lambda>w sc. fold (\<lambda>(k, d) sc. if js_in w d then map_set k ((case map_of sc k of None \<Rightarrow> 0 | Some n \<Rightarrow> n) + 1) sc
                                   else sc) fam sc)
       words []"

text \<open>\<open>Object.entries(scores).find(([_, s]) => s === max)?.[0]\<close>, or the default when the
  maximum is not positive.\<close>

definition dominant :: "(string \<times> nat) list \<Rightarrow> string \<Rightarrow> string" where
  "dominant sc dflt =
     (if js_pos (js_max_nat (map snd sc))
      then (case find (\<lambda>(k, n). JNum (of_nat n) = js_max_nat (map snd sc)) sc of Some (k, n) \<Rightarrow> k | None \<Rightarrow> dflt)
      else dflt)"

definition analyzeContent :: "dictionaries \<Rightarrow> string \<Rightarrow> ContentAnalysis" where
  "analyzeContent d text =
     (let words = js_split_runs js_space (js_lower text);
          pscores = map (\<lambda>(p, dict). (p, length (filter (\<lambda>w. js_in w dict) words))) (platform_dicts d);
          typeScores = score_words (contentTypes d) words;
          formatScores = score_words (contentFormats d) words;
          maxP = js_max_nat (map snd pscores);
          maxT = js_max_nat (map snd typeScores);
          maxF = js_max_nat (map snd formatScores)
      in \<lparr>ca_platform = (if js_pos maxP
                         then (case find (\<lambda>(p, n). JNum (of_nat n) = maxP) pscores of Some (p, n) \<Rightarrow> p | None \<Rightarrow> General)
                         else General),
          contentType = dominant typeScores ''other'',
          format = dominant formatScores ''other'',
          conf_platform = js_num_div maxP (of_nat (length words)),
          conf_contentType = js_num_div maxT (of_nat (length words)),
          conf_format = js_num_div maxF (of_nat (length words))\<rparr>)"

subsection \<open>detectContentType\<close>

datatype ct_input = TextInput string | ObjectInput "string option"

datatype detect_error = FilterNotAFunction

definition technicalKeywords :: "string list" where
  "technicalKeywords = [''algorithm'', ''function'', ''class'', ''interface'', ''implementation'', ''architecture'', ''framework'']"

definition scientificKeywords :: "string list" where
  "scientificKeywords = [''research'', ''hypothesis'', ''experiment'', ''methodology'', ''statistical'', ''analysis'', ''conclusion'']"

definition languageSpecificKeywords :: "(string \<times> string list) list" where
  "languageSpecificKeywords =
     [(''python'', [''def'', ''class'', ''import'', ''from'']), (''javascript'', [''const'', ''let'', ''function'', ''import'']),
      (''spanish'', [''el'', ''la'', ''de'', ''que'']), (''french'', [''le'', ''la'', ''de'', ''qui''])]"

text \<open>
  \<open>languageSpecificKeywords[lang] || []\<close>: an own key gives its list, a missing one the
  empty list, and a key of \<open>Object.prototype\<close> (a function or an object, truthy) makes the
  following \<open>.filter\<close> throw a \<open>TypeError\<close>.
\<close>

definition language_keywords :: "string \<Rightarrow> detect_error + string list" where
  "language_keywords lang =
     (case map_of languageSpecificKeywords lang of
        Some kws \<Rightarrow> Inr kws
      | None \<Rightarrow> if lang \<in> set proto_keys then Inl FilterNotAFunction else Inr [])"

definition detectContentType :: "ct_input \<Rightarrow> string option \<Rightarrow> detect_error + string" where
  "detectContentType input preferredLanguage =
     (let mimeType = (case input of ObjectInput m \<Rightarrow> m | TextInput t \<Rightarrow> None);
          text = (case input of TextInput t \<Rightarrow> t | ObjectInput m \<Rightarrow> [])
      in if js_truthy_str mimeType \<and> js_includes (the mimeType) ''text/plain'' then Inr ''text''
         else if js_truthy_str mimeType \<and> js_includes (the mimeType) ''application/pdf'' then Inr ''document''
         else if js_truthy_str mimeType \<and>
                 (js_includes (the mimeType) ''application/msword'' \<or>
                  js_includes (the mimeType) ''application/vnd.openxmlformats-officedocument.wordprocessingml.document'')
           then Inr ''document''
         else
           let lowercaseText = js_lower text
           in if 2 < length (filter (js_includes lowercaseText) technicalKeywords) then Inr ''technical''
              else if 2 < length (filter (js_includes lowercaseText) scientificKeywords) then Inr ''scientific''
              else if js_truthy_str preferredLanguage
                then (case language_keywords (js_lower (the preferredLanguage)) of
                        Inl e \<Rightarrow> Inl e
                      | Inr kws \<Rightarrow>
                          if 1 < length (filter (js_includes lowercaseText) kws) then Inr (js_lower (the preferredLanguage))
                          else Inr ''text'')
              else Inr ''text'')"

subsection \<open>Text statistics\<close>

datatype complexity_level = Basic | Intermediate | Advanced

record TextProcessingResult =
  analysis :: ContentAnalysis
  wordCount :: nat
  readingTime :: rat
  complexity_score :: rat
  complexity_level :: complexity_level

text \<open>
  \<open>calculateComplexity\<close>: the Automated Readability Index, shifted and scaled to
  \<open>(ari + 21.43) * 5\<close> and clamped to \<open>[0, 100]\<close>.  Sentences are the non-empty pieces
  of \<open>split(/[.!?]+/)\<close>, words the pieces of the trimmed text split at white space,
  characters the non-space characters.
\<close>

definition calculateComplexity :: "string \<Rightarrow> rat" where
  "calculateComplexity text =
     (let sentences = filter (\<lambda>s. s \<noteq> []) (js_split_runs (\<lambda>c. c \<in> set ''.!?'') text);
          words = js_split_runs js_space (js_trim text);
          characters = length (filter (\<lambda>c. \<not> js_space c) text)
      in if length sentences = 0 \<or> length words = 0 then 0
         else
           let averageWordLength = of_nat characters / of_nat (length words);
               averageSentenceLength = of_nat (length words) / of_nat (length sentences);
               ariScore = 471 / 100 * averageWordLength + 1 / 2 * averageSentenceLength - 2143 / 100
           in max 0 (min 100 ((ariScore + 2143 / 100) * 5)))"

definition getComplexityLevel :: "rat \<Rightarrow> complexity_level" where
  "getComplexityLevel score = (if score < 40 then Basic else if score < 70 then Intermediate else Advanced)"

text \<open>\<open>processText({text, metadata})\<close>; the elapsed time is not modelled.\<close>

definition processText :: "dictionaries \<Rightarrow> string \<Rightarrow> TextProcessingResult" where
  "processText d text =
     (let wc = length (js_split_runs js_space (js_trim text));
          score = calculateComplexity text
      in \<lparr>analysis = analyzeContent d text, wordCount = wc, readingTime = of_nat wc / 200,
          complexity_score = score, complexity_level = getComplexityLevel score\<rparr>)"

subsection \<open>Example dictionaries\<close>

definition example_dictionaries :: dictionaries where
  "example_dictionaries =
     \<lparr>youtubeTerms = [(''subscribe'', ''subscribe'')], twitterTerms = [], tiktokTerms = [], instagramTerms = [],
      contentTypes = [(''tutorial'', [(''howto'', ''how-to'')])], contentFormats = []\<rparr>"

subsection \<open>Field equations and helper facts\<close>

lemma lower_constructor: "js_lower ''constructor'' = ''constructor''"
  by (simp add: js_lower_def js_lower_char_def)

lemma split_constructor: "js_split_runs js_space ''constructor'' = [''constructor'']"
  by (simp add: js_space_def)

lemma in_constructor: "js_in ''constructor'' d"
  by (simp add: js_in_def proto_keys_def)

lemma ca_platform_eq:
  "ca_platform (analyzeContent d t) =
     (let words = js_split_runs js_space (js_lower t);
          pscores = map (\<lambda>(p, dict). (p, length (filter (\<lambda>w. js_in w dict) words))) (platform_dicts d);
          maxP = js_max_nat (map snd pscores)
      in if js_pos maxP then (case find (\<lambda>(p, n). JNum (of_nat n) = maxP) pscores of Some (p, n) \<Rightarrow> p | None \<Rightarrow> General)
         else General)"
  unfolding analyzeContent_def Let_def by (simp only: ContentAnalysis.ContentAnalysis.select_convs)

lemma conf_platform_eq:
  "conf_platform (analyzeContent d t) =
     (let words = js_split_runs js_space (js_lower t);
          pscores = map (\<lambda>(p, dict). (p, length (filter (\<lambda>w. js_in w dict) words))) (platform_dicts d)
      in js_num_div (js_max_nat (map snd pscores)) (of_nat (length words)))"
  unfolding analyzeContent_def Let_def by (simp only: ContentAnalysis.ContentAnalysis.select_convs)

lemma contentType_eq:
  "contentType (analyzeContent d t) = dominant (score_words (contentTypes d) (js_split_runs js_space (js_lower t))) ''other''"
  unfolding analyzeContent_def Let_def by (simp only: ContentAnalysis.ContentAnalysis.select_convs)

lemma conf_contentType_eq:
  "conf_contentType (analyzeContent d t) =
     js_num_div (js_max_nat (map snd (score_words (contentTypes d) (js_split_runs js_space (js_lower t)))))
       (of_nat (length (js_split_runs js_space (js_lower t))))"
  unfolding analyzeContent_def Let_def by (simp only: ContentAnalysis.ContentAnalysis.select_convs)

lemma fold_score_id:
  "\<forall>(k, d) \<in> set fam. \<not> js_in w d \<Longrightarrow>
     fold (\<lambda>(k, d) sc. if js_in w d then map_set k ((case map_of sc k of None \<Rightarrow> 0 | Some n \<Rightarrow> n) + 1) sc else sc) fam sc = sc"
  by (induction fam arbitrary: sc) auto

lemma score_words_Nil:
  "\<forall>w \<in> set words. \<forall>(k, d) \<in> set fam. \<not> js_in w d \<Longrightarrow> score_words fam words = []"
proof -
  assume h: "\<forall>w \<in> set words. \<forall>(k, d) \<in> set fam. \<not> js_in w d"
  have "fold (\<lambda>w sc. fold (\<lambda>(k, d) sc. if js_in w d then map_set k ((case map_of sc k of None \<Rightarrow> 0 | Some n \<Rightarrow> n) + 1) sc
                                   else sc) fam sc) words sc = sc" for sc
    using h by (induction words arbitrary: sc) (simp_all add: fold_score_id)
  then show ?thesis by (simp add: score_words_def)
qed

lemma ari_shift_nonneg:
  "0 \<le> (471 / 100 * (of_nat c / of_nat w) + 1 / 2 * (of_nat w / of_nat s) - 2143 / 100 + 2143 / 100) * (5::rat)"
  by (simp add: divide_nonneg_nonneg)

subsection \<open>Properties\<close>

text \<open>
  \<open>processText\<close> counts at least one word, and exactly one for an empty or blank
  text: \<open>''.trim().split(/\\s+/)\<close> is \<open>['']\<close>.
\<close>

theorem processText_wordCount:
  "1 \<le> wordCount (processText d t) \<and> (js_trim t = [] \<longrightarrow> wordCount (processText d t) = 1)"
  by (cases "js_split_runs js_space (js_trim t)") (simp_all add: processText_def Let_def Suc_le_eq)

theorem processText_wordCount_witness:
  "1 \<le> wordCount (processText example_dictionaries ''  '') \<and> js_trim ''  '' = [] \<and>
   wordCount (processText example_dictionaries ''  '') = 1"
proof -
  have "js_trim ''  '' = []" by (simp add: js_trim_def js_space_def)
  with processText_wordCount [of example_dictionaries "''  ''"] show ?thesis by simp
qed

lemma platform_constructor: "ca_platform (analyzeContent d ''constructor'') = YouTube"
  unfolding ca_platform_eq Let_def lower_constructor split_constructor
  by (simp only: platform_dicts_def list.map prod.case filter.simps in_constructor if_True length_Cons list.size)
    (simp add: js_max_nat_def)

text \<open>
  \<open>word in dictionary\<close> also finds the properties of \<open>Object.prototype\<close>, so the
  word \<open>constructor\<close> scores one for every platform, whatever the dictionaries hold: it
  is classified as YouTube content with confidence 1.
\<close>

theorem analyzeContent_constructor:
  "ca_platform (analyzeContent d ''constructor'') = YouTube \<and> conf_platform (analyzeContent d ''constructor'') = JNum 1"
proof
  show "ca_platform (analyzeContent d ''constructor'') = YouTube"
    by (rule platform_constructor)
  show "conf_platform (analyzeContent d ''constructor'') = JNum 1"
    unfolding conf_platform_eq Let_def lower_constructor split_constructor
    by (simp only: platform_dicts_def list.map prod.case filter.simps in_constructor if_True length_Cons list.size)
      (simp add: js_max_nat_def js_div_def)
qed

text \<open>
  when no word is in any content-type dictionary, the content type is \<open>other\<close> and
  its confidence is \<open>-Infinity\<close>: \<open>Math.max\<close> of no scores is \<open>-Infinity\<close>, which is
  then divided by the word count.
\<close>

theorem analyzeContent_no_type:
  "\<forall>w \<in> set (js_split_runs js_space (js_lower t)). \<forall>(k, dict) \<in> set (contentTypes d). \<not> js_in w dict \<Longrightarrow>
     contentType (analyzeContent d t) = ''other'' \<and> conf_contentType (analyzeContent d t) = JNegInf"
  by (simp add: contentType_eq conf_contentType_eq score_words_Nil dominant_def js_max_nat_def)

theorem analyzeContent_no_type_witness:
  "contentType (analyzeContent example_dictionaries ''Hello World'') = ''other'' \<and>
   conf_contentType (analyzeContent example_dictionaries ''Hello World'') = JNegInf"
proof -
  have ws: "js_split_runs js_space (js_lower ''Hello World'') = [''hello'', ''world'']"
    by (simp add: js_lower_def js_lower_char_def js_space_def)
  have h: "\<forall>w \<in> set (js_split_runs js_space (js_lower ''Hello World'')). \<forall>(k, dict) \<in> set (contentTypes example_dictionaries).
      \<not> js_in w dict"
    by (simp add: ws example_dictionaries_def js_in_def proto_keys_def)
  from analyzeContent_no_type [OF h] show ?thesis .
qed

text \<open>
  C24: \<open>detectContentType\<close> throws a \<open>TypeError\<close> when the preferred language is
  \<open>constructor\<close> or \<open>__proto__\<close> (in any case) and the text is neither technical nor
  scientific: the keyword lookup returns an inherited property, which \<open>|| []\<close> keeps and
  which has no \<open>filter\<close>.
\<close>

theorem detectContentType_proto_throws:
  "js_lower lang \<in> {''constructor'', ''__proto__''} \<Longrightarrow>
     length (filter (js_includes (js_lower t)) technicalKeywords) \<le> 2 \<Longrightarrow>
     length (filter (js_includes (js_lower t)) scientificKeywords) \<le> 2 \<Longrightarrow>
     detectContentType (TextInput t) (Some lang) = Inl FilterNotAFunction"
  by (auto simp: detectContentType_def language_keywords_def languageSpecificKeywords_def proto_keys_def js_lower_def)

theorem detectContentType_proto_throws_witness:
  "js_lower ''Constructor'' \<in> {''constructor'', ''__proto__''} \<and>
   length (filter (js_includes (js_lower ''hello'')) technicalKeywords) \<le> 2 \<and>
   length (filter (js_includes (js_lower ''hello'')) scientificKeywords) \<le> 2 \<and>
   detectContentType (TextInput ''hello'') (Some ''Constructor'') = Inl FilterNotAFunction"
proof -
  have l: "js_lower ''Constructor'' = ''constructor''" "js_lower ''hello'' = ''hello''"
    by (simp_all add: js_lower_def js_lower_char_def)
  have t: "length (filter (js_includes ''hello'') technicalKeywords) \<le> 2"
      "length (filter (js_includes ''hello'') scientificKeywords) \<le> 2"
    by (simp_all add: technicalKeywords_def scientificKeywords_def js_includes_def)
  show ?thesis
    using detectContentType_proto_throws [of "''Constructor''" "''hello''"] l t by simp
qed

text \<open>The keywords are matched as substrings: an English text is classified as Spanish.\<close>

theorem detectContentType_substring_language:
  "detectContentType (TextInput ''model class'') (Some ''Spanish'') = Inr ''spanish''"
  by (simp add: detectContentType_def js_lower_def js_lower_char_def technicalKeywords_def scientificKeywords_def
      language_keywords_def languageSpecificKeywords_def js_includes_def)

end
