(* ===== verification/JsRegex.thy ===== *)
theory JsRegex
  imports Prelude
begin

text \<open>
  The fragment of JavaScript regular expressions that the text cleaners of
  \<open>src/src/workers/textProcessing.ts\<close> use, with the backtracking semantics of the
  ECMAScript matcher.  \<open>ends r s\<close> lists the rests of \<open>s\<close> after every way \<open>r\<close> matches a
  prefix of \<open>s\<close>, in the order the backtracking matcher tries them: an alternative tries its
  left side first, a greedy star tries one more iteration before stopping, a lazy star
  stops before trying one more, and an iteration that consumes nothing is refused (the
  empty check of \<open>RepeatMatcher\<close>).  The first element is the match JavaScript reports.
  \<open>replace_all r rep s\<close> is \<open>s.replace(r, rep)\<close> for a global \<open>r\<close> and a replacement without
  \<open>$\<close> patterns.  Characters are those below 256, as in the prelude.
\<close>

subsection \<open>Syntax and matcher\<close>

datatype regex =
  REps
| RChr "char \<Rightarrow> bool"
| RSeq regex regex
| RAlt regex regex
| RStar regex
| RLazy regex

function ends :: "regex \<Rightarrow> string \<Rightarrow> string list" where
  "ends REps s = [s]"
| "ends (RChr P) s = (case s of [] \<Rightarrow> [] | c # cs \<Rightarrow> if P c then [cs] else [])"
| "ends (RSeq a b) s = concat (map (ends b) (ends a s))"
| "ends (RAlt a b) s = ends a s @ ends b s"
| "ends (RStar r) s =
     concat (map (\<lambda>s'. if length s' < length s then ends (RStar r) s' else []) (ends r s)) @ [s]"
| "ends (RLazy r) s =
     s # concat (map (\<lambda>s'. if length s' < length s then ends (RLazy r) s' else []) (ends r s))"
  by pat_completeness auto
termination
  by (relation "inv_image (less_than <*lex*> less_than) (\<lambda>(r, s). (size r, length s))") auto

text \<open>The unfolding of the two stars through \<open>ends_iter\<close>, which only calls the matcher
  again once the rest it is given is known to be shorter: with it \<open>simp\<close> evaluates the
  matcher without unfolding under a binder.\<close>

fun ends_iter :: "(string \<Rightarrow> string list) \<Rightarrow> nat \<Rightarrow> string list \<Rightarrow> string list" where
  "ends_iter f n [] = []"
| "ends_iter f n (s1 # rest) = (if length s1 < n then f s1 else []) @ ends_iter f n rest"

lemma ends_iter_eq: "ends_iter f n xs = concat (map (\<lambda>s'. if length s' < n then f s' else []) xs)"
  by (induction xs) auto

declare ends.simps(5) [simp del] ends.simps(6) [simp del]

lemma ends_RStar [simp]: "ends (RStar r) s = ends_iter (ends (RStar r)) (length s) (ends r s) @ [s]"
  by (subst ends.simps(5)) (simp only: ends_iter_eq)

lemma ends_RLazy [simp]: "ends (RLazy r) s = s # ends_iter (ends (RLazy r)) (length s) (ends r s)"
  by (subst ends.simps(6)) (simp only: ends_iter_eq)

lemma set_ends_iter:
  "s' \<in> set (ends_iter f n xs) = (\<exists>s1 \<in> set xs. length s1 < n \<and> s' \<in> set (f s1))"
  by (induction xs) auto

text \<open>Membership in the results of a star, as introduction and elimination rules (as
  rewrite rules they would unfold the star again under the quantifier).\<close>

lemma ends_RStar_self: "s \<in> set (ends (RStar r) s)"
  by simp

lemma ends_RStar_step:
  "s1 \<in> set (ends r s) \<Longrightarrow> length s1 < length s \<Longrightarrow> s' \<in> set (ends (RStar r) s1) \<Longrightarrow>
   s' \<in> set (ends (RStar r) s)"
  by (simp del: ends_RStar add: ends_RStar[of r s] set_ends_iter) blast

lemma ends_RStarE:
  "s' \<in> set (ends (RStar r) s) \<Longrightarrow> s' \<noteq> s \<Longrightarrow>
   \<exists>s1. s1 \<in> set (ends r s) \<and> length s1 < length s \<and> s' \<in> set (ends (RStar r) s1)"
  by (simp del: ends_RStar add: ends_RStar[of r s] set_ends_iter) blast

lemma ends_RLazy_self: "s \<in> set (ends (RLazy r) s)"
  by simp

lemma ends_RLazy_step:
  "s1 \<in> set (ends r s) \<Longrightarrow> length s1 < length s \<Longrightarrow> s' \<in> set (ends (RLazy r) s1) \<Longrightarrow>
   s' \<in> set (ends (RLazy r) s)"
  by (simp del: ends_RLazy add: ends_RLazy[of r s] set_ends_iter) blast

lemma ends_RLazyE:
  "s' \<in> set (ends (RLazy r) s) \<Longrightarrow> s' \<noteq> s \<Longrightarrow>
   \<exists>s1. s1 \<in> set (ends r s) \<and> length s1 < length s \<and> s' \<in> set (ends (RLazy r) s1)"
  by (simp del: ends_RLazy add: ends_RLazy[of r s] set_ends_iter) blast

text \<open>The derived forms: \<open>r+\<close>, the greedy \<open>r?\<close>, a literal character, a sequence and a
  literal string.\<close>

definition RPlus :: "regex \<Rightarrow> regex" where
  "RPlus r = RSeq r (RStar r)"

definition ROpt :: "regex \<Rightarrow> regex" where
  "ROpt r = RAlt r REps"

definition rx_chr :: "char \<Rightarrow> regex" where
  "rx_chr c = RChr (\<lambda>x. x = c)"

definition rx_seq :: "regex list \<Rightarrow> regex" where
  "rx_seq rs = foldr RSeq rs REps"

definition rx_str :: "string \<Rightarrow> regex" where
  "rx_str s = rx_seq (map rx_chr s)"

text \<open>A literal under the flag \<open>i\<close>: \<open>Canonicalize\<close> upper-cases both sides, which on the
  characters below 256 relates an ASCII letter exactly to its two cases.\<close>

definition rx_istr :: "string \<Rightarrow> regex" where
  "rx_istr s = rx_seq (map (\<lambda>c. RChr (\<lambda>x. js_lower_char x = js_lower_char c)) s)"

text \<open>The character classes: \<open>\\d\<close>, \<open>\\w\<close>, \<open>\\s\<close>, \<open>\\S\<close> and \<open>.\<close> (every character but a line
  terminator).\<close>

definition js_digit :: "char \<Rightarrow> bool" where
  "js_digit c = (let n = of_char c :: nat in 48 \<le> n \<and> n \<le> 57)"

definition js_word :: "char \<Rightarrow> bool" where
  "js_word c =
     (let n = of_char c :: nat in (48 \<le> n \<and> n \<le> 57) \<or> (65 \<le> n \<and> n \<le> 90) \<or> (97 \<le> n \<and> n \<le> 122) \<or> n = 95)"

definition js_dot :: "char \<Rightarrow> bool" where
  "js_dot c = (c \<noteq> CHR 0x0A \<and> c \<noteq> CHR 0x0D)"

subsection \<open>Global replacement\<close>

text \<open>
  \<open>String.prototype.replace\<close> with a global expression: at each position the first match
  is replaced and the scan goes on after it; an empty match keeps the character it stands
  before, and the position after the last character is tried too.
\<close>

function replace_all :: "regex \<Rightarrow> string \<Rightarrow> string \<Rightarrow> string" where
  "replace_all r rep [] = (if ends r [] = [] then [] else rep)"
| "replace_all r rep (c # cs) =
     (case ends r (c # cs) of
        [] \<Rightarrow> c # replace_all r rep cs
      | s' # _ \<Rightarrow> if length s' < Suc (length cs) then rep @ replace_all r rep s'
                 else rep @ c # replace_all r rep cs)"
  by pat_completeness auto
termination
  by (relation "measure (\<lambda>(r, rep, s). length s)") auto

text \<open>The reference for the replacement of runs: every maximal run of \<open>P\<close> characters
  becomes \<open>rep\<close>.\<close>

function squeeze :: "(char \<Rightarrow> bool) \<Rightarrow> string \<Rightarrow> string \<Rightarrow> string" where
  "squeeze P rep [] = []"
| "squeeze P rep (c # cs) = (if P c then rep @ squeeze P rep (dropWhile P cs) else c # squeeze P rep cs)"
  by pat_completeness auto
termination
  by (relation "measure (\<lambda>(P, rep, s). length s)") (auto simp: le_imp_less_Suc length_dropWhile_le)

text \<open>\<open>split\<close> on a one-character string: every occurrence separates two pieces.\<close>

fun js_split_char :: "char \<Rightarrow> string \<Rightarrow> string list" where
  "js_split_char d [] = [[]]"
| "js_split_char d (c # cs) =
     (let ws = js_split_char d cs in if c = d then [] # ws else (c # hd ws) # tl ws)"

subsection \<open>Language semantics\<close>

inductive rx_match :: "regex \<Rightarrow> string \<Rightarrow> bool" where
  m_eps: "rx_match REps []"
| m_chr: "P c \<Longrightarrow> rx_match (RChr P) [c]"
| m_seq: "rx_match a u \<Longrightarrow> rx_match b v \<Longrightarrow> rx_match (RSeq a b) (u @ v)"
| m_altl: "rx_match a u \<Longrightarrow> rx_match (RAlt a b) u"
| m_altr: "rx_match b u \<Longrightarrow> rx_match (RAlt a b) u"
| m_star_nil: "rx_match (RStar r) []"
| m_star: "rx_match r u \<Longrightarrow> u \<noteq> [] \<Longrightarrow> rx_match (RStar r) v \<Longrightarrow> rx_match (RStar r) (u @ v)"
| m_lazy_nil: "rx_match (RLazy r) []"
| m_lazy: "rx_match r u \<Longrightarrow> u \<noteq> [] \<Longrightarrow> rx_match (RLazy r) v \<Longrightarrow> rx_match (RLazy r) (u @ v)"

inductive_cases rx_match_RChrE [elim!]: "rx_match (RChr P) u"
inductive_cases rx_match_REpsE [elim!]: "rx_match REps u"

subsection \<open>The matcher against the language\<close>

lemma ends_suffix: "s' \<in> set (ends r s) \<Longrightarrow> suffix s' s"
proof (induction r s arbitrary: s' rule: ends.induct)
  case (2 P s)
  then show ?case by (cases s) (auto split: if_splits intro: suffix_ConsI)
next
  case (3 a b s)
  from "3.prems" obtain s1 where "s1 \<in> set (ends a s)" "s' \<in> set (ends b s1)" by auto
  with "3.IH" show ?case by (meson suffix_order.trans)
next
  case (5 r s)
  show ?case
  proof (cases "s' = s")
    case False
    with "5.prems" obtain s1 where "s1 \<in> set (ends r s)" "length s1 < length s" "s' \<in> set (ends (RStar r) s1)"
      by (blast dest: ends_RStarE)
    with "5.IH" show ?thesis by (meson suffix_order.trans)
  qed simp
next
  case (6 r s)
  show ?case
  proof (cases "s' = s")
    case False
    with "6.prems" obtain s1 where "s1 \<in> set (ends r s)" "length s1 < length s" "s' \<in> set (ends (RLazy r) s1)"
      by (blast dest: ends_RLazyE)
    with "6.IH" show ?thesis by (meson suffix_order.trans)
  qed simp
qed auto

lemma ends_sound: "s' \<in> set (ends r s) \<Longrightarrow> \<exists>u. s = u @ s' \<and> rx_match r u"
proof (induction r s arbitrary: s' rule: ends.induct)
  case (2 P s)
  then show ?case by (cases s) (auto split: if_splits intro: rx_match.intros)
next
  case (3 a b s)
  from "3.prems" obtain s1 where "s1 \<in> set (ends a s)" "s' \<in> set (ends b s1)" by auto
  with "3.IH" show ?case by (metis append.assoc m_seq)
next
  case (5 r s)
  show ?case
  proof (cases "s' = s")
    case False
    with "5.prems" obtain s1 where s1: "s1 \<in> set (ends r s)" "length s1 < length s" "s' \<in> set (ends (RStar r) s1)"
      by (blast dest: ends_RStarE)
    with "5.IH" obtain u v where "s = u @ s1" "rx_match r u" "s1 = v @ s'" "rx_match (RStar r) v"
      by blast
    with s1(2) show ?thesis by (metis append.assoc append_Nil m_star)
  qed (auto intro: m_star_nil)
next
  case (6 r s)
  show ?case
  proof (cases "s' = s")
    case False
    with "6.prems" obtain s1 where s1: "s1 \<in> set (ends r s)" "length s1 < length s" "s' \<in> set (ends (RLazy r) s1)"
      by (blast dest: ends_RLazyE)
    with "6.IH" obtain u v where "s = u @ s1" "rx_match r u" "s1 = v @ s'" "rx_match (RLazy r) v"
      by blast
    with s1(2) show ?thesis by (metis append.assoc append_Nil m_lazy)
  qed (auto intro: m_lazy_nil)
next
  case (4 a b s)
  from "4.prems" have "s' \<in> set (ends a s) \<or> s' \<in> set (ends b s)" by simp
  then show ?case by (meson "4.IH" m_altl m_altr)
qed (auto intro: m_eps)

lemma ends_complete: "rx_match r u \<Longrightarrow> s' \<in> set (ends r (u @ s'))"
proof (induction r u arbitrary: s' rule: rx_match.induct)
  case (m_seq a u b v)
  have "v @ s' \<in> set (ends a (u @ v @ s'))" by (rule m_seq.IH(1))
  moreover have "s' \<in> set (ends b (v @ s'))" by (rule m_seq.IH(2))
  ultimately show ?case by auto
next
  case (m_star r u v)
  have "v @ s' \<in> set (ends r (u @ v @ s'))" by (rule m_star.IH(1))
  moreover have "length (v @ s') < length (u @ v @ s')" using m_star.hyps(2) by simp
  ultimately show ?case using m_star.IH(2) by (simp only: append.assoc) (rule ends_RStar_step)
next
  case (m_lazy r u v)
  have "v @ s' \<in> set (ends r (u @ v @ s'))" by (rule m_lazy.IH(1))
  moreover have "length (v @ s') < length (u @ v @ s')" using m_lazy.hyps(2) by simp
  ultimately show ?case using m_lazy.IH(2) by (simp only: append.assoc) (rule ends_RLazy_step)
next
  case (m_altl a u b)
  then show ?case by simp
next
  case (m_altr b u a)
  then show ?case by simp
qed simp_all
text \<open>The matcher lists exactly the rests after the prefixes in the language.\<close>

lemma ends_correct: "s' \<in> set (ends r s) = (\<exists>u. s = u @ s' \<and> rx_match r u)"
  using ends_sound ends_complete by blast

subsection \<open>Replacement of single characters and of runs\<close>

lemma replace_all_RChr: "replace_all (RChr P) rep s = concat (map (\<lambda>c. if P c then rep else [c]) s)"
  by (induction s) auto

lemma ends_RStar_RChr: "\<exists>rest. ends (RStar (RChr P)) s = dropWhile P s # rest"
proof (induction s)
  case (Cons a s)
  then obtain rest where IH: "ends (RStar (RChr P)) s = dropWhile P s # rest" by blast
  show ?case by (cases "P a") (simp_all del: ends_RStar add: ends_RStar[of "RChr P" "a # s"] IH)
qed simp

text \<open>A global \<open>P+\<close> replacement is the run-squeezing reference.\<close>

lemma replace_all_RPlus_RChr: "replace_all (RPlus (RChr P)) rep s = squeeze P rep s"
proof (induction P rep s rule: squeeze.induct)
  case (2 P rep c cs)
  show ?case
  proof (cases "P c")
    case True
    obtain rest where "ends (RStar (RChr P)) cs = dropWhile P cs # rest"
      using ends_RStar_RChr by blast
    with True 2 show ?thesis by (simp add: RPlus_def le_imp_less_Suc length_dropWhile_le)
  next
    case False
    with 2 show ?thesis by (simp add: RPlus_def)
  qed
qed (simp add: RPlus_def)

lemma set_squeeze: "set (squeeze P rep s) \<subseteq> {c \<in> set s. \<not> P c} \<union> set rep"
  by (induction P rep s rule: squeeze.induct) (auto dest: set_dropWhileD)

lemma squeeze_single: "P x \<Longrightarrow> \<not> sublist [x, x] (squeeze P [x] s)"
proof (induction P "[x]" s rule: squeeze.induct)
  case (2 P c cs)
  show ?case
  proof (cases "P c")
    case True
    show ?thesis
    proof (cases "dropWhile P cs")
      case (Cons e es)
      then have "\<not> P e" by (metis dropWhile_eq_Cons_conv)
      with True Cons 2 show ?thesis by (auto simp: sublist_Cons_right)
    next
      case Nil
      with True show ?thesis by (simp del: dropWhile_eq_Nil_conv add: sublist_Cons_right)
    qed
  next
    case False
    with 2 show ?thesis by (auto simp: sublist_Cons_right)
  qed
qed simp
subsection \<open>Trimming and splitting\<close>

lemma js_trim_Nil [simp]: "js_trim [] = []"
  by (simp add: js_trim_def)

lemma js_trim_sublist: "sublist (js_trim s) s"
proof -
  have "suffix (dropWhile js_space (rev (dropWhile js_space s))) (rev (dropWhile js_space s))"
    by (simp add: suffix_dropWhile)
  then have "prefix (js_trim s) (dropWhile js_space s)"
    by (simp add: js_trim_def suffix_to_prefix)
  moreover have "suffix (dropWhile js_space s) s" by (simp add: suffix_dropWhile)
  ultimately show ?thesis by (meson prefix_imp_sublist suffix_imp_sublist sublist_order.order.trans)
qed

lemma js_trim_idem: "js_trim (js_trim s) = js_trim s"
proof -
  let ?d = "dropWhile js_space s"
  let ?t = "js_trim s"
  have pre: "prefix ?t ?d"
    using suffix_dropWhile[of js_space "rev ?d"] by (simp add: js_trim_def suffix_to_prefix)
  have "dropWhile js_space ?t = ?t"
  proof (cases ?t)
    case (Cons a as)
    with pre obtain ds where "?d = a # ds" by (auto simp: prefix_def)
    then have "\<not> js_space a" by (metis dropWhile_eq_Cons_conv)
    with Cons show ?thesis by simp
  qed simp
  moreover have "dropWhile js_space (rev ?t) = rev ?t"
  proof (cases "rev ?t")
    case (Cons a as)
    then have "dropWhile js_space (rev ?d) = a # as" by (simp add: js_trim_def)
    then have "\<not> js_space a" by (metis dropWhile_eq_Cons_conv)
    with Cons show ?thesis by simp
  qed simp
  ultimately show ?thesis by (simp add: js_trim_def)
qed

lemma js_split_char_notin: "d \<notin> set s \<Longrightarrow> js_split_char d s = [s]"
  by (induction s) auto

subsection \<open>Lengths\<close>

lemma length_replace_all_Nil: "rep = [] \<Longrightarrow> length (replace_all r rep s) \<le> length s"
  by (induction r rep s rule: replace_all.induct) (auto split: list.splits)

lemma length_squeeze_single: "length (squeeze P [x] s) \<le> length s"
  by (induction P "[x]" s rule: squeeze.induct)
     (auto intro: le_trans[OF _ length_dropWhile_le])

lemma js_join_split_char: "js_join [d] (js_split_char d s) = s"
proof (induction s)
  case (Cons c cs)
  then show ?case
    by (cases "js_split_char d cs"; cases "tl (js_split_char d cs)") (auto simp: Let_def)
qed simp

lemma length_js_join: "length (js_join sep ws) = sum_list (map length ws) + length sep * (length ws - 1)"
  by (induction sep ws rule: js_join.induct) auto

lemma length_js_join_filter: "length (js_join sep (filter P ws)) \<le> length (js_join sep ws)"
proof -
  have "sum_list (map length (filter P ws)) \<le> sum_list (map length ws)"
    by (induction ws) auto
  moreover have "length (filter P ws) - 1 \<le> length ws - 1"
    by (simp add: diff_le_mono)
  ultimately show ?thesis
    by (simp add: length_js_join add_mono)
qed

lemma length_js_trim: "length (js_trim s) \<le> length s"
  using js_trim_sublist sublist_length_le by blast

end
