(* ===== verification/TextCleaning.thy ===== *)
theory TextCleaning
  imports JsRegex
begin

text \<open>
  The text cleaners of \<open>src/src/workers/textProcessing.ts\<close> (lines 113--237):
  \<open>cleanText\<close> with its seven optional passes, the fixed option sets of
  \<open>cleanWebPageContent\<close> and \<open>cleanTranscript\<close>, and \<open>cleanYouTubeTranscript\<close>.  Each
  pass is a global \<open>replace\<close> with one of the source's regular expressions, written in the
  syntax of \<open>JsRegex\<close>.  The HTML extraction of \<open>cleanWebPageContent\<close> (the \<open>cheerio\<close>
  library) is a parameter.
\<close>

subsection \<open>The regular expressions\<close>

definition rx_digit :: regex where
  "rx_digit = RChr js_digit"

text \<open>\<open>/\[?\d{1,2}:\d{2}(:\d{2})?\]?/g\<close>\<close>

definition timestamp_rx :: regex where
  "timestamp_rx =
     rx_seq [ROpt (rx_chr CHR ''[''), rx_digit, ROpt rx_digit, rx_chr CHR '':'', rx_digit, rx_digit,
             ROpt (rx_seq [rx_chr CHR '':'', rx_digit, rx_digit]), ROpt (rx_chr CHR '']'')]"

text \<open>\<open>/\(\d{1,2}:\d{2}(:\d{2})?\)/g\<close>\<close>

definition paren_timestamp_rx :: regex where
  "paren_timestamp_rx =
     rx_seq [rx_chr CHR ''('', rx_digit, ROpt rx_digit, rx_chr CHR '':'', rx_digit, rx_digit,
             ROpt (rx_seq [rx_chr CHR '':'', rx_digit, rx_digit]), rx_chr CHR '')'']"

text \<open>\<open>/https?:\/\/\S+/g\<close> and \<open>/www\.\S+/g\<close>\<close>

definition url_rx :: regex where
  "url_rx = rx_seq [rx_str ''http'', ROpt (rx_chr CHR ''s''), rx_str ''://'', RPlus (RChr (\<lambda>c. \<not> js_space c))]"

definition www_rx :: regex where
  "www_rx = rx_seq [rx_str ''www.'', RPlus (RChr (\<lambda>c. \<not> js_space c))]"

text \<open>\<open>/[\w.-]+@[\w.-]+\.\w+/g\<close>\<close>

definition email_rx :: regex where
  "email_rx =
     (let part = RPlus (RChr (\<lambda>c. js_word c \<or> c = CHR ''.'' \<or> c = CHR ''-''))
      in rx_seq [part, rx_chr CHR ''@'', part, rx_chr CHR ''.'', RPlus (RChr js_word)])"

text \<open>\<open>/\[.*?\]/g\<close>, \<open>/\(.*?\)/g\<close> and \<open>/\{.*?\}/g\<close>\<close>

definition enclosed_rx :: "char \<Rightarrow> char \<Rightarrow> regex" where
  "enclosed_rx op cl = rx_seq [rx_chr op, RLazy (RChr js_dot), rx_chr cl]"

text \<open>\<open>/[^\w\s.,!?-]/g\<close>\<close>

definition special_rx :: regex where
  "special_rx = RChr (\<lambda>c. \<not> (js_word c \<or> js_space c \<or> c \<in> set ''.,!?-''))"

text \<open>\<open>/\s+/g\<close>\<close>

definition space_run_rx :: regex where
  "space_run_rx = RPlus (RChr js_space)"

subsection \<open>cleanText\<close>

text \<open>The options object; an absent field takes the default \<open>true\<close> of the destructuring.\<close>

record CleanTextOptions =
  removeTimestamps :: "bool option"
  removeSpecialChars :: "bool option"
  removeBrackets :: "bool option"
  removeUrls :: "bool option"
  removeEmails :: "bool option"
  removeExtraSpaces :: "bool option"
  removeEmptyLines :: "bool option"

text \<open>\<open>options = {}\<close>, the default argument.\<close>

definition no_options :: CleanTextOptions where
  "no_options =
     \<lparr>removeTimestamps = None, removeSpecialChars = None, removeBrackets = None, removeUrls = None,
      removeEmails = None, removeExtraSpaces = None, removeEmptyLines = None\<rparr>"

text \<open>The passes of \<open>cleanText\<close>, one per \<open>if\<close> block of the source, each applied when its
  option is on.\<close>

definition timestamps_pass :: "bool \<Rightarrow> string \<Rightarrow> string" where
  "timestamps_pass on s = (if on then replace_all paren_timestamp_rx [] (replace_all timestamp_rx [] s) else s)"

definition urls_pass :: "bool \<Rightarrow> string \<Rightarrow> string" where
  "urls_pass on s = (if on then replace_all www_rx [] (replace_all url_rx [] s) else s)"

definition emails_pass :: "bool \<Rightarrow> string \<Rightarrow> string" where
  "emails_pass on s = (if on then replace_all email_rx [] s else s)"

definition brackets_pass :: "bool \<Rightarrow> string \<Rightarrow> string" where
  "brackets_pass on s =
     (if on then replace_all (enclosed_rx CHR ''{'' CHR ''}'') []
                   (replace_all (enclosed_rx CHR ''('' CHR '')'') [] (replace_all (enclosed_rx CHR ''['' CHR '']'') [] s))
      else s)"

definition special_pass :: "bool \<Rightarrow> string \<Rightarrow> string" where
  "special_pass on s = (if on then replace_all special_rx [] s else s)"

definition spaces_pass :: "bool \<Rightarrow> string \<Rightarrow> string" where
  "spaces_pass on s = (if on then replace_all space_run_rx '' '' s else s)"

definition lines_pass :: "bool \<Rightarrow> string \<Rightarrow> string" where
  "lines_pass on s =
     (if on then js_join js_newline (filter (\<lambda>line. 0 < length (js_trim line)) (js_split_char CHR 0x0A s))
      else s)"

definition cleanText :: "string \<Rightarrow> CleanTextOptions \<Rightarrow> string" where
  "cleanText text options =
     (let timestamps = js_nullish (removeTimestamps options) True;
          specialChars = js_nullish (removeSpecialChars options) True;
          brackets = js_nullish (removeBrackets options) True;
          urls = js_nullish (removeUrls options) True;
          emails = js_nullish (removeEmails options) True;
          extraSpaces = js_nullish (removeExtraSpaces options) True;
          emptyLines = js_nullish (removeEmptyLines options) True
      in js_trim (lines_pass emptyLines (spaces_pass extraSpaces (special_pass specialChars
           (brackets_pass brackets (emails_pass emails (urls_pass urls (timestamps_pass timestamps text))))))))"

subsection \<open>The fixed cleaners\<close>

definition web_options :: CleanTextOptions where
  "web_options =
     \<lparr>removeTimestamps = Some True, removeSpecialChars = Some True, removeBrackets = Some True,
      removeUrls = Some True, removeEmails = Some True, removeExtraSpaces = Some True,
      removeEmptyLines = Some True\<rparr>"

text \<open>\<open>cleanWebPageContent\<close>: \<open>extract\<close> stands for the \<open>cheerio\<close> extraction of lines 184--195.\<close>

definition cleanWebPageContent :: "(string \<Rightarrow> string) \<Rightarrow> string \<Rightarrow> string" where
  "cleanWebPageContent extract html = cleanText (extract html) web_options"

definition transcript_options :: CleanTextOptions where
  "transcript_options = web_options\<lparr>removeSpecialChars := Some False\<rparr>"

definition cleanTranscript :: "string \<Rightarrow> string" where
  "cleanTranscript transcript = cleanText transcript transcript_options"

text \<open>\<open>/\[?Speaker\s*\d*\]?:\s*/gi\<close>, \<open>/\[.*?\]:\s*/g\<close> and the annotations, all with the
  flag \<open>i\<close> but the second.\<close>

definition speaker_rx :: regex where
  "speaker_rx =
     rx_seq [ROpt (rx_chr CHR ''[''), rx_istr ''Speaker'', RStar (RChr js_space), RStar rx_digit,
             ROpt (rx_chr CHR '']''), rx_chr CHR '':'', RStar (RChr js_space)]"

definition label_rx :: regex where
  "label_rx = rx_seq [enclosed_rx CHR ''['' CHR '']'', rx_chr CHR '':'', RStar (RChr js_space)]"

definition annotations :: "string list" where
  "annotations = [''[Music]'', ''[Applause]'', ''[Laughter]'', ''[Background Noise]'', ''[Inaudible]'']"

definition cleanYouTubeTranscript :: "string \<Rightarrow> string" where
  "cleanYouTubeTranscript transcript =
     (let cleaned = replace_all label_rx [] (replace_all speaker_rx [] transcript);
          cleaned = fold (\<lambda>a c. replace_all (rx_istr a) [] c) annotations cleaned
      in cleanTranscript cleaned)"

subsection \<open>The shape of a cleaned text\<close>

text \<open>The characters the default cleaning keeps: ASCII word characters, the space and the
  punctuation \<open>.,!?-\<close>.\<close>

definition clean_char :: "char \<Rightarrow> bool" where
  "clean_char c = (js_word c \<or> c = CHR '' '' \<or> c \<in> set ''.,!?-'')"

subsection \<open>Lemmas\<close>

lemma special_spaces_shape:
  "list_all clean_char (spaces_pass True (special_pass True s)) \<and>
   \<not> sublist ''  '' (spaces_pass True (special_pass True s))"
proof -
  let ?s5 = "special_pass True s"
  have s5: "list_all (\<lambda>c. js_word c \<or> js_space c \<or> c \<in> set ''.,!?-'') ?s5"
    by (induction s) (auto simp: special_pass_def special_rx_def replace_all_RChr)
  have eq: "spaces_pass True ?s5 = squeeze js_space '' '' ?s5"
    by (simp add: spaces_pass_def space_run_rx_def replace_all_RPlus_RChr)
  have "list_all clean_char (squeeze js_space '' '' ?s5)"
    using s5 set_squeeze[of js_space "'' ''" ?s5] by (fastforce simp: list_all_iff clean_char_def)
  moreover have "\<not> sublist ''  '' (squeeze js_space '' '' ?s5)"
    using squeeze_single[of js_space "CHR '' ''"] by (simp add: js_space_def)
  ultimately show ?thesis by (simp add: eq)
qed

lemma lines_pass_no_newline:
  "CHR 0x0A \<notin> set s \<Longrightarrow> lines_pass on s = s \<or> lines_pass on s = []"
  by (simp add: lines_pass_def js_split_char_notin)

lemma clean_char_newline: "list_all clean_char s \<Longrightarrow> CHR 0x0A \<notin> set s"
  by (auto simp: list_all_iff clean_char_def js_word_def)

lemma length_lines_pass: "length (lines_pass on s) \<le> length s"
  using length_js_join_filter[of js_newline _ "js_split_char CHR 0x0A s"]
  by (simp add: lines_pass_def js_newline_def js_join_split_char)

lemma length_passes:
  "length (timestamps_pass on s) \<le> length s" "length (urls_pass on s) \<le> length s"
  "length (emails_pass on s) \<le> length s" "length (brackets_pass on s) \<le> length s"
  "length (special_pass on s) \<le> length s" "length (spaces_pass on s) \<le> length s"
  by (auto simp: timestamps_pass_def urls_pass_def emails_pass_def brackets_pass_def special_pass_def
        spaces_pass_def space_run_rx_def replace_all_RPlus_RChr length_squeeze_single
      intro: le_trans[OF length_replace_all_Nil] length_replace_all_Nil)

lemmas rx_defs = timestamp_rx_def paren_timestamp_rx_def url_rx_def www_rx_def email_rx_def
     enclosed_rx_def special_rx_def space_run_rx_def rx_seq_def rx_str_def rx_chr_def rx_istr_def ROpt_def RPlus_def rx_digit_def
     js_digit_def js_word_def js_dot_def js_space_def Let_def speaker_rx_def label_rx_def
lemmas pass_defs = timestamps_pass_def urls_pass_def emails_pass_def brackets_pass_def special_pass_def
  spaces_pass_def lines_pass_def js_trim_def js_newline_def

text \<open>C25: With removeSpecialChars and removeExtraSpaces on (or absent), cleanText returns one
  line of ASCII word characters, spaces and the punctuation .,!? and -, with no two spaces in a
  row and no space at either end: every line break has become a space before the empty-line pass
  runs, and every non-ASCII letter is deleted.\<close>

theorem cleanText_shape:
  assumes "js_nullish (removeSpecialChars options) True" "js_nullish (removeExtraSpaces options) True"
  shows "list_all clean_char (cleanText text options) \<and> \<not> sublist ''  '' (cleanText text options) \<and>
         js_trim (cleanText text options) = cleanText text options"
proof -
  obtain s el where def: "cleanText text options = js_trim (lines_pass el (spaces_pass True (special_pass True s)))"
    using assms by (simp add: cleanText_def Let_def)
  let ?s6 = "spaces_pass True (special_pass True s)"
  have sh: "list_all clean_char ?s6 \<and> \<not> sublist ''  '' ?s6" by (rule special_spaces_shape)
  then have "CHR 0x0A \<notin> set ?s6" using clean_char_newline by blast
  then have "lines_pass el ?s6 = ?s6 \<or> lines_pass el ?s6 = []" by (rule lines_pass_no_newline)
  with sh have "list_all clean_char (lines_pass el ?s6) \<and> \<not> sublist ''  '' (lines_pass el ?s6)"
    by auto
  moreover have "sublist (cleanText text options) (lines_pass el ?s6)"
    unfolding def by (rule js_trim_sublist)
  ultimately show ?thesis
    by (auto simp: def js_trim_idem list_all_iff dest: set_mono_sublist intro: sublist_order.order.trans)
qed
theorem cleanText_shape_witness:
  "js_nullish (removeSpecialChars no_options) True \<and> js_nullish (removeExtraSpaces no_options) True \<and>
   list_all clean_char (cleanText ''a'' no_options) \<and> \<not> sublist ''  '' (cleanText ''a'' no_options) \<and>
   js_trim (cleanText ''a'' no_options) = cleanText ''a'' no_options"
  using cleanText_shape[of no_options "''a''"] by (simp add: no_options_def)

text \<open>cleanText never returns a text longer than its input, whatever the options.\<close>

theorem cleanText_shorter: "length (cleanText text options) \<le> length text"
  unfolding cleanText_def Let_def
  by (rule le_trans[OF length_js_trim] le_trans[OF length_lines_pass] le_trans[OF length_passes(6)]
           le_trans[OF length_passes(5)] le_trans[OF length_passes(4)] le_trans[OF length_passes(3)]
           le_trans[OF length_passes(2)] le_trans[OF length_passes(1)] order_refl)+
text \<open>cleanYouTubeTranscript removes a label "[...]:" with a lazy ".*?" that may run over
  an earlier closing bracket, so the words between an annotation and a later label are lost:
  "[Music] hi [x]: yo" becomes "yo".\<close>

theorem cleanYouTubeTranscript_label_swallows_words:
  "cleanYouTubeTranscript ''[Music] hi [x]: yo'' = ''yo''"
  by (simp add: cleanYouTubeTranscript_def cleanTranscript_def cleanText_def transcript_options_def
      web_options_def annotations_def rx_defs pass_defs js_lower_char_def cong: list.case_cong_weak)

text \<open>The timestamp pattern also removes clock times from ordinary prose.\<close>

lemma cleanText_removes_clock_time: "cleanText ''at 10:30 ok'' no_options = ''at ok''"
  by (simp add: cleanText_def no_options_def rx_defs pass_defs cong: list.case_cong_weak)

end
