(* ===== verification/SmartCorrection.thy ===== *)
theory SmartCorrection
  imports ContentAnalysis CacheManager TextCleaning
begin

text \<open>
  \<open>correctText\<close> of \<open>src/src/utils/smartCorrection.ts\<close> (lines 109--239) with its helpers
  \<open>getPlatformDictionary\<close>, \<open>findInFormatDictionary\<close> and \<open>getContextualCorrection\<close>, and
  \<open>formatContentForVectorDB\<close> of \<open>src/src/workers/textProcessing.ts\<close> (lines 239--260),
  which cleans a text and then corrects it.  The module-level \<open>correctionCache\<close> is a
  \<open>NodeCache\<close> of \<open>CacheManager\<close> (standard TTL 86400 s, no key limit), threaded through
  the loop; the chat completion is an oracle; the clock reads one time \<open>now\<close> for the
  whole call.  \<open>fastest-levenshtein\<close>'s \<open>distance\<close> is the edit distance.
\<close>

subsection \<open>Property values of JavaScript objects\<close>

text \<open>\<open>obj[k]\<close> on a dictionary: an own string, a property inherited from
  \<open>Object.prototype\<close>, or \<open>undefined\<close>; and what \<open>Array.prototype.join\<close> makes of each
  (Node prints a native function with its name, \<open>Object\<close> for \<open>constructor\<close>).\<close>

datatype js_prop = PStr string | PProto string | PUndef

definition js_get :: "string \<Rightarrow> (string \<times> string) list \<Rightarrow> js_prop" where
  "js_get k obj =
     (case map_of obj k of Some v \<Rightarrow> PStr v | None \<Rightarrow> if k \<in> set proto_keys then PProto k else PUndef)"

fun js_prop_str :: "js_prop \<Rightarrow> string" where
  "js_prop_str (PStr v) = v"
| "js_prop_str (PProto k) =
     (if k = ''__proto__'' then ''[object Object]''
      else ''function '' @ (if k = ''constructor'' then ''Object'' else k) @ ''() { [native code] }'')"
| "js_prop_str PUndef = []"

subsection \<open>Edit distance\<close>

fun levenshtein :: "string \<Rightarrow> string \<Rightarrow> nat" where
  "levenshtein [] ys = length ys"
| "levenshtein xs [] = length xs"
| "levenshtein (x # xs) (y # ys) =
     min (min (Suc (levenshtein xs (y # ys))) (Suc (levenshtein (x # xs) ys)))
         (levenshtein xs ys + (if x = y then 0 else 1))"

subsection \<open>The helpers\<close>

datatype correction_source = Dictionary | AI | NoSource

record CorrectionResult =
  original :: string
  corrected :: js_prop
  confidence :: rat
  source :: correction_source

fun getPlatformDictionary :: "dictionaries \<Rightarrow> platform \<Rightarrow> (string \<times> string) list" where
  "getPlatformDictionary d YouTube = youtubeTerms d"
| "getPlatformDictionary d Twitter = twitterTerms d"
| "getPlatformDictionary d TikTok = tiktokTerms d"
| "getPlatformDictionary d Instagram = instagramTerms d"
| "getPlatformDictionary d General = []"

text \<open>\<open>findInFormatDictionary\<close>: the first key (in key order) equal to the word up to case or
  within edit distance 2 of it; an empty key is falsy and gives \<open>null\<close>.\<close>

definition findInFormatDictionary :: "dictionaries \<Rightarrow> string \<Rightarrow> string \<Rightarrow> string option" where
  "findInFormatDictionary d word fmt =
     (case map_of (contentFormats d) fmt of
        None \<Rightarrow> None
      | Some dictionary \<Rightarrow>
          (case find (\<lambda>k. js_lower k = js_lower word \<or> levenshtein (js_lower k) (js_lower word) \<le> 2)
                  (map fst dictionary) of
             Some k \<Rightarrow> if k = [] then None else map_of dictionary k
           | None \<Rightarrow> None))"

text \<open>The chat completion: \<open>None\<close> when the request throws, \<open>Some None\<close> when the reply has
  no content, \<open>Some (Some c)\<close> otherwise; it is asked about a word, its context and the
  platform.\<close>

type_synonym ai_oracle = "string \<Rightarrow> string \<Rightarrow> platform \<Rightarrow> string option option"

definition getContextualCorrection :: "ai_oracle \<Rightarrow> string \<Rightarrow> string \<Rightarrow> ContentAnalysis \<Rightarrow> string option" where
  "getContextualCorrection ai word context an =
     (case ai word context (ca_platform an) of
        Some (Some c) \<Rightarrow> (let suggestion = js_trim c
                          in if suggestion = ''VALID'' then Some word
                             else if suggestion = [] then None else Some suggestion)
      | _ \<Rightarrow> None)"

subsection \<open>correctText\<close>

text \<open>What the loop reads: the call's arguments and the values computed before the loop.\<close>

record correct_ctx =
  cc_ai :: ai_oracle
  cc_dicts :: dictionaries
  cc_now :: int
  contextWindow :: int
  cc_words :: "string list"
  cc_analysis :: ContentAnalysis
  platformDict :: "(string \<times> string) list"

text \<open>What the loop changes: the module's cache, \<open>results\<close>, and the log of completion
  requests (word and context).\<close>

record correct_state =
  correctionCache :: "(string, CorrectionResult) NodeCache"
  results :: "CorrectionResult list"
  ai_calls :: "(string \<times> string) list"

datatype correct_error = ECACHEFULL

text \<open>The three sources in the order of the loop body, for a word that missed the cache;
  the flag tells whether the completion was requested.\<close>

definition correction_for :: "correct_ctx \<Rightarrow> string \<Rightarrow> string \<Rightarrow> CorrectionResult \<times> bool" where
  "correction_for ctx word context =
     (if js_in (js_lower word) (platformDict ctx)
      then (\<lparr>original = word, corrected = js_get (js_lower word) (platformDict ctx), confidence = 9/10,
             source = Dictionary\<rparr>, False)
      else (let formatCorrection = findInFormatDictionary (cc_dicts ctx) word (format (cc_analysis ctx))
            in if formatCorrection \<noteq> None \<and> the formatCorrection \<noteq> []
               then (\<lparr>original = word, corrected = PStr (the formatCorrection), confidence = 8/10,
                      source = Dictionary\<rparr>, False)
               else (case getContextualCorrection (cc_ai ctx) word context (cc_analysis ctx) of
                       Some aiCorrection \<Rightarrow>
                         (\<lparr>original = word, corrected = PStr aiCorrection, confidence = 7/10, source = AI\<rparr>, True)
                     | None \<Rightarrow> (\<lparr>original = word, corrected = PStr word, confidence = 1, source = NoSource\<rparr>, True))))"

text \<open>One iteration of the \<open>for\<close> loop, at index \<open>i\<close>.\<close>

definition correct_step :: "correct_ctx \<Rightarrow> nat \<Rightarrow> correct_state \<Rightarrow> correct_error + correct_state" where
  "correct_step ctx i st =
     (let word = cc_words ctx ! i
      in if word = [] then Inr st
         else
           (let half = contextWindow ctx div 2;
                contextStart = max 0 (int i - half);
                contextEnd = min (int (length (cc_words ctx))) (int i + half);
                context = js_join '' '' (js_slice (cc_words ctx) contextStart contextEnd);
                cacheKey = word @ ''-'' @ platform_name (ca_platform (cc_analysis ctx)) @ ''-'' @
                           contentType (cc_analysis ctx);
                (cache, cached) = nc_get (cc_now ctx) cacheKey (correctionCache st)
            in case cached of
                 Some r \<Rightarrow> Inr (st\<lparr>correctionCache := cache, results := results st @ [r]\<rparr>)
               | None \<Rightarrow>
                   (let (correction, asked) = correction_for ctx word context;
                        calls = (if asked then ai_calls st @ [(word, context)] else ai_calls st)
                    in case nc_set (cc_now ctx) cacheKey correction None cache of
                         None \<Rightarrow> Inl ECACHEFULL
                       | Some cache' \<Rightarrow>
                           Inr (st\<lparr>correctionCache := cache', results := results st @ [correction],
                                   ai_calls := calls\<rparr>))))"

fun correct_loop :: "correct_ctx \<Rightarrow> nat list \<Rightarrow> correct_state \<Rightarrow> correct_error + correct_state" where
  "correct_loop ctx [] st = Inr st"
| "correct_loop ctx (i # is) st =
     (case correct_step ctx i st of Inl e \<Rightarrow> Inl e | Inr st' \<Rightarrow> correct_loop ctx is st')"

text \<open>\<open>correctText(text, contextWindow)\<close>, from the module's cache: the final state (cache
  and request log) and the corrected text, or the error the cache throws.\<close>

definition correctText ::
  "ai_oracle \<Rightarrow> dictionaries \<Rightarrow> int \<Rightarrow> int \<Rightarrow> string \<Rightarrow> (string, CorrectionResult) NodeCache \<Rightarrow>
   correct_error + correct_state \<times> string" where
  "correctText ai d now cw text cache =
     (let words = js_split_runs js_space text;
          contentAnalysis = analyzeContent d text;
          ctx = \<lparr>cc_ai = ai, cc_dicts = d, cc_now = now, contextWindow = cw, cc_words = words,
                 cc_analysis = contentAnalysis, platformDict = getPlatformDictionary d (ca_platform contentAnalysis)\<rparr>
      in case correct_loop ctx [0..<length words] \<lparr>correctionCache = cache, results = [], ai_calls = []\<rparr> of
           Inl e \<Rightarrow> Inl e
         | Inr st \<Rightarrow>
             (let correctedText = js_join '' '' (map (\<lambda>r. js_prop_str (corrected r)) (results st))
              in Inr (st, if correctedText = [] then text else correctedText)))"

text \<open>The module's cache: \<open>new NodeCache({ stdTTL: 86400 })\<close>.\<close>

definition correction_cache_init :: "(string, CorrectionResult) NodeCache" where
  "correction_cache_init = \<lparr>nc_data = [], nc_stdTTL = 86400, nc_maxKeys = -1, nc_hits = 0, nc_misses = 0\<rparr>"

text \<open>A cache built like the module's: well-formed and without a key limit.\<close>

definition unlimited_wf :: "('k, 'v) NodeCache \<Rightarrow> bool" where
  "unlimited_wf c = (nc_wf c \<and> nc_maxKeys c = -1)"

subsection \<open>formatContentForVectorDB\<close>

datatype content_kind = Webpage | Youtube | Transcript | OtherKind

definition formatContentForVectorDB ::
  "(string \<Rightarrow> string) \<Rightarrow> ai_oracle \<Rightarrow> dictionaries \<Rightarrow> int \<Rightarrow> string \<Rightarrow> content_kind \<Rightarrow>
   (string, CorrectionResult) NodeCache \<Rightarrow> correct_error + correct_state \<times> string" where
  "formatContentForVectorDB extract ai d now content type cache =
     (let cleanedText = (case type of
                           Webpage \<Rightarrow> cleanWebPageContent extract content
                         | Youtube \<Rightarrow> cleanYouTubeTranscript content
                         | Transcript \<Rightarrow> cleanTranscript content
                         | OtherKind \<Rightarrow> cleanText content no_options)
      in correctText ai d now 100 cleanedText cache)"

subsection \<open>Lemmas\<close>

lemma nc_set_unlimited: "nc_maxKeys c = -1 \<Longrightarrow> \<exists>c'. nc_set now k v ttl c = Some c' \<and> nc_maxKeys c' = -1"
  by (simp add: nc_set_def Let_def)

lemma correct_step_unlimited:
  assumes "unlimited_wf (correctionCache st)"
  shows "\<exists>st'. correct_step ctx i st = Inr st' \<and> unlimited_wf (correctionCache st')"
proof -
  obtain cache cached where g: "nc_get (cc_now ctx) (cc_words ctx ! i @ ''-'' @ platform_name (ca_platform (cc_analysis ctx)) @ ''-'' @
                           contentType (cc_analysis ctx)) (correctionCache st) = (cache, cached)"
    by fastforce
  from assms have u: "unlimited_wf cache"
    using nc_wf_get[of "correctionCache st"] g unfolding unlimited_wf_def
    by (metis fst_conv nc_maxKeys_get)
  show ?thesis
  proof (cases cached)
    case None
    have "nc_wf (c\<lparr>nc_data := map_set k v (nc_data c)\<rparr>)" if "nc_wf c" "nc_maxKeys c = -1" for c :: "(string, CorrectionResult) NodeCache" and k v
      using that by (simp add: nc_wf_def)
    with assms u g None show ?thesis
      by (auto simp: correct_step_def Let_def unlimited_wf_def nc_set_def split: prod.splits)
  qed (use assms u g in \<open>auto simp: correct_step_def Let_def\<close>)
qed

lemma correct_loop_unlimited:
  "unlimited_wf (correctionCache st) \<Longrightarrow> \<exists>st'. correct_loop ctx is st = Inr st' \<and> unlimited_wf (correctionCache st')"
proof (induction "is" arbitrary: st)
  case (Cons i "is")
  then obtain st1 where "correct_step ctx i st = Inr st1" "unlimited_wf (correctionCache st1)"
    using correct_step_unlimited by blast
  with Cons.IH show ?case by simp
qed simp

lemma sum_case_Inr_exI:
  "(\<exists>st'. x = Inr st' \<and> P st') \<Longrightarrow> \<exists>st out. (case x of Inl e \<Rightarrow> Inl e | Inr st \<Rightarrow> Inr (st, f st)) = Inr (st, out) \<and> P st"
  by auto

lemma correctText_unlimited:
  "unlimited_wf cache \<Longrightarrow> \<exists>st out. correctText ai d now cw text cache = Inr (st, out) \<and> unlimited_wf (correctionCache st)"
  unfolding correctText_def Let_def by (rule sum_case_Inr_exI, rule correct_loop_unlimited) simp

lemma constructor_proto: "''constructor'' \<in> set proto_keys"
  by (simp add: proto_keys_def)

lemma step_constructor:
  assumes "cc_words ctx = [''constructor'']" "platformDict ctx = youtubeTerms d"
    "map_of (youtubeTerms d) ''constructor'' = None" "nc_data (correctionCache st) = []"
    "nc_maxKeys (correctionCache st) = -1"
  shows "\<exists>st'. correct_step ctx 0 st = Inr st' \<and>
           results st' = results st @ [\<lparr>original = ''constructor'', corrected = PProto ''constructor'',
                                        confidence = 9/10, source = Dictionary\<rparr>]"
proof -
  have cf: "correction_for ctx ''constructor'' c =
    (\<lparr>original = ''constructor'', corrected = PProto ''constructor'', confidence = 9/10, source = Dictionary\<rparr>, False)" for c
    using assms(2,3) by (simp add: correction_for_def lower_constructor in_constructor js_get_def constructor_proto)
  show ?thesis
    using assms(1,4,5) by (simp add: correct_step_def Let_def nc_get_def nc_set_def cf)
qed

lemma levenshtein_le_max: "levenshtein xs ys \<le> max (length xs) (length ys)"
  by (induction xs ys rule: levenshtein.induct) (auto simp: min_def max_def)

lemma length_js_lower [simp]: "length (js_lower s) = length s"
  by (simp add: js_lower_def)

subsection \<open>Properties\<close>

text \<open>C26: The word "constructor" is found by "in" on every platform dictionary through
  Object.prototype, so unless the YouTube dictionary has it as an own key, correctText
  replaces it by the inherited function, and the text becomes its source string.\<close>

theorem correctText_constructor_native_code:
  assumes "map_of (youtubeTerms d) ''constructor'' = None"
  shows "\<exists>st. correctText ai d now cw ''constructor'' correction_cache_init =
               Inr (st, ''function Object() { [native code] }'')"
proof -
  define ctx where "ctx =
    \<lparr>cc_ai = ai, cc_dicts = d, cc_now = now, contextWindow = cw, cc_words = [''constructor''],
     cc_analysis = analyzeContent d ''constructor'',
     platformDict = getPlatformDictionary d (ca_platform (analyzeContent d ''constructor''))\<rparr>"
  define st0 where "st0 = \<lparr>correctionCache = correction_cache_init, results = [], ai_calls = []\<rparr>"
  obtain st' where st': "correct_step ctx 0 st0 = Inr st'"
    "results st' = [\<lparr>original = ''constructor'', corrected = PProto ''constructor'', confidence = 9/10,
                      source = Dictionary\<rparr>]"
    using step_constructor[of ctx d st0] assms
    by (auto simp: ctx_def st0_def platform_constructor correction_cache_init_def)
  then show ?thesis
    unfolding correctText_def Let_def split_constructor ctx_def[symmetric] st0_def[symmetric]
    by simp
qed

theorem correctText_constructor_native_code_witness:
  "map_of (youtubeTerms example_dictionaries) ''constructor'' = None \<and>
   (\<exists>st. correctText (\<lambda>w c p. None) example_dictionaries 0 100 ''constructor'' correction_cache_init =
          Inr (st, ''function Object() { [native code] }''))"
  using correctText_constructor_native_code[of example_dictionaries "\<lambda>w c p. None" 0 100]
  by (simp add: example_dictionaries_def)
text \<open>C27: findInFormatDictionary accepts any key within edit distance 2, so when the format's
  dictionary starts with a key of at most two letters, every word of at most two letters
  ("a", "is", "to") is replaced by that key's value.\<close>

theorem findInFormatDictionary_short_words:
  assumes "map_of (contentFormats d) fmt = Some ((k, v) # rest)" "k \<noteq> []" "length k \<le> 2" "length word \<le> 2"
  shows "findInFormatDictionary d word fmt = Some v"
proof -
  have "levenshtein (js_lower k) (js_lower word) \<le> 2"
    using levenshtein_le_max[of "js_lower k" "js_lower word"] assms(3,4) by simp
  with assms(1,2) show ?thesis by (simp add: findInFormatDictionary_def)
qed

theorem findInFormatDictionary_short_words_witness:
  "map_of (contentFormats (example_dictionaries\<lparr>contentFormats := [(''short_form'', [(''ad'', ''advert'')])]\<rparr>)) ''short_form'' =
     Some ((''ad'', ''advert'') # []) \<and> ''ad'' \<noteq> [] \<and> length ''ad'' \<le> 2 \<and> length ''is'' \<le> 2 \<and>
   findInFormatDictionary (example_dictionaries\<lparr>contentFormats := [(''short_form'', [(''ad'', ''advert'')])]\<rparr>) ''is'' ''short_form'' = Some ''advert''"
  using findInFormatDictionary_short_words[of "example_dictionaries\<lparr>contentFormats := [(''short_form'', [(''ad'', ''advert'')])]\<rparr>"
      "''short_form''" "''ad''" "''advert''" "[]" "''is''"]
  by simp
end
