(* ===== verification/ApiHandlers.thy ===== *)
theory ApiHandlers
  imports TextCleaning ContentAnalysis
begin

text \<open>
  The request handlers of \<open>src/src/pages/api\<close> that compute something from their request:
  the text upload of \<open>upload/text.ts\<close>, which validates the body, cleans the text
  (\<open>cleanText\<close>), detects its content type (\<open>detectContentType\<close>), splits, embeds and upserts
  it, and the configuration check of \<open>config-status.ts\<close> (lines 1--151).  A handler is a
  function from the request to the response it sends (status and JSON body) and the writes
  it made; the text splitter is a parameter, and the embedding model, the vector store and the
  credential probes are oracles.  \<open>await\<close> of a rejected promise inside \<open>try\<close> is the
  \<open>catch\<close> branch.
\<close>

subsection \<open>upload/text\<close>

record TextUploadRequest =
  title :: "string option"
  text_req :: "string option"
  tags :: "string list option"
  language :: "string option"

text \<open>\<open>validateTextUpload\<close>: the four checks in order; an absent field is falsy.  The field \<open>text\<close> is \<open>text_req\<close>.\<close>

definition validateTextUpload :: "TextUploadRequest \<Rightarrow> string list" where
  "validateTextUpload data =
     (if \<not> js_truthy_str (title data) \<or> length (js_trim (the (title data))) = 0 then [''Title is required''] else []) @
     (if \<not> js_truthy_str (text_req data) \<or> length (js_trim (the (text_req data))) = 0 then [''Text content is required''] else []) @
     (if js_truthy_str (title data) \<and> 200 < length (the (title data))
      then [''Title must be less than 200 characters''] else []) @
     (if js_truthy_str (text_req data) \<and> 100000 < length (the (text_req data))
      then [''Text content must be less than 100,000 characters''] else [])"

text \<open>The options object of the call to \<open>cleanText\<close>: four options set, three left to their
  defaults.\<close>

definition upload_clean_options :: CleanTextOptions where
  "upload_clean_options =
     no_options\<lparr>removeUrls := Some True, removeEmails := Some True, removeSpecialChars := Some True,
                removeExtraSpaces := Some True\<rparr>"

text \<open>A vector sent to the index: its chunk index (the \<open>uuid\<close> part of the id is random) and
  the metadata the handler attaches (the upload timestamp left out).\<close>

record upload_vector =
  v_index :: nat
  v_text :: string
  v_source :: string
  v_title :: string
  v_contentType :: string
  v_tags :: "string list"
  v_language :: string

text \<open>The services: the splitter (chunk size, text, chunks), the embedding of one chunk
  (\<open>Inl\<close> the message of a rejection) and the upsert of a list of vectors.\<close>

record upload_services =
  us_split :: "nat \<Rightarrow> string \<Rightarrow> string list"
  us_embed :: "string \<Rightarrow> string + unit"
  us_upsert :: "upload_vector list \<Rightarrow> string + unit"

datatype upload_response =
  UploadMethodNotAllowed
| ValidationFailed "string list"
| Uploaded nat string string
| UploadServerError string

fun upload_status :: "upload_response \<Rightarrow> nat" where
  "upload_status UploadMethodNotAllowed = 405"
| "upload_status (ValidationFailed es) = 400"
| "upload_status (Uploaded n ct t) = 200"
| "upload_status (UploadServerError m) = 500"

text \<open>The message of the \<open>TypeError\<close> that \<open>detectContentType\<close> throws.\<close>

definition detect_error_message :: "detect_error \<Rightarrow> string" where
  "detect_error_message e = ''languageKeywords.filter is not a function''"

text \<open>\<open>Promise.all\<close> over the embeddings: the first rejection in chunk order, or every vector.\<close>

fun embed_all :: "(string \<Rightarrow> string + unit) \<Rightarrow> (nat \<Rightarrow> string \<Rightarrow> upload_vector) \<Rightarrow> nat \<Rightarrow> string list \<Rightarrow>
                  string + upload_vector list" where
  "embed_all emb mk i [] = Inr []"
| "embed_all emb mk i (d # ds) =
     (case emb d of
        Inl m \<Rightarrow> Inl m
      | Inr u \<Rightarrow> (case embed_all emb mk (Suc i) ds of Inl m \<Rightarrow> Inl m | Inr vs \<Rightarrow> Inr (mk i d # vs)))"

text \<open>The handler: the response and the upserts it attempted.\<close>

definition uploadText_handler ::
  "upload_services \<Rightarrow> string \<Rightarrow> TextUploadRequest \<Rightarrow> upload_response \<times> upload_vector list list" where
  "uploadText_handler sv method uploadData =
     (if method \<noteq> ''POST'' then (UploadMethodNotAllowed, [])
      else
        let validationErrors = validateTextUpload uploadData
        in if 0 < length validationErrors then (ValidationFailed validationErrors, [])
           else
             let cleanedText = cleanText (the (text_req uploadData)) upload_clean_options
             in case detectContentType (TextInput (the (text_req uploadData))) (language uploadData) of
                  Inl e \<Rightarrow> (UploadServerError (detect_error_message e), [])
                | Inr ctype \<Rightarrow>
                    let docs = us_split sv (if ctype = ''technical'' then 1500 else 1000) cleanedText;
                        mk = (\<lambda>i d. \<lparr>v_index = i, v_text = d, v_source = ''text_upload'',
                                     v_title = the (title uploadData), v_contentType = ctype,
                                     v_tags = js_nullish (tags uploadData) [],
                                     v_language = (if js_truthy_str (language uploadData) then the (language uploadData) else ''unknown'')\<rparr>)
                    in case embed_all (us_embed sv) mk 0 docs of
                         Inl m \<Rightarrow> (UploadServerError m, [])
                       | Inr vectors \<Rightarrow>
                           (case us_upsert sv vectors of
                              Inl m \<Rightarrow> (UploadServerError m, [vectors])
                            | Inr u \<Rightarrow> (Uploaded (length vectors) ctype (the (title uploadData)), [vectors])))"

subsection \<open>config-status\<close>

text \<open>The probes of the credentials: \<open>openai.models.list()\<close> with a key (true when it
  resolves), \<open>describeIndexStats\<close> of an index with a key (\<open>Some\<close> the message of the error it
  rejects with), and the YouTube search request with a key (true when it resolves with
  \<open>response.ok\<close>).\<close>

record config_services =
  openai_probe :: "string option \<Rightarrow> bool"
  pinecone_probe :: "string \<Rightarrow> string \<Rightarrow> string option"
  youtube_probe :: "string \<Rightarrow> bool"

datatype service = OpenAISvc | PineconeSvc | YouTubeSvc

record ConfigStatus =
  configured :: bool
  missingSecrets :: "string list"
  cs_message :: string
  details :: "(bool \<times> bool \<times> bool) option"

definition requiredEnvVars :: "string list" where
  "requiredEnvVars = [''OPENAI_API_KEY'', ''PINECONE_API_KEY'', ''PINECONE_INDEX'', ''PINECONE_ENVIRONMENT'']"

text \<open>The three validations in order, each adding its \<open>ValidationError\<close>s.\<close>

definition config_validation :: "config_services \<Rightarrow> (string \<Rightarrow> string option) \<Rightarrow> (service \<times> string) list" where
  "config_validation sv env =
     (if openai_probe sv (env ''OPENAI_API_KEY'') then [] else [(OpenAISvc, ''Invalid OpenAI API key'')]) @
     (let pineconeApiKey = env ''PINECONE_API_KEY''; pineconeIndex = env ''PINECONE_INDEX''
      in if \<not> js_truthy_str pineconeApiKey \<or> \<not> js_truthy_str pineconeIndex
         then [(PineconeSvc, ''Missing Pinecone configuration'')]
         else (case pinecone_probe sv (the pineconeApiKey) (the pineconeIndex) of
                 None \<Rightarrow> []
               | Some m \<Rightarrow> [(PineconeSvc, m)])) @
     (if js_truthy_str (env ''YOUTUBE_API_KEY'')
      then (if youtube_probe sv (the (env ''YOUTUBE_API_KEY'')) then [] else [(YouTubeSvc, ''Invalid YouTube API key'')])
      else [])"

text \<open>The handler: the status code and the JSON body.  Nothing inside the outer \<open>try\<close> throws
  in the model (each probe has its own \<open>catch\<close>), so its \<open>catch\<close> branch is not a case.\<close>

definition configStatus_handler ::
  "config_services \<Rightarrow> string \<Rightarrow> (string \<Rightarrow> string option) \<Rightarrow> nat \<times> ConfigStatus" where
  "configStatus_handler sv method env =
     (if method \<noteq> ''GET''
      then (405, \<lparr>configured = False, missingSecrets = [], cs_message = ''Method not allowed'', details = None\<rparr>)
      else
        let missing = filter (\<lambda>v. \<not> js_truthy_str (env v)) requiredEnvVars
        in if 0 < length missing
           then (200, \<lparr>configured = False, missingSecrets = missing,
                       cs_message = ''Missing required environment variables'',
                       details = Some (\<not> ''OPENAI_API_KEY'' \<in> set missing,
                                       \<not> list_ex (\<lambda>secret. take 9 secret = ''PINECONE_'') missing, True)\<rparr>)
           else
             let validationErrors = config_validation sv env
             in if 0 < length validationErrors
                then (200, \<lparr>configured = False, missingSecrets = [],
                            cs_message = ''Configuration validation failed'',
                            details = Some (\<not> list_ex (\<lambda>e. fst e = OpenAISvc) validationErrors,
                                            \<not> list_ex (\<lambda>e. fst e = PineconeSvc) validationErrors,
                                            \<not> list_ex (\<lambda>e. fst e = YouTubeSvc) validationErrors)\<rparr>)
                else (200, \<lparr>configured = True, missingSecrets = [], cs_message = ''Configuration complete'',
                            details = Some (True, True, True)\<rparr>))"

subsection \<open>Examples\<close>

definition example_upload :: TextUploadRequest where
  "example_upload = \<lparr>title = Some ''t'', text_req = Some ''hi'', tags = None, language = None\<rparr>"

definition example_upload_services :: upload_services where
  "example_upload_services = \<lparr>us_split = (\<lambda>n t. [t]), us_embed = (\<lambda>d. Inr ()), us_upsert = (\<lambda>vs. Inr ())\<rparr>"

definition example_vector :: upload_vector where
  "example_vector =
     \<lparr>v_index = 0, v_text = ''hi'', v_source = ''text_upload'', v_title = ''t'', v_contentType = ''text'',
      v_tags = [], v_language = ''unknown''\<rparr>"

definition example_env :: "string \<Rightarrow> string option" where
  "example_env v = (if v \<in> set requiredEnvVars then Some ''k'' else None)"

definition example_config_services :: config_services where
  "example_config_services =
     \<lparr>openai_probe = (\<lambda>k. True), pinecone_probe = (\<lambda>k i. None), youtube_probe = (\<lambda>k. False)\<rparr>"

subsection \<open>Lemmas\<close>

lemma embed_all_Cons_Inr:
  "embed_all emb mk i (d # ds) = Inr vs \<Longrightarrow> \<exists>vs'. embed_all emb mk (Suc i) ds = Inr vs' \<and> vs = mk i d # vs'"
  by (auto split: sum.splits)

lemma embed_all_texts:
  "embed_all emb mk i ds = Inr vs \<Longrightarrow> (\<And>k d. v_text (mk k d) = d) \<Longrightarrow> map v_text vs = ds"
proof (induction ds arbitrary: i vs)
  case (Cons d ds)
  then show ?case by (metis embed_all_Cons_Inr list.simps(9))
qed simp

lemma embed_all_all:
  "embed_all emb mk i ds = Inr vs \<Longrightarrow> (\<And>k d. P (mk k d)) \<Longrightarrow> list_all P vs"
proof (induction ds arbitrary: i vs)
  case (Cons d ds)
  then show ?case by (metis embed_all_Cons_Inr list.pred_inject(2))
qed simp
lemma cleanText_example: "cleanText ''hi'' upload_clean_options = ''hi''"
  by (simp add: cleanText_def upload_clean_options_def no_options_def rx_defs pass_defs cong: list.case_cong_weak)

lemma uploadText_example:
  "uploadText_handler example_upload_services ''POST'' example_upload = (Uploaded 1 ''text'' ''t'', [[example_vector]])"
  by (simp add: uploadText_handler_def example_upload_def example_upload_services_def example_vector_def
      validateTextUpload_def js_trim_def js_space_def detectContentType_def technicalKeywords_def
      scientificKeywords_def js_includes_def js_lower_def js_lower_char_def cleanText_example)

subsection \<open>Properties\<close>

text \<open>validateTextUpload accepts a request exactly when title and text are present and
  not blank, the title has at most 200 characters and the text at most 100000: a title of
  exactly 200 characters passes, although the message says "less than 200".\<close>

theorem validateTextUpload_accepts:
  "(validateTextUpload req = []) =
     (\<exists>t x. title req = Some t \<and> text_req req = Some x \<and> js_trim t \<noteq> [] \<and> js_trim x \<noteq> [] \<and>
            length t \<le> 200 \<and> length x \<le> 100000)"
  by (cases "title req"; cases "text_req req") (auto simp: validateTextUpload_def js_truthy_str_def)

text \<open>C29: The upload handler writes to the index only for a POST whose body passed
  validation, and then exactly once: the vectors carry the chunks of the cleaned text, in
  order, for a chunk size of 1000 or 1500, with the request's title and the source
  "text_upload".\<close>

theorem uploadText_handler_writes_only_valid:
  assumes h: "uploadText_handler sv method req = (resp, ups)" and u: "ups \<noteq> []"
  shows "method = ''POST'' \<and> validateTextUpload req = [] \<and>
         (\<exists>n vs. ups = [vs] \<and> n \<in> {1000, 1500} \<and>
            map v_text vs = us_split sv n (cleanText (the (text_req req)) upload_clean_options) \<and>
            list_all (\<lambda>v. v_title v = the (title req) \<and> v_source v = ''text_upload'') vs)"
proof -
  have m: "method = ''POST''"
  proof (rule ccontr)
    assume "method \<noteq> ''POST''"
    with h u show False by (simp add: uploadText_handler_def)
  qed
  have v: "validateTextUpload req = []"
  proof (rule ccontr)
    assume "validateTextUpload req \<noteq> []"
    with h u m show False by (simp add: uploadText_handler_def)
  qed
  obtain ct where ct: "detectContentType (TextInput (the (text_req req))) (language req) = Inr ct"
  proof (cases "detectContentType (TextInput (the (text_req req))) (language req)")
    case (Inl e)
    with h u m v show ?thesis by (simp add: uploadText_handler_def)
  qed
  define n where "n = (if ct = ''technical'' then 1500 else 1000 :: nat)"
  define mk where "mk = (\<lambda>i d. \<lparr>v_index = i, v_text = d, v_source = ''text_upload'',
                                     v_title = the (title req), v_contentType = ct,
                                     v_tags = js_nullish (tags req) [],
                                     v_language = (if js_truthy_str (language req) then the (language req) else ''unknown'')\<rparr>)"
  define docs where "docs = us_split sv n (cleanText (the (text_req req)) upload_clean_options)"
  have hd: "uploadText_handler sv method req =
      (case embed_all (us_embed sv) mk 0 docs of
         Inl msg \<Rightarrow> (UploadServerError msg, [])
       | Inr vectors \<Rightarrow> (case us_upsert sv vectors of
                            Inl msg \<Rightarrow> (UploadServerError msg, [vectors])
                          | Inr u \<Rightarrow> (Uploaded (length vectors) ct (the (title req)), [vectors])))"
    by (simp add: uploadText_handler_def m v ct n_def mk_def docs_def Let_def)
  obtain vs where e: "embed_all (us_embed sv) mk 0 docs = Inr vs"
  proof (cases "embed_all (us_embed sv) mk 0 docs")
    case (Inl msg)
    with h u hd show ?thesis by simp
  qed
  have "ups = snd (uploadText_handler sv method req)" using h by simp
  also have "\<dots> = [vs]" unfolding hd e by (cases "us_upsert sv vs") auto
  finally have ups: "ups = [vs]" .
  have "map v_text vs = docs" by (rule embed_all_texts[OF e]) (simp add: mk_def)
  moreover have "list_all (\<lambda>v. v_title v = the (title req) \<and> v_source v = ''text_upload'') vs"
    by (rule embed_all_all[OF e]) (simp add: mk_def)
  moreover have "n \<in> {1000, 1500}" by (simp add: n_def)
  ultimately show ?thesis using m v ups unfolding docs_def by blast
qed
theorem uploadText_handler_writes_only_valid_witness:
  "uploadText_handler example_upload_services ''POST'' example_upload = (Uploaded 1 ''text'' ''t'', [[example_vector]]) \<and>
   [[example_vector]] \<noteq> [] \<and>
   validateTextUpload example_upload = [] \<and>
   (\<exists>n vs. [[example_vector]] = [vs] \<and> n \<in> {1000, 1500} \<and>
      map v_text vs = us_split example_upload_services n (cleanText (the (text_req example_upload)) upload_clean_options) \<and>
      list_all (\<lambda>v. v_title v = the (title example_upload) \<and> v_source v = ''text_upload'') vs)"
  using uploadText_handler_writes_only_valid[OF uploadText_example] uploadText_example by simp

text \<open>C30: The configuration check reports "configured" exactly for a GET with the four
  required variables set (PINECONE_ENVIRONMENT included, although nothing reads it), an
  OpenAI key the models list accepts, a Pinecone index whose stats can be read, and a YouTube
  key that works when one is set.\<close>

theorem configStatus_configured_iff:
  "configured (snd (configStatus_handler sv method env)) \<longleftrightarrow>
     method = ''GET'' \<and> list_all (\<lambda>v. js_truthy_str (env v)) requiredEnvVars \<and>
     openai_probe sv (env ''OPENAI_API_KEY'') \<and>
     pinecone_probe sv (the (env ''PINECONE_API_KEY'')) (the (env ''PINECONE_INDEX'')) = None \<and>
     (js_truthy_str (env ''YOUTUBE_API_KEY'') \<longrightarrow> youtube_probe sv (the (env ''YOUTUBE_API_KEY'')))"
  by (auto simp: configStatus_handler_def config_validation_def requiredEnvVars_def Let_def
      split: option.splits)

theorem configStatus_configured_iff_witness:
  "configured (snd (configStatus_handler example_config_services ''GET'' example_env)) \<and>
   \<not> js_truthy_str (example_env ''YOUTUBE_API_KEY'')"
proof -
  have "list_all (\<lambda>v. js_truthy_str (example_env v)) requiredEnvVars"
    by (simp add: example_env_def requiredEnvVars_def)
  moreover have "\<not> js_truthy_str (example_env ''YOUTUBE_API_KEY'')"
    by (simp add: example_env_def requiredEnvVars_def)
  ultimately show ?thesis
    using configStatus_configured_iff[of example_config_services "''GET''" example_env]
    by (simp add: example_config_services_def)
qed

end
