(* ===== verification/DocumentApi.thy ===== *)
theory DocumentApi
  imports Prelude "HOL-Library.Multiset"
begin

text \<open>
  The document handlers of \<open>src/src/pages/api/documents\<close>: \<open>list.ts\<close>, which lists the
  documents of the Pinecone index by grouping its chunks on \<open>source_id\<close>, and
  \<open>categories.ts\<close>, which seeds the default categories into an index that has none and
  lists them.  The index is its store of vectors (id and metadata, in insertion order) and
  a connection error that makes every call reject; a query with the zero vector returns the
  first \<open>topK\<close> vectors that pass its filter, in store order (the similarity order of a zero
  vector is not specified).  \<open>new Date(s).getTime()\<close> is a parameter, valid on the dates
  the model sees.
\<close>

subsection \<open>The index\<close>

datatype mval = MStr string | MBool bool | MNum int | MList "string list"

type_synonym metadata = "(string \<times> mval) list"

record pinecone_index =
  store :: "(string \<times> metadata) list"
  conn_error :: "string option"

text \<open>Truthiness of a metadata value, and \<open>metadata?.key || dflt\<close> for strings.\<close>

fun mval_truthy :: "mval \<Rightarrow> bool" where
  "mval_truthy (MStr s) = (s \<noteq> [])"
| "mval_truthy (MBool b) = b"
| "mval_truthy (MNum n) = (n \<noteq> 0)"
| "mval_truthy (MList xs) = True"

definition md_get :: "metadata \<Rightarrow> string \<Rightarrow> mval option" where
  "md_get md k = map_of md k"

definition md_str_or :: "metadata \<Rightarrow> string \<Rightarrow> string \<Rightarrow> string" where
  "md_str_or md k dflt = (case md_get md k of Some (MStr s) \<Rightarrow> if s \<noteq> [] then s else dflt | _ \<Rightarrow> dflt)"

text \<open>\<open>index.upsert(vectors)\<close>: a vector replaces the one with its id.\<close>

definition idx_upsert :: "(string \<times> metadata) list \<Rightarrow> pinecone_index \<Rightarrow> string + pinecone_index" where
  "idx_upsert vs ix =
     (case conn_error ix of
        Some m \<Rightarrow> Inl m
      | None \<Rightarrow> Inr (ix\<lparr>store := fold (\<lambda>(i, md) st. map_set i md st) vs (store ix)\<rparr>))"

definition idx_query :: "(metadata \<Rightarrow> bool) \<Rightarrow> nat \<Rightarrow> pinecone_index \<Rightarrow> string + metadata list" where
  "idx_query flt topK ix =
     (case conn_error ix of
        Some m \<Rightarrow> Inl m
      | None \<Rightarrow> Inr (take topK (filter flt (map snd (store ix)))))"

subsection \<open>documents/list\<close>

record DocumentMetadata =
  doc_id :: mval
  doc_title :: string
  doc_type :: string
  doc_url :: "mval option"
  dateAdded :: string
  chunks :: nat
  doc_summary :: "mval option"
  doc_duration :: "mval option"
  doc_author :: "mval option"
  doc_thumbnailUrl :: "mval option"
  doc_categories :: "mval option"

text \<open>The query filter \<open>{ source_id: { $exists: true } }\<close>, and \<open>metadata?.source_id\<close> when truthy.\<close>

definition source_filter :: "metadata \<Rightarrow> bool" where
  "source_filter md = (md_get md ''source_id'' \<noteq> None)"


definition source_id :: "metadata \<Rightarrow> mval option" where
  "source_id md = (case md_get md ''source_id'' of Some v \<Rightarrow> if mval_truthy v then Some v else None | None \<Rightarrow> None)"

definition new_document :: "string \<Rightarrow> mval \<Rightarrow> metadata \<Rightarrow> DocumentMetadata" where
  "new_document now sid md =
     \<lparr>doc_id = sid, doc_title = md_str_or md ''title'' ''Untitled'', doc_type = md_str_or md ''source_type'' ''document'',
      doc_url = md_get md ''url'', dateAdded = md_str_or md ''date_added'' now, chunks = 1,
      doc_summary = md_get md ''summary'', doc_duration = md_get md ''duration'', doc_author = md_get md ''author'',
      doc_thumbnailUrl = md_get md ''thumbnail_url'', doc_categories = md_get md ''categories''\<rparr>"

text \<open>One iteration of the \<open>forEach\<close> over the matches: a new source id enters the map, a
  known one has its chunk count increased in place.\<close>

definition group_match :: "string \<Rightarrow> metadata \<Rightarrow> (mval \<times> DocumentMetadata) list \<Rightarrow> (mval \<times> DocumentMetadata) list" where
  "group_match now md documentMap =
     (case source_id md of
        None \<Rightarrow> documentMap
      | Some sid \<Rightarrow>
          (case map_of documentMap sid of
             None \<Rightarrow> map_set sid (new_document now sid md) documentMap
           | Some doc \<Rightarrow> map_set sid (doc\<lparr>chunks := chunks doc + 1\<rparr>) documentMap))"

datatype list_response =
  ListMethodNotAllowed
| ListServerError string
| DocumentList "DocumentMetadata list" nat

fun list_status :: "list_response \<Rightarrow> nat" where
  "list_status ListMethodNotAllowed = 405"
| "list_status (ListServerError m) = 500"
| "list_status (DocumentList ds n) = 200"

text \<open>The handler; \<open>now\<close> is \<open>new Date().toISOString()\<close>, \<open>time\<close> is \<open>new Date(s).getTime()\<close>,
  and \<open>sort\<close> with the comparator \<open>b - a\<close> is the stable sort on the negated time.\<close>

definition listDocuments_handler ::
  "string \<Rightarrow> (string \<Rightarrow> int) \<Rightarrow> string option \<Rightarrow> string option \<Rightarrow> string \<Rightarrow> pinecone_index \<Rightarrow> list_response" where
  "listDocuments_handler now time pineconeKey pineconeIndex method ix =
     (if method \<noteq> ''GET'' then ListMethodNotAllowed
      else if \<not> js_truthy_str pineconeKey \<or> \<not> js_truthy_str pineconeIndex
        then ListServerError ''Pinecone credentials not configured''
      else
        (case idx_query source_filter 10000 ix of
           Inl m \<Rightarrow> ListServerError (if m = [] then ''Failed to fetch documents'' else m)
         | Inr matches \<Rightarrow>
             let documentMap = fold (group_match now) matches [];
                 documents = sort_key (\<lambda>d. - time (dateAdded d)) (map snd documentMap)
             in DocumentList documents (length documents)))"

subsection \<open>documents/categories\<close>

record Category =
  cat_id :: string
  cat_name :: string
  cat_description :: "string option"
  parentId :: "string option"

text \<open>\<open>DEFAULT_CATEGORIES\<close>: the top-level categories with their subcategories.\<close>

definition DEFAULT_CATEGORIES :: "(string \<times> string \<times> string \<times> (string \<times> string \<times> string) list) list" where
  "DEFAULT_CATEGORIES =
     [(''educational'', ''Educational'', ''Educational content and tutorials'', []),
      (''entertainment'', ''Entertainment'', ''Entertainment content'', []),
      (''news'', ''News'', ''News and current events'', []),
      (''technology'', ''Technology'', ''Technology-related content'',
         [(''programming'', ''Programming'', ''Programming and coding content''),
          (''ai-ml'', ''AI & Machine Learning'', ''Artificial Intelligence and Machine Learning content'')]),
      (''business'', ''Business'', ''Business and entrepreneurship content'', [])]"

definition category_vectors :: "(string \<times> metadata) list" where
  "category_vectors =
     concat (map (\<lambda>(cid, name, descr, subs).
        (''category-'' @ cid, [(''isCategory'', MBool True), (''categoryId'', MStr cid), (''name'', MStr name),
                               (''description'', MStr descr)]) #
        map (\<lambda>(sid, sname, sdescr).
               (''category-'' @ sid, [(''isCategory'', MBool True), (''categoryId'', MStr sid), (''name'', MStr sname),
                                      (''description'', MStr sdescr), (''parentId'', MStr cid)])) subs)
       DEFAULT_CATEGORIES)"

definition is_category :: "metadata \<Rightarrow> bool" where
  "is_category md = (md_get md ''isCategory'' = Some (MBool True))"

definition md_opt_str :: "metadata \<Rightarrow> string \<Rightarrow> string option" where
  "md_opt_str md k = (case md_get md k of Some (MStr s) \<Rightarrow> Some s | _ \<Rightarrow> None)"

definition to_category :: "metadata \<Rightarrow> Category" where
  "to_category md =
     \<lparr>cat_id = md_str_or md ''categoryId'' [], cat_name = md_str_or md ''name'' [],
      cat_description = md_opt_str md ''description'', parentId = md_opt_str md ''parentId''\<rparr>"

datatype categories_response =
  CategoriesMethodNotAllowed
| CategoriesServerError string
| Categories "Category list"

text \<open>The handler: the response, the index after it, and the upserts it sent (one list of vectors
  per \<open>index.upsert\<close> call, sent also when the call rejects).\<close>

definition categories_handler ::
  "string \<Rightarrow> pinecone_index \<Rightarrow> categories_response \<times> pinecone_index \<times> (string \<times> metadata) list list" where
  "categories_handler method ix =
     (if method \<noteq> ''GET'' then (CategoriesMethodNotAllowed, ix, [])
      else
        case idx_query is_category 1 ix of
          Inl m \<Rightarrow> (CategoriesServerError (if m = [] then ''Failed to manage categories'' else m), ix, [])
        | Inr existing \<Rightarrow>
            (let writes = (if existing = [] then [category_vectors] else [])
             in case (if existing = [] then idx_upsert category_vectors ix else Inr ix) of
                  Inl m \<Rightarrow> (CategoriesServerError (if m = [] then ''Failed to manage categories'' else m), ix, writes)
                | Inr ix1 \<Rightarrow>
                    (case idx_query is_category 100 ix1 of
                       Inl m \<Rightarrow> (CategoriesServerError (if m = [] then ''Failed to manage categories'' else m), ix1, writes)
                     | Inr matches \<Rightarrow>
                         (Categories (filter (\<lambda>c. cat_id c \<noteq> [] \<and> cat_name c \<noteq> []) (map to_category matches)),
                          ix1, writes))))"

subsection \<open>Examples and the grouping invariant\<close>

text \<open>The source ids of the matches, in order, and the invariant of the \<open>forEach\<close>: the
  map has one entry per distinct source id, keyed by the document's id, whose chunk count is
  the number of matches with that id.\<close>

abbreviation sids :: "metadata list \<Rightarrow> mval list" where
  "sids ms \<equiv> List.map_filter source_id ms"

definition grouped :: "(mval \<times> DocumentMetadata) list \<Rightarrow> metadata list \<Rightarrow> bool" where
  "grouped dm ms =
     (distinct (map fst dm) \<and> fst ` set dm = set (sids ms) \<and>
      (\<forall>k d. map_of dm k = Some d \<longrightarrow> doc_id d = k \<and> chunks d = count_list (sids ms) k))"

definition example_index :: pinecone_index where
  "example_index =
     \<lparr>store = [(''a1'', [(''source_id'', MStr ''s1''), (''date_added'', MStr ''d1'')]),
               (''c1'', [(''text'', MStr ''no source'')]),
               (''a2'', [(''source_id'', MStr ''s1'')]),
               (''b1'', [(''source_id'', MStr ''s2''), (''date_added'', MStr ''d2'')])],
      conn_error = None\<rparr>"

subsection \<open>documents/list: grouping\<close>

lemma map_filter_snoc: "List.map_filter f (xs @ [x]) = List.map_filter f xs @ (case f x of None \<Rightarrow> [] | Some y \<Rightarrow> [y])"
  by (simp add: map_filter_def split: option.splits)

lemma count_list_snoc: "count_list (xs @ [y]) k = count_list xs k + (if y = k then 1 else 0)"
  by (induction xs) auto

lemma grouped_step: "grouped dm ms \<Longrightarrow> grouped (group_match now m dm) (ms @ [m])"
proof (cases "source_id m")
  case None
  assume "grouped dm ms"
  with None show ?thesis by (simp add: group_match_def grouped_def map_filter_snoc)
next
  case sid: (Some sid)
  assume g: "grouped dm ms"
  show ?thesis
  proof (cases "map_of dm sid")
    case None
    then have "sid \<notin> fst ` set dm" by (simp add: map_of_eq_None_iff)
    with g have "sid \<notin> set (sids ms)" by (simp add: grouped_def)
    then have "count_list (sids ms) sid = 0" by (simp add: count_list_0_iff)
    with g sid None show ?thesis
      by (auto simp: group_match_def grouped_def map_filter_snoc count_list_snoc new_document_def)
  next
    case (Some doc)
    with g sid show ?thesis
      by (auto simp: group_match_def grouped_def map_filter_snoc count_list_snoc)
  qed
qed

lemma grouped_fold: "grouped (fold (group_match now) ms []) ms"
proof (induction ms rule: rev_induct)
  case Nil
  then show ?case by (simp add: grouped_def map_filter_def)
next
  case (snoc m ms)
  then show ?case by (simp add: grouped_step)
qed

lemma grouped_ids:
  assumes "grouped dm ms"
  shows "map (\<lambda>d. doc_id d) (map snd dm) = map fst dm"
proof -
  have "doc_id d = k" if "(k, d) \<in> set dm" for k d
    using assms that by (auto simp: grouped_def)
  then show ?thesis by (induction dm) auto
qed

lemma listDocuments_GET:
  assumes "js_truthy_str pineconeKey" "js_truthy_str pineconeIndex" "conn_error ix = None"
  shows "listDocuments_handler now time pineconeKey pineconeIndex ''GET'' ix =
           (let docs = sort_key (\<lambda>d. - time (dateAdded d))
                         (map snd (fold (group_match now) (take 10000 (filter source_filter (map snd (store ix)))) []))
            in DocumentList docs (length docs))"
  using assms by (simp add: listDocuments_handler_def idx_query_def Let_def)

text \<open>Sorting the grouped documents keeps one document per source id with its chunk count.\<close>

lemma sort_groups:
  assumes "docs = sort_key f (map snd (fold (group_match now) ms []))"
  shows "distinct (map doc_id docs) \<and> set (map doc_id docs) = set (sids ms) \<and>
         list_all (\<lambda>d. chunks d = count_list (sids ms) (doc_id d)) docs"
proof -
  let ?dm = "fold (group_match now) ms []"
  have g: "grouped ?dm ms" by (rule grouped_fold)
  have ids: "map doc_id (map snd ?dm) = map fst ?dm" by (rule grouped_ids[OF g])
  have "mset (map doc_id docs) = mset (map doc_id (map snd ?dm))"
    unfolding assms by (simp only: mset_map mset_sort)
  then have m: "mset (map doc_id docs) = mset (map fst ?dm)"
    by (simp only: ids)
  have "distinct (map fst ?dm)" using g by (simp add: grouped_def)
  then have d: "distinct (map doc_id docs)"
    using mset_eq_imp_distinct_iff[OF m] by blast
  have "set (map doc_id docs) = set (map fst ?dm)"
    using arg_cong[OF m, of set_mset] by (simp only: set_mset_mset)
  then have s: "set (map doc_id docs) = set (sids ms)"
    using g by (simp add: grouped_def)
  have "chunks d = count_list (sids ms) (doc_id d)" if "d \<in> set (map snd ?dm)" for d
  proof -
    from that obtain k where "(k, d) \<in> set ?dm" by auto
    with g have "map_of ?dm k = Some d" by (simp add: grouped_def)
    with g show ?thesis by (simp add: grouped_def)
  qed
  then have c: "list_all (\<lambda>d. chunks d = count_list (sids ms) (doc_id d)) docs"
    unfolding assms by (simp add: list_all_iff)
  from d s c show ?thesis by blast
qed

text \<open>C31: For a GET with the credentials configured and a reachable index, the list handler
  returns one document per distinct truthy source id among the first 10000 matches of the
  source filter, each with the number of those matches carrying its id as chunk count, sorted
  newest first by the time of dateAdded, with totalDocuments their number.\<close>

theorem listDocuments_groups_chunks:
  assumes "js_truthy_str pineconeKey" "js_truthy_str pineconeIndex" "conn_error ix = None"
  shows "\<exists>docs. listDocuments_handler now time pineconeKey pineconeIndex ''GET'' ix = DocumentList docs (length docs) \<and>
           distinct (map doc_id docs) \<and>
           set (map doc_id docs) = set (sids (take 10000 (filter source_filter (map snd (store ix))))) \<and>
           list_all (\<lambda>d. chunks d = count_list (sids (take 10000 (filter source_filter (map snd (store ix))))) (doc_id d)) docs \<and>
           sorted (map (\<lambda>d. - time (dateAdded d)) docs)"
proof -
  let ?docs = "sort_key (\<lambda>d. - time (dateAdded d))
                 (map snd (fold (group_match now) (take 10000 (filter source_filter (map snd (store ix)))) []))"
  have "listDocuments_handler now time pineconeKey pineconeIndex ''GET'' ix = DocumentList ?docs (length ?docs)"
    using listDocuments_GET[OF assms] by (simp add: Let_def)
  moreover have "sorted (map (\<lambda>d. - time (dateAdded d)) ?docs)" by (rule sorted_sort_key)
  ultimately show ?thesis using sort_groups[OF refl] by blast
qed

subsection \<open>documents/categories: seeding\<close>

lemma map_of_upsert_fold:
  "map_of (fold (\<lambda>(i, md) st. map_set i md st) vs st) = map_of st ++ map_of (rev vs)"
proof (induction vs arbitrary: st)
  case (Cons v vs)
  then show ?case by (cases v) (simp add: map_add_upd_left map_add_assoc[symmetric] fun_eq_iff map_add_def split: option.splits)
qed simp

lemma seeded_has_category:
  "idx_upsert category_vectors ix = Inr ix1 \<Longrightarrow> filter is_category (map snd (store ix1)) \<noteq> []"
proof -
  assume u: "idx_upsert category_vectors ix = Inr ix1"
  let ?md = "[(''isCategory'', MBool True), (''categoryId'', MStr ''business''), (''name'', MStr ''Business''),
              (''description'', MStr ''Business and entrepreneurship content'')]"
  have "map_of (rev category_vectors) ''category-business'' = Some ?md"
    by (simp add: category_vectors_def DEFAULT_CATEGORIES_def)
  then have "map_of (store ix1) ''category-business'' = Some ?md"
    using u by (auto simp: idx_upsert_def map_of_upsert_fold split: option.splits)
  then have "(''category-business'', ?md) \<in> set (store ix1)"
    by (rule map_of_SomeD)
  moreover have "is_category ?md" by (simp add: is_category_def md_get_def)
  ultimately show ?thesis by (force simp: filter_empty_conv)
qed

text \<open>C32: A GET of documents/categories that returns categories has upserted the default
  category vectors exactly when the index held no category, and nothing otherwise; a second
  GET after it sends no upsert and returns the same categories.\<close>

theorem categories_handler_seeds_once:
  assumes "categories_handler ''GET'' ix = (Categories cats, ix1, ws)"
  shows "ws = (if filter is_category (map snd (store ix)) = [] then [category_vectors] else []) \<and>
         categories_handler ''GET'' ix1 = (Categories cats, ix1, [])"
proof (cases "idx_query is_category 1 ix")
  case (Inl m)
  with assms show ?thesis by (simp add: categories_handler_def)
next
  case (Inr existing)
  have ex: "existing = take 1 (filter is_category (map snd (store ix)))" and c0: "conn_error ix = None"
    using Inr by (auto simp: idx_query_def split: option.splits)
  show ?thesis
  proof (cases "existing = []")
    case False
    then have "filter is_category (map snd (store ix)) \<noteq> []" using ex by auto
    with False assms Inr show ?thesis by (auto simp: categories_handler_def split: sum.splits)
  next
    case True
    then have none: "filter is_category (map snd (store ix)) = []" using ex by simp
    with True assms Inr obtain ix2 where u: "idx_upsert category_vectors ix = Inr ix2" and "ix1 = ix2"
        and w: "ws = [category_vectors]"
      by (auto simp: categories_handler_def Let_def split: sum.splits)
    then have e: "conn_error ix1 = None" and c: "filter is_category (map snd (store ix1)) \<noteq> []"
      using seeded_has_category[OF u] by (auto simp: idx_upsert_def split: option.splits)
    then have "idx_query is_category 1 ix1 = Inr (take 1 (filter is_category (map snd (store ix1))))"
      by (simp add: idx_query_def)
    with c assms Inr True u \<open>ix1 = ix2\<close> have "categories_handler ''GET'' ix1 = (Categories cats, ix1, [])"
      by (auto simp: categories_handler_def split: sum.splits)
    with w none show ?thesis by simp
  qed
qed

theorem categories_handler_seeds_once_witness:
  "categories_handler ''GET'' \<lparr>store = [], conn_error = None\<rparr> =
     (Categories (map to_category (map snd category_vectors)), \<lparr>store = category_vectors, conn_error = None\<rparr>,
      [category_vectors]) \<and>
   categories_handler ''GET'' \<lparr>store = category_vectors, conn_error = None\<rparr> =
     (Categories (map to_category (map snd category_vectors)), \<lparr>store = category_vectors, conn_error = None\<rparr>, [])"
proof -
  have h: "categories_handler ''GET'' \<lparr>store = [], conn_error = None\<rparr> =
     (Categories (map to_category (map snd category_vectors)), \<lparr>store = category_vectors, conn_error = None\<rparr>,
      [category_vectors])"
    by (simp add: categories_handler_def idx_query_def idx_upsert_def category_vectors_def DEFAULT_CATEGORIES_def
        is_category_def md_get_def to_category_def md_str_or_def md_opt_str_def)
  with categories_handler_seeds_once[OF h] show ?thesis by simp
qed

theorem listDocuments_groups_chunks_witness:
  "\<exists>docs. listDocuments_handler ''now'' (\<lambda>s. if s = ''d2'' then 2 else 1) (Some ''key'') (Some ''idx'') ''GET'' example_index
       = DocumentList docs (length docs) \<and>
     distinct (map doc_id docs) \<and> set (map doc_id docs) = {MStr ''s1'', MStr ''s2''} \<and>
     list_all (\<lambda>d. chunks d = (if doc_id d = MStr ''s1'' then 2 else 1)) docs \<and>
     sorted (map (\<lambda>d. - (if dateAdded d = ''d2'' then 2 else 1::int)) docs)"
proof -
  have s: "sids (take 10000 (filter source_filter (map snd (store example_index)))) = [MStr ''s1'', MStr ''s1'', MStr ''s2'']"
    by (simp add: example_index_def source_filter_def source_id_def md_get_def map_filter_def)
  obtain docs where
    h: "listDocuments_handler ''now'' (\<lambda>s. if s = ''d2'' then 2 else 1) (Some ''key'') (Some ''idx'') ''GET'' example_index
          = DocumentList docs (length docs)" and
    d: "distinct (map doc_id docs)" and
    i: "set (map doc_id docs) = {MStr ''s1'', MStr ''s2''}" and
    c: "list_all (\<lambda>d. chunks d = count_list [MStr ''s1'', MStr ''s1'', MStr ''s2''] (doc_id d)) docs" and
    o: "sorted (map (\<lambda>d. - (if dateAdded d = ''d2'' then 2 else 1::int)) docs)"
    using listDocuments_groups_chunks[of "Some ''key''" "Some ''idx''" example_index "''now''" "\<lambda>s. if s = ''d2'' then 2 else 1"]
    unfolding s by (auto simp: example_index_def)
  have "chunks d = (if doc_id d = MStr ''s1'' then 2 else 1)" if "d \<in> set docs" for d
  proof -
    from i that have "doc_id d = MStr ''s1'' \<or> doc_id d = MStr ''s2''" by auto
    with c that show ?thesis by (auto simp: list_all_iff)
  qed
  then have "list_all (\<lambda>d. chunks d = (if doc_id d = MStr ''s1'' then 2 else 1)) docs"
    by (simp add: list_all_iff)
  with h d i o show ?thesis by blast
qed

end
