(* ===== verification/DocumentIngest.thy ===== *)
theory DocumentIngest
  imports DocumentApi ApiHandlers
begin

text \<open>
  The handlers that write to and delete from the index that \<open>documents/list\<close> reads, and the
  other listing endpoint: the text ingestion handler of \<open>src/src/pages/api/langchain.ts\<close>
  (its second \<open>handler\<close>, lines 161-235), the question-answering handler of the same file
  (lines 34-151), \<open>documents/[id].ts\<close> (DELETE) and \<open>documents/index.ts\<close> (GET), and the
  Pinecone form of the vectors \<open>upload/text.ts\<close> builds.  The index is the one of
  \<open>DocumentApi\<close>, in one namespace; \<open>PineconeStore.addDocuments\<close> is one embedding call and
  one upsert of the documents under the ids it draws (a parameter, \<open>uuidv4\<close> in the library)
  with the page content under the key \<open>text\<close>.  The \<open>loc\<close> metadata of the text splitter is
  left out: no handler reads it.
\<close>

subsection \<open>The index, by id\<close>

text \<open>\<open>index.query\<close> keeping the ids of the matches, and \<open>index.deleteOne(id)\<close>.\<close>

definition idx_query_matches ::
  "(metadata \<Rightarrow> bool) \<Rightarrow> nat \<Rightarrow> pinecone_index \<Rightarrow> string + (string \<times> metadata) list" where
  "idx_query_matches flt topK ix =
     (case conn_error ix of
        Some m \<Rightarrow> Inl m
      | None \<Rightarrow> Inr (take topK (filter (\<lambda>(i, md). flt md) (store ix))))"

definition idx_delete :: "string \<Rightarrow> pinecone_index \<Rightarrow> string + pinecone_index" where
  "idx_delete i ix =
     (case conn_error ix of
        Some m \<Rightarrow> Inl m
      | None \<Rightarrow> Inr (ix\<lparr>store := map_delete i (store ix)\<rparr>))"

subsection \<open>langchain.ts: text ingestion\<close>

text \<open>The body \<open>{ text, title, categories = [], description }\<close>; \<open>None\<close> is undefined.\<close>

record IngestRequest =
  ing_text :: "string option"
  ing_title :: "string option"
  ing_categories :: "string list option"
  ing_description :: "string option"

text \<open>The services: \<open>textSplitter.createDocuments([text])\<close> with chunk size and overlap, the
  embedding of the documents by \<open>addDocuments\<close> (\<open>Inl\<close> the message it rejects with), and the
  id it gives the \<open>i\<close>-th document.\<close>

record ingest_services =
  is_split :: "nat \<Rightarrow> nat \<Rightarrow> string \<Rightarrow> string list"
  is_embed :: "string list \<Rightarrow> string + unit"
  is_id :: "nat \<Rightarrow> string"

datatype ingest_response =
  IngestMethodNotAllowed
| NoTextProvided
| IngestConfigMissing
| Ingested string
| IngestError string

fun ingest_status :: "ingest_response \<Rightarrow> nat" where
  "ingest_status IngestMethodNotAllowed = 405"
| "ingest_status NoTextProvided = 400"
| "ingest_status IngestConfigMissing = 500"
| "ingest_status (Ingested sid) = 200"
| "ingest_status (IngestError m) = 500"

text \<open>The metadata of the \<open>index\<close>-th of \<open>totalChunks\<close> documents, with the page content the
  store adds; an undefined description is not stored.\<close>

definition ingest_metadata :: "string \<Rightarrow> string \<Rightarrow> IngestRequest \<Rightarrow> nat \<Rightarrow> nat \<Rightarrow> string \<Rightarrow> metadata" where
  "ingest_metadata sourceId now req totalChunks index page =
     [(''text'', MStr page), (''source_id'', MStr sourceId), (''source_type'', MStr ''document''),
      (''title'', MStr (if js_truthy_str (ing_title req) then the (ing_title req) else ''Untitled Document'')),
      (''date_added'', MStr now), (''chunk_index'', MNum (int index)), (''total_chunks'', MNum (int totalChunks)),
      (''categories'', MList (js_nullish (ing_categories req) []))] @
     (case ing_description req of None \<Rightarrow> [] | Some d \<Rightarrow> [(''description'', MStr d)])"

definition ingest_vectors ::
  "ingest_services \<Rightarrow> string \<Rightarrow> string \<Rightarrow> IngestRequest \<Rightarrow> string list \<Rightarrow> (string \<times> metadata) list" where
  "ingest_vectors sv sourceId now req docs =
     map (\<lambda>(index, page). (is_id sv index, ingest_metadata sourceId now req (length docs) index page))
       (enumerate 0 docs)"

text \<open>The handler: \<open>dateNow\<close> is \<open>Date.now()\<close>, \<open>now\<close> is \<open>new Date().toISOString()\<close>; the
  response and the index after it.\<close>

definition ingestText_handler ::
  "ingest_services \<Rightarrow> string option \<Rightarrow> string option \<Rightarrow> nat \<Rightarrow> string \<Rightarrow> string \<Rightarrow> IngestRequest \<Rightarrow>
   pinecone_index \<Rightarrow> ingest_response \<times> pinecone_index" where
  "ingestText_handler sv pineconeKey pineconeIndex dateNow now method req ix =
     (if method \<noteq> ''POST'' then (IngestMethodNotAllowed, ix)
      else if \<not> js_truthy_str (ing_text req) then (NoTextProvided, ix)
      else if \<not> js_truthy_str pineconeKey \<or> \<not> js_truthy_str pineconeIndex then (IngestConfigMissing, ix)
      else
        let docs = is_split sv 1000 200 (the (ing_text req));
            sourceId = ''doc-'' @ nat_str dateNow
        in case is_embed sv docs of
             Inl m \<Rightarrow> (IngestError m, ix)
           | Inr u \<Rightarrow>
               (case idx_upsert (ingest_vectors sv sourceId now req docs) ix of
                  Inl m \<Rightarrow> (IngestError m, ix)
                | Inr ix1 \<Rightarrow> (Ingested sourceId, ix1)))"

subsection \<open>langchain.ts: question answering\<close>

record QaRequest =
  question :: "string option"
  chat_history :: "(string \<times> string) list option"

text \<open>\<open>chain.call({question, chat_history})\<close>: \<open>Inl\<close> the message it rejects with, or the
  answer text and the \<open>source\<close> metadata of the source documents.\<close>

type_synonym qa_chain = "string \<Rightarrow> string \<Rightarrow> string + string \<times> string list"

datatype qa_response =
  QaMethodNotAllowed
| QaInvalidRequest
| QaAnswer string "string list"
| QaError nat string

definition formatHistory :: "(string \<times> string) list \<Rightarrow> string" where
  "formatHistory hist = js_join js_newline (map (\<lambda>(human, ai). ''Human: '' @ human @ js_newline @ ''Assistant: '' @ ai) hist)"

definition qa_error_status :: "string \<Rightarrow> nat" where
  "qa_error_status m =
     (if js_includes m ''rate limit'' then 429
      else if js_includes m ''not allowed'' then 403
      else if js_includes m ''invalid'' then 400
      else 500)"

definition langchain_handler ::
  "qa_chain \<Rightarrow> string option \<Rightarrow> string option \<Rightarrow> string option \<Rightarrow> string \<Rightarrow> QaRequest \<Rightarrow> qa_response" where
  "langchain_handler chain openaiKey pineconeKey pineconeIndex method req =
     (if method \<noteq> ''POST'' then QaMethodNotAllowed
      else if \<not> js_truthy_str openaiKey \<or> \<not> js_truthy_str pineconeKey \<or> \<not> js_truthy_str pineconeIndex
        then QaError (qa_error_status ''Missing required environment variables'') ''Missing required environment variables''
      else if \<not> js_truthy_str (map_option js_trim (question req)) then QaInvalidRequest
      else
        (case chain (the (question req)) (formatHistory (js_nullish (chat_history req) [])) of
           Inl m \<Rightarrow> QaError (qa_error_status m) m
         | Inr (answer, sources) \<Rightarrow> QaAnswer answer sources))"

subsection \<open>documents/[id].ts\<close>

datatype delete_response =
  Deleted
| DeleteError string
| DeleteMethodNotAllowed

definition deleteDocument_handler :: "string \<Rightarrow> string \<Rightarrow> pinecone_index \<Rightarrow> delete_response \<times> pinecone_index" where
  "deleteDocument_handler method docId ix =
     (if method = ''DELETE'' then
        (case idx_delete docId ix of
           Inl m \<Rightarrow> (DeleteError m, ix)
         | Inr ix1 \<Rightarrow> (Deleted, ix1))
      else (DeleteMethodNotAllowed, ix))"

subsection \<open>documents/index.ts\<close>

record IndexDocument =
  ixd_id :: string
  ixd_title :: string
  ixd_description :: string
  ixd_type :: string
  ixd_dateAdded :: string
  ixd_chunks :: mval
  ixd_contentType :: string
  ixd_tags :: mval

text \<open>\<open>metadata?.key || dflt\<close> on any value.\<close>

definition md_or :: "metadata \<Rightarrow> string \<Rightarrow> mval \<Rightarrow> mval" where
  "md_or md k dflt = (case md_get md k of Some v \<Rightarrow> if mval_truthy v then v else dflt | None \<Rightarrow> dflt)"

definition index_document :: "string \<Rightarrow> string \<times> metadata \<Rightarrow> IndexDocument" where
  "index_document now match =
     (case match of (i, md) \<Rightarrow>
       \<lparr>ixd_id = i, ixd_title = md_str_or md ''title'' ''Untitled'',
        ixd_description = (case md_get md ''text'' of Some (MStr s) \<Rightarrow> take 200 s | _ \<Rightarrow> ''No description''),
        ixd_type = md_str_or md ''source'' ''unknown'', ixd_dateAdded = md_str_or md ''uploadTimestamp'' now,
        ixd_chunks = md_or md ''chunks'' (MNum 1), ixd_contentType = md_str_or md ''contentType'' ''text'',
        ixd_tags = md_or md ''tags'' (MList [])\<rparr>)"

datatype index_response =
  IndexMethodNotAllowed
| IndexDocuments "IndexDocument list"
| IndexError string

definition listIndex_handler :: "string \<Rightarrow> string \<Rightarrow> pinecone_index \<Rightarrow> index_response" where
  "listIndex_handler now method ix =
     (if method \<noteq> ''GET'' then IndexMethodNotAllowed
      else
        (case idx_query_matches (\<lambda>md. True) 100 ix of
           Inl m \<Rightarrow> IndexError m
         | Inr matches \<Rightarrow>
             let documents = map (index_document now) matches
             in IndexDocuments (map snd (fold (\<lambda>doc m. map_set (ixd_id doc) doc m) documents []))))"

subsection \<open>upload/text.ts: the vectors in the index\<close>

text \<open>The id \<open>text_${uuidv4()}_${index}\<close> (\<open>uuid\<close> draws one per vector) and the metadata of a
  vector of the upload handler, with its \<open>uploadTimestamp\<close>.\<close>

definition upload_record :: "(nat \<Rightarrow> string) \<Rightarrow> string \<Rightarrow> upload_vector \<Rightarrow> string \<times> metadata" where
  "upload_record uuid ts v =
     (''text_'' @ uuid (v_index v) @ ''_'' @ nat_str (v_index v),
      [(''text'', MStr (v_text v)), (''source'', MStr (v_source v)), (''title'', MStr (v_title v)),
       (''contentType'', MStr (v_contentType v)), (''tags'', MList (v_tags v)), (''language'', MStr (v_language v)),
       (''uploadTimestamp'', MStr ts)])"

subsection \<open>Examples\<close>

text \<open>An ingestion that splits after three characters and numbers its ids, and the index it
  leaves when it ingests \<open>hello\<close> into an empty index at time 5.\<close>

definition example_ingest_services :: ingest_services where
  "example_ingest_services = \<lparr>is_split = (\<lambda>size overlap t. [take 3 t, drop 3 t]), is_embed = (\<lambda>docs. Inr ()),
     is_id = (\<lambda>j. ''u'' @ nat_str j)\<rparr>"

definition example_ingest :: IngestRequest where
  "example_ingest = \<lparr>ing_text = Some ''hello'', ing_title = Some ''T'', ing_categories = None, ing_description = None\<rparr>"

definition example_ingested :: pinecone_index where
  "example_ingested = \<lparr>store = ingest_vectors example_ingest_services ''doc-5'' ''now'' example_ingest [''hel'', ''lo''],
     conn_error = None\<rparr>"

definition example_uploaded :: "upload_vector list" where
  "example_uploaded = [example_vector, example_vector\<lparr>v_index := 1, v_text := ''there''\<rparr>]"

subsection \<open>Upserts into an association list\<close>

lemma set_map_set_subset: "set (map_set k v xs) \<subseteq> insert (k, v) (set xs)"
proof (induction xs)
  case (Cons p xs)
  then show ?case by (cases p) auto
qed simp

lemma keys_upsert_fold:
  "fst ` set (fold (\<lambda>(i, md) st. map_set i md st) vs st) = fst ` set st \<union> fst ` set vs"
proof (induction vs arbitrary: st)
  case (Cons v vs)
  then show ?case by (cases v) auto
qed simp

lemma upsert_fold_fresh:
  "distinct (map fst vs) \<Longrightarrow> fst ` set vs \<inter> fst ` set st = {} \<Longrightarrow>
   fold (\<lambda>(i, md) st. map_set i md st) vs st = st @ vs"
proof (induction vs arbitrary: st)
  case (Cons v vs)
  obtain k md where v: "v = (k, md)" by (cases v)
  with Cons.prems have "map_of st k = None" by (auto simp: map_of_eq_None_iff)
  then have m: "map_set k md st = st @ [(k, md)]" by (rule map_set_new)
  have "distinct (map fst vs)" using Cons.prems(1) by simp
  moreover have "fst ` set vs \<inter> fst ` set (st @ [(k, md)]) = {}"
    using Cons.prems v by auto
  ultimately have "fold (\<lambda>(i, md) st. map_set i md st) vs (st @ [(k, md)]) = (st @ [(k, md)]) @ vs"
    by (rule Cons.IH)
  then show ?case by (simp add: v m)
qed simp

lemma filter_map_set_untagged:
  "\<not> P v \<Longrightarrow> \<forall>p \<in> set st. fst p = k \<longrightarrow> \<not> P (snd p) \<Longrightarrow>
   filter P (map snd (map_set k v st)) = filter P (map snd st)"
  by (induction st) auto

lemma filter_upsert_fold_untagged:
  "\<forall>p \<in> set vs. \<not> P (snd p) \<Longrightarrow> \<forall>p \<in> set st. fst p \<in> fst ` set vs \<longrightarrow> \<not> P (snd p) \<Longrightarrow>
   filter P (map snd (fold (\<lambda>(i, md) st. map_set i md st) vs st)) = filter P (map snd st)"
proof (induction vs arbitrary: st)
  case (Cons v vs)
  obtain k md where v: "v = (k, md)" by (cases v)
  have new: "\<not> P md" and rest: "\<forall>p \<in> set vs. \<not> P (snd p)"
    using Cons.prems(1) v by simp_all
  have old: "\<not> P (snd p)" if "p \<in> set st" "fst p = k \<or> fst p \<in> fst ` set vs" for p
    using Cons.prems(2) v that by auto
  have step: "filter P (map snd (map_set k md st)) = filter P (map snd st)"
    using new old by (intro filter_map_set_untagged) blast+
  have "\<forall>p \<in> set (map_set k md st). fst p \<in> fst ` set vs \<longrightarrow> \<not> P (snd p)"
  proof (intro ballI impI)
    fix p assume p: "p \<in> set (map_set k md st)" "fst p \<in> fst ` set vs"
    then have "p = (k, md) \<or> p \<in> set st" using subsetD[OF set_map_set_subset p(1)] by simp
    then show "\<not> P (snd p)"
    proof
      assume "p = (k, md)" then show ?thesis using new by simp
    next
      assume "p \<in> set st" then show ?thesis using old p(2) by blast
    qed
  qed
  with rest have "filter P (map snd (fold (\<lambda>(i, md) st. map_set i md st) vs (map_set k md st))) =
             filter P (map snd (map_set k md st))"
    by (rule Cons.IH)
  with step v show ?case by simp
qed simp

subsection \<open>Text uploads are never listed\<close>

lemma upload_record_untagged: "\<not> source_filter (snd (upload_record uuid ts v))"
  by (simp add: upload_record_def source_filter_def md_get_def)

lemma listDocuments_same_matches:
  assumes "conn_error ix1 = conn_error ix"
    and "filter source_filter (map snd (store ix1)) = filter source_filter (map snd (store ix))"
  shows "listDocuments_handler now time pineconeKey pineconeIndex method ix1 =
         listDocuments_handler now time pineconeKey pineconeIndex method ix"
  unfolding listDocuments_handler_def idx_query_def assms ..

text \<open>C33: The vectors upload/text writes carry no source_id, so writing them into the index
  (under ids it does not hold yet) leaves the response of documents/list unchanged: a document
  uploaded as text is never listed.\<close>

theorem text_upload_not_listed:
  assumes "\<forall>v \<in> set vs. fst (upload_record uuid ts v) \<notin> fst ` set (store ix)"
    and "idx_upsert (map (upload_record uuid ts) vs) ix = Inr ix1"
  shows "listDocuments_handler now time pineconeKey pineconeIndex ''GET'' ix1 =
         listDocuments_handler now time pineconeKey pineconeIndex ''GET'' ix"
proof -
  let ?vs = "map (upload_record uuid ts) vs"
  have ix1: "ix1 = ix\<lparr>store := fold (\<lambda>(i, md) st. map_set i md st) ?vs (store ix)\<rparr>"
    using assms(2) by (auto simp: idx_upsert_def split: option.splits)
  have "\<forall>p \<in> set ?vs. \<not> source_filter (snd p)"
    using upload_record_untagged by auto
  moreover have "\<forall>p \<in> set (store ix). fst p \<in> fst ` set ?vs \<longrightarrow> \<not> source_filter (snd p)"
  proof (intro ballI impI)
    fix p assume p: "p \<in> set (store ix)" "fst p \<in> fst ` set ?vs"
    then obtain x where "x \<in> set vs" "fst p = fst (upload_record uuid ts x)" by auto
    moreover have "fst p \<in> fst ` set (store ix)" using p(1) by (rule imageI)
    ultimately show "\<not> source_filter (snd p)" using assms(1) by simp
  qed
  ultimately have "filter source_filter (map snd (fold (\<lambda>(i, md) st. map_set i md st) ?vs (store ix))) =
                   filter source_filter (map snd (store ix))"
    by (rule filter_upsert_fold_untagged)
  with ix1 show ?thesis by (intro listDocuments_same_matches) simp_all
qed


subsection \<open>Ingested documents are listed, and DELETE by their id removes nothing\<close>

lemma ingest_success:
  "ingestText_handler sv pineconeKey pineconeIndex dateNow now method req ix = (Ingested sid, ix1) \<Longrightarrow>
   js_truthy_str pineconeKey \<and> js_truthy_str pineconeIndex \<and> sid = ''doc-'' @ nat_str dateNow \<and>
   idx_upsert (ingest_vectors sv sid now req (is_split sv 1000 200 (the (ing_text req)))) ix = Inr ix1"
  by (auto simp: ingestText_handler_def Let_def split: if_splits sum.splits)

lemma idx_upsert_Inr:
  "idx_upsert vs ix = Inr ix1 \<Longrightarrow>
   conn_error ix = None \<and> ix1 = ix\<lparr>store := fold (\<lambda>(i, md) st. map_set i md st) vs (store ix)\<rparr>"
  by (auto simp: idx_upsert_def split: option.splits)

lemma map_fst_ingest_vectors:
  "map fst (ingest_vectors sv sid now req docs) = map (is_id sv) [0..<length docs]"
proof -
  have z: "map fst (zip [0..<length docs] docs) = [0..<length docs]" by (rule map_fst_zip) simp
  have "map fst (ingest_vectors sv sid now req docs) = map (is_id sv \<circ> fst) (zip [0..<length docs] docs)"
    by (simp add: ingest_vectors_def enumerate_eq_zip comp_def split_beta)
  also have "\<dots> = map (is_id sv) (map fst (zip [0..<length docs] docs))" by (simp only: map_map)
  also have "\<dots> = map (is_id sv) [0..<length docs]" by (simp only: z)
  finally show ?thesis .
qed

lemma map_filter_append: "List.map_filter f (xs @ ys) = List.map_filter f xs @ List.map_filter f ys"
  by (simp add: map_filter_def)

lemma sids_ingest_vectors:
  "sid \<noteq> [] \<Longrightarrow> sids (map snd (ingest_vectors sv sid now req docs)) = replicate (length docs) (MStr sid)"
  by (simp add: ingest_vectors_def enumerate_eq_zip map_filter_def source_id_def md_get_def
      ingest_metadata_def split_beta comp_def map_replicate_const)

lemma source_filter_ingest_vectors:
  "filter source_filter (map snd (ingest_vectors sv sid now req docs)) = map snd (ingest_vectors sv sid now req docs)"
  by (simp add: ingest_vectors_def enumerate_eq_zip source_filter_def md_get_def ingest_metadata_def split_beta)

lemma count_list_replicate_self: "count_list (replicate n x) x = n"
  by (induction n) auto

lemma distinct_filter_key:
  "distinct (map f xs) \<Longrightarrow> x \<in> set xs \<Longrightarrow> filter (\<lambda>y. f y = f x) xs = [x]"
  by (induction xs) (auto simp: filter_empty_conv image_iff)

text \<open>C34: After langchain.ts ingests a text of n > 0 chunks under fresh vector ids into an index
  that holds fewer than 10000 - n source-tagged vectors and no document with the new source id,
  documents/list shows exactly one document with that id and n chunks; but DELETE
  /api/documents/<that id> answers success and changes nothing, because the chunk vectors are
  stored under the store's own ids, never under the source id.\<close>

theorem ingested_document_listed_not_deletable:
  assumes ing: "ingestText_handler sv pineconeKey pineconeIndex dateNow now ''POST'' req ix = (Ingested sid, ix1)"
    and n: "n = length (is_split sv 1000 200 (the (ing_text req)))" "0 < n"
    and ids: "distinct (map (is_id sv) [0..<n])" "\<forall>j<n. is_id sv j \<notin> fst ` set (store ix)" "\<forall>j. is_id sv j \<noteq> sid"
    and fresh: "sid \<notin> fst ` set (store ix)" "MStr sid \<notin> set (sids (filter source_filter (map snd (store ix))))"
    and cap: "length (filter source_filter (map snd (store ix))) + n \<le> 10000"
  shows "\<exists>docs d. listDocuments_handler now' time pineconeKey pineconeIndex ''GET'' ix1 = DocumentList docs (length docs) \<and>
           filter (\<lambda>d. doc_id d = MStr sid) docs = [d] \<and> chunks d = n \<and>
           deleteDocument_handler ''DELETE'' sid ix1 = (Deleted, ix1)"
proof -
  let ?docs0 = "is_split sv 1000 200 (the (ing_text req))"
  let ?vs = "ingest_vectors sv sid now req ?docs0"
  have s: "js_truthy_str pineconeKey" "js_truthy_str pineconeIndex" "sid = ''doc-'' @ nat_str dateNow"
    and u: "idx_upsert ?vs ix = Inr ix1"
    using ingest_success[OF ing] by blast+
  have c: "conn_error ix = None" and ix1: "ix1 = ix\<lparr>store := fold (\<lambda>(i, md) st. map_set i md st) ?vs (store ix)\<rparr>"
    using idx_upsert_Inr[OF u] by simp_all
  have keys: "fst ` set ?vs = is_id sv ` {0..<n}"
    using arg_cong[OF map_fst_ingest_vectors, of set, of sv sid now req ?docs0] n(1) by simp
  have "distinct (map fst ?vs)" using ids(1) n(1) by (simp only: map_fst_ingest_vectors)
  moreover have "fst ` set ?vs \<inter> fst ` set (store ix) = {}" using ids(2) keys by auto
  ultimately have st: "store ix1 = store ix @ ?vs" using ix1 by (simp add: upsert_fold_fresh)
  have c1: "conn_error ix1 = None" using c ix1 by simp
  let ?ms = "take 10000 (filter source_filter (map snd (store ix1)))"
  have len: "length (map snd ?vs) = n" using n(1) by (simp add: ingest_vectors_def)
  have ms: "?ms = filter source_filter (map snd (store ix)) @ map snd ?vs"
    using cap len by (simp add: st source_filter_ingest_vectors)
  have sid_ne: "sid \<noteq> []" using s(3) by simp
  have sids_ms: "sids ?ms = sids (filter source_filter (map snd (store ix))) @ replicate n (MStr sid)"
    using n(1) by (simp add: ms map_filter_append sids_ingest_vectors[OF sid_ne])
  define docs where "docs = sort_key (\<lambda>d. - time (dateAdded d)) (map snd (fold (group_match now') ?ms []))"
  have h: "listDocuments_handler now' time pineconeKey pineconeIndex ''GET'' ix1 = DocumentList docs (length docs)"
    using listDocuments_GET[OF s(1,2) c1, of now' time] by (simp add: Let_def docs_def)
  have g: "distinct (map doc_id docs)" "set (map doc_id docs) = set (sids ?ms)"
          "list_all (\<lambda>d. chunks d = count_list (sids ?ms) (doc_id d)) docs"
    using sort_groups[OF docs_def] by simp_all
  have "MStr sid \<in> set (sids ?ms)" using n(2) sids_ms by simp
  then have "MStr sid \<in> doc_id ` set docs" using g(2) by simp
  then obtain d where d: "d \<in> set docs" "doc_id d = MStr sid" by (auto elim: imageE)
  have f: "filter (\<lambda>d. doc_id d = MStr sid) docs = [d]"
    using distinct_filter_key[OF g(1) d(1)] d(2) by simp
  have "chunks d = count_list (sids ?ms) (MStr sid)" using g(3) d by (simp add: list_all_iff)
  also have "\<dots> = n" using fresh(2) sids_ms by (simp add: count_list_0_iff count_list_replicate_self)
  finally have ch: "chunks d = n" .
  have "sid \<notin> fst ` set ?vs" using keys ids(3) by auto
  then have "sid \<notin> fst ` set (store ix1)" using fresh(1) st by (simp add: image_Un)
  then have "map_of (store ix1) sid = None" by (simp add: map_of_eq_None_iff)
  then have "deleteDocument_handler ''DELETE'' sid ix1 = (Deleted, ix1)"
    using c1 by (simp add: deleteDocument_handler_def idx_delete_def map_delete_absent)
  with h f ch show ?thesis by blast
qed


theorem text_upload_not_listed_witness:
  "listDocuments_handler ''now'' (\<lambda>s. 0) (Some ''key'') (Some ''idx'') ''GET''
     (example_index\<lparr>store := store example_index @ [upload_record (\<lambda>i. ''x'') ''ts'' example_vector]\<rparr>) =
   listDocuments_handler ''now'' (\<lambda>s. 0) (Some ''key'') (Some ''idx'') ''GET'' example_index"
proof -
  have "\<forall>v \<in> set [example_vector]. fst (upload_record (\<lambda>i. ''x'') ''ts'' v) \<notin> fst ` set (store example_index)"
    by (simp add: upload_record_def example_index_def example_vector_def nat_str.simps)
  moreover have "idx_upsert (map (upload_record (\<lambda>i. ''x'') ''ts'') [example_vector]) example_index =
      Inr (example_index\<lparr>store := store example_index @ [upload_record (\<lambda>i. ''x'') ''ts'' example_vector]\<rparr>)"
    by (simp add: idx_upsert_def upload_record_def example_index_def example_vector_def nat_str.simps)
  ultimately show ?thesis by (rule text_upload_not_listed)
qed

theorem ingested_document_listed_not_deletable_witness:
  "\<exists>docs d. listDocuments_handler ''later'' (\<lambda>s. 0) (Some ''key'') (Some ''idx'') ''GET'' example_ingested =
       DocumentList docs (length docs) \<and>
     filter (\<lambda>d. doc_id d = MStr ''doc-5'') docs = [d] \<and> chunks d = 2 \<and>
     deleteDocument_handler ''DELETE'' ''doc-5'' example_ingested = (Deleted, example_ingested)"
proof -
  have ing: "ingestText_handler example_ingest_services (Some ''key'') (Some ''idx'') 5 ''now'' ''POST'' example_ingest
               \<lparr>store = [], conn_error = None\<rparr> = (Ingested ''doc-5'', example_ingested)"
    by (simp add: ingestText_handler_def example_ingest_services_def example_ingest_def example_ingested_def
        idx_upsert_def ingest_vectors_def nat_str.simps Let_def)
  show ?thesis
  proof (rule ingested_document_listed_not_deletable[OF ing])
    show "2 = length (is_split example_ingest_services 1000 200 (the (ing_text example_ingest)))"
      by (simp add: example_ingest_services_def example_ingest_def)
    show "distinct (map (is_id example_ingest_services) [0..<2])"
      by (simp add: example_ingest_services_def upt_conv_Cons nat_str.simps)
    show "\<forall>j. is_id example_ingest_services j \<noteq> ''doc-5''"
      by (simp add: example_ingest_services_def)
  qed simp_all
qed

subsection \<open>Text uploads in documents/index\<close>

lemma fold_map_set_key:
  "fold (\<lambda>d m. map_set (f d) d m) xs m0 = fold (\<lambda>(i, md) st. map_set i md st) (map (\<lambda>d. (f d, d)) xs) m0"
  by (induction xs arbitrary: m0) simp_all

lemma fst_index_document [simp]: "ixd_id (index_document now p) = fst p"
  by (cases p) (simp add: index_document_def)

lemma listIndex_GET:
  assumes "conn_error ix = None" "distinct (map fst (store ix))" "length (store ix) \<le> 100"
  shows "listIndex_handler now ''GET'' ix = IndexDocuments (map (index_document now) (store ix))"
proof -
  let ?ds = "map (index_document now) (store ix)"
  have k: "map fst (map (\<lambda>d. (ixd_id d, d)) ?ds) = map fst (store ix)" by (simp add: comp_def)
  have d: "distinct (map fst (map (\<lambda>d. (ixd_id d, d)) ?ds))" unfolding k by (rule assms(2))
  have "fold (\<lambda>d m. map_set (ixd_id d) d m) ?ds [] = map (\<lambda>d. (ixd_id d, d)) ?ds"
    unfolding fold_map_set_key using upsert_fold_fresh[OF d, of "[]"] by simp
  then show ?thesis using assms by (simp add: listIndex_handler_def idx_query_matches_def Let_def comp_def)
qed

text \<open>C35: The other listing endpoint, documents/index, shows every vector the upload/text
  handler writes as a document of its own: after the upload's vectors are written under new
  ids into an index of at most 100 vectors with distinct ids, documents/index lists the
  documents it listed before followed by one entry per chunk, with the chunk's vector id and a
  chunk count of 1.\<close>

theorem uploaded_chunks_listed_separately:
  assumes "conn_error ix = None" "distinct (map fst (store ix))"
    and "distinct (map (\<lambda>v. fst (upload_record uuid ts v)) vs)"
    and "\<forall>v \<in> set vs. fst (upload_record uuid ts v) \<notin> fst ` set (store ix)"
    and "length (store ix) + length vs \<le> 100"
    and "idx_upsert (map (upload_record uuid ts) vs) ix = Inr ix1"
  shows "listIndex_handler now ''GET'' ix1 =
           IndexDocuments (map (index_document now) (store ix) @ map (index_document now \<circ> upload_record uuid ts) vs) \<and>
         map ixd_id (map (index_document now \<circ> upload_record uuid ts) vs) = map (\<lambda>v. fst (upload_record uuid ts v)) vs \<and>
         list_all (\<lambda>d. ixd_chunks d = MNum 1) (map (index_document now \<circ> upload_record uuid ts) vs)"
proof -
  let ?vs = "map (upload_record uuid ts) vs"
  have ix1: "ix1 = ix\<lparr>store := fold (\<lambda>(i, md) st. map_set i md st) ?vs (store ix)\<rparr>"
    using idx_upsert_Inr[OF assms(6)] by simp
  have "distinct (map fst ?vs)" using assms(3) by (simp add: comp_def)
  moreover have i: "fst ` set ?vs = (\<lambda>v. fst (upload_record uuid ts v)) ` set vs" by (simp add: image_image)
  have "fst ` set ?vs \<inter> fst ` set (store ix) = {}" unfolding i using assms(4) by blast
  ultimately have st: "store ix1 = store ix @ ?vs" using ix1 \<open>fst ` set ?vs \<inter> fst ` set (store ix) = {}\<close>
    by (simp add: upsert_fold_fresh)
  have "distinct (map fst (store ix1))"
    using st assms(2) \<open>distinct (map fst ?vs)\<close> \<open>fst ` set ?vs \<inter> fst ` set (store ix) = {}\<close>
    by (simp only: map_append distinct_append set_map Int_commute)
  moreover have "length (store ix1) \<le> 100" using st assms(5) by simp
  moreover have "conn_error ix1 = None" using ix1 assms(1) by simp
  ultimately have "listIndex_handler now ''GET'' ix1 = IndexDocuments (map (index_document now) (store ix1))"
    by (intro listIndex_GET)
  moreover have "map ixd_id (map (index_document now \<circ> upload_record uuid ts) vs) =
                  map (\<lambda>v. fst (upload_record uuid ts v)) vs"
    by (simp add: comp_def)
  moreover have "list_all (\<lambda>d. ixd_chunks d = MNum 1) (map (index_document now \<circ> upload_record uuid ts) vs)"
    by (simp add: list_all_iff index_document_def upload_record_def md_or_def md_get_def)
  ultimately show ?thesis using st by simp
qed

theorem uploaded_chunks_listed_separately_witness:
  "listIndex_handler ''now'' ''GET''
     (example_index\<lparr>store := store example_index @ map (upload_record (\<lambda>i. ''x'') ''ts'') example_uploaded\<rparr>) =
     IndexDocuments (map (index_document ''now'') (store example_index) @
                     map (index_document ''now'' \<circ> upload_record (\<lambda>i. ''x'') ''ts'') example_uploaded) \<and>
   map ixd_id (map (index_document ''now'' \<circ> upload_record (\<lambda>i. ''x'') ''ts'') example_uploaded) = [''text_x_0'', ''text_x_1''] \<and>
   list_all (\<lambda>d. ixd_chunks d = MNum 1) (map (index_document ''now'' \<circ> upload_record (\<lambda>i. ''x'') ''ts'') example_uploaded)"
proof -
  have u: "idx_upsert (map (upload_record (\<lambda>i. ''x'') ''ts'') example_uploaded) example_index =
      Inr (example_index\<lparr>store := store example_index @ map (upload_record (\<lambda>i. ''x'') ''ts'') example_uploaded\<rparr>)"
    by (simp add: idx_upsert_def upload_record_def example_index_def example_uploaded_def example_vector_def nat_str.simps)
  have h: "conn_error example_index = None" "distinct (map fst (store example_index))"
      "distinct (map (\<lambda>v. fst (upload_record (\<lambda>i. ''x'') ''ts'' v)) example_uploaded)"
      "\<forall>v \<in> set example_uploaded. fst (upload_record (\<lambda>i. ''x'') ''ts'' v) \<notin> fst ` set (store example_index)"
      "length (store example_index) + length example_uploaded \<le> 100"
    by (simp_all add: example_index_def example_uploaded_def upload_record_def example_vector_def nat_str.simps)
  have ids: "map (\<lambda>v. fst (upload_record (\<lambda>i. ''x'') ''ts'' v)) example_uploaded = [''text_x_0'', ''text_x_1'']"
    by (simp add: example_uploaded_def upload_record_def example_vector_def nat_str.simps)
  show ?thesis using uploaded_chunks_listed_separately[OF h u, of "''now''"] ids by simp
qed

end
