(* ===== verification/Spec2Isabelle.thy ===== *)
theory Spec2Isabelle
  imports WorkerPool RetryBatch ChunkBatch Cache CacheManager YouTubePipeline ContentAnalysis TextCleaning SmartCorrection ApiHandlers DocumentApi DocumentIngest
begin

text \<open>
  \<^bold>\<open>Verification development of chat-with-youtube.\<close>
  The program ingests documents, YouTube transcripts and web pages, cleans and splits them,
  embeds the pieces and stores them in a Pinecone index, and answers questions over that index.
  Its task-execution substrate is a worker pool, two batch processors with retries, two caches
  and a YouTube pipeline that composes them; its HTTP handlers (Next.js API routes) validate,
  clean, embed, list and delete documents.  Every theory below is a shallow embedding of the
  TypeScript sources: records for classes and request bodies, datatypes for unions and
  responses, one definition per method or handler, explicit state passing (the state is the
  returned record), \<open>Inl\<close> for every rejected promise, thrown error or error response, and
  oracles (function parameters) for the network services.

  \<^bold>\<open>Theories, parts of the program, and what is proved.\<close>
  \<^item> \<open>Prelude\<close>: the JavaScript built-ins the sources rely on (\<open>||\<close>, \<open>??\<close>, truthiness,
    \<open>slice\<close>, \<open>Map\<close> as an association list with \<open>map_set\<close>/\<open>map_delete\<close>, \<open>String\<close> of a
    number, \<open>join\<close>, \<open>trim\<close>, \<open>includes\<close>, \<open>toLowerCase\<close>, numbers with infinities), the
    \<open>js_simps\<close> collection and the list and map lemmas the components share.
  \<^item> \<open>WorkerPool\<close>: class \<open>WorkerPool\<close> of \<open>src/src/utils/workerPool.ts\<close> (lines 31-235).
    The pool, its threads, posted jobs, timers and pending promises are one record; each
    listener and method is a definition and \<open>pool_step\<close> applies one event.  Proved: a
    well-formedness invariant of every reachable state (rule induction on \<open>pool_reachable\<close>),
    task accounting, and, for every reachable state, the two defects of
    \<open>executeTask\<close>/\<open>processNextTask\<close>: a submission with no idle worker always makes one more
    worker busy, whatever \<open>maxWorkers\<close> is, and the head of the queue is posted again to each
    worker a submission finds or creates.
  \<^item> \<open>RetryBatch\<close>: class \<open>BatchProcessor\<close> of \<open>src/src/lib/youtube/batchProcessor.ts\<close>.  The
    per-item call is an oracle \<open>ok x k\<close> (attempt \<open>k\<close> of item \<open>x\<close> succeeds); waits are
    returned, not slept.  Proved: the counts of a resolved and of a rejected \<open>process\<close>,
    termination, and that \<open>createBatches\<close> refines \<open>chunks\<close>.
  \<^item> \<open>ChunkBatch\<close>: class \<open>BatchProcessor\<close> of \<open>src/unnamed/part_001\<close>, with the p-limit
    concurrency as a completion order (\<open>valid_schedule\<close>).  Proved: exponential backoff,
    the counts and progress bounds of every valid completion order, and that
    \<open>processLargeDocument\<close> never returns for a negative batch size.
  \<^item> \<open>Cache\<close>: class \<open>Cache\<close> of \<open>src/unnamed/part_005\<close> (TTL and size bound, FIFO eviction);
    \<open>CacheManager\<close>: class \<open>CacheManager\<close> of \<open>src/src/utils/smartCorrection.ts\<close> over a model
    of the node-cache library.  Proved: invariants of every run of operations, the set/get
    round trip, that \<open>set\<close> loops forever when \<open>maxSize\<close> is not positive, and that
    \<open>cleanCache\<close> keeps cached values.
  \<^item> \<open>YouTubePipeline\<close>: class \<open>YouTubeProcessor\<close> of \<open>src/src/utils/workerPool.ts\<close> (lines
    236-549), composed with the \<open>CacheManager\<close>, chunk \<open>BatchProcessor\<close> and \<open>WorkerPool\<close>
    models; downloads, transcription and vector writes are services whose calls are logged.
    Proved: the order of the service calls, the stale queue entry and the kept audio file on
    errors, an invariant of the monitoring state machine (\<open>yt_reachable\<close>), termination of
    \<open>processVideoBatch\<close>, and liveness: every reachable state can reach one with no
    monitored channel and no polling timer.
  \<^item> \<open>ContentAnalysis\<close>: \<open>analyzeContent\<close>, \<open>detectContentType\<close> (\<open>src/unnamed/part_002\<close>)
    and \<open>processText\<close>/\<open>calculateComplexity\<close> (\<open>src/src/workers/textProcessing.ts\<close>), with
    the \<open>Object.prototype\<close> semantics of \<open>in\<close> and of inherited keys.
  \<^item> \<open>JsRegex\<close> and \<open>TextCleaning\<close>: the regular expressions of the text cleaners of
    \<open>textProcessing.ts\<close>, run by a backtracking matcher proved sound and complete for an
    inductive language; \<open>cleanText\<close> and its wrappers as compositions of global replacements.
    Proved: the shape of the cleaned text (and, on one input, the lost-words defect of the
    label pattern that a finding records).
  \<^item> \<open>SmartCorrection\<close>: \<open>correctText\<close> and \<open>formatContentForVectorDB\<close>, threading the
    correction cache and a log of chat-completion requests.  Proved: the \<open>constructor\<close> and
    short-word defects.
  \<^item> \<open>ApiHandlers\<close>: \<open>src/src/pages/api/upload/text.ts\<close> and \<open>config-status.ts\<close>; proved: the
    upload writes only validated requests, once; the configuration check's exact condition.
  \<^item> \<open>DocumentApi\<close> and \<open>DocumentIngest\<close>: \<open>documents/list.ts\<close>, \<open>categories.ts\<close>,
    \<open>index.ts\<close>, \<open>[id].ts\<close> and both handlers of \<open>langchain.ts\<close>, over one model of the Pinecone
    index (a list of vectors in store order; upserts replace by id; a zero-vector query returns
    the first \<open>topK\<close> matches of its filter).  Proved: the list groups chunks by source id with
    exact counts, sorted by date; the categories handler upserts the defaults exactly when the
    index has no category, and a second GET sends no upsert; text uploads are never
    listed; an ingested document is listed with its chunk count but DELETE by its listed id
    removes nothing.

  \<^bold>\<open>Fuel.\<close>  Loops that can run forever in the source take fuel and return \<open>None\<close> when it
  runs out: the eviction loop of \<open>Cache.set\<close> (one more than the map's size is enough whenever
  the loop ends), the retry loops of the batch processors (one more than the number of items
  or attempts), and the batching loops of the YouTube pipeline (more than the number of chunks
  of any text).  Each claim that a loop returns is proved as existence of a result for that
  fuel; the non-terminating cases are proved as \<open>None\<close> for every fuel.

  \<^bold>\<open>Approximations.\<close>  Numbers are rationals, not doubles (\<open>ContentAnalysis\<close>); the
  node-cache model stores values without cloning them and assumes fetched values carry no
  \<open>_accessCount\<close> field (\<open>CacheManager\<close>); the pool's \<open>initialize\<close> loop runs to the end
  before the first event, and task ids are a counter instead of \<open>Math.random\<close>
  (\<open>WorkerPool\<close>); the items of a batch run one after another, and \<open>Promise.all\<close> runs all
  of them (its early rejection is not distinguished) (\<open>RetryBatch\<close>, \<open>ChunkBatch\<close>);
  \<open>embed_all\<close> reports the first rejection in chunk order, not the first in time
  (\<open>ApiHandlers\<close>); a zero-vector query returns the first \<open>topK\<close> matches in store order,
  and the index has one namespace (\<open>DocumentApi\<close>, \<open>DocumentIngest\<close>).

  \<^bold>\<open>Not modelled.\<close>  The React pages and components (presentation only); the shell,
  PowerShell and Docker scripts; \<open>vectorStorage.ts\<close> and \<open>pinecone.ts\<close> (thin clients of the
  external services); \<open>pinecone.ts\<close>, \<open>setup.ts\<close>, \<open>system/status.ts\<close>, \<open>youtube/status.ts\<close>,
  \<open>health.ts\<close> and \<open>upload/url.ts\<close> under \<open>pages/api\<close> (process status and wrappers over
  external services); \<open>lib/youtube/youtubeProcessor.ts\<close>; the transcription utilities of
  \<open>workerPool.ts\<close> (shell and browser I/O); the worker wrapper's dynamic import; clocks and
  timing metrics (times are parameters); Pinecone namespaces and similarity order; the text
  splitter and the language models (parameters and oracles).
\<close>

end
